(* ===== verification/Prelude.thy ===== *)
theory Prelude
  imports Main "HOL-Library.Word" "HOL-Library.Char_ord" "HOL-Library.List_Lexorder"
begin

text \<open>
  Shared vocabulary of the development: the parts of Rust's \<open>str\<close>, \<open>u8\<close>, integer parsing,
  \<open>Option\<close> and \<open>Result\<close> that several crates use.  A \<open>&str\<close> is the list of its UTF-8 bytes
  (type \<^typ>\<open>string\<close>), so \<open>length\<close> is \<open>str::len\<close> and every byte-level test of the source is a test
  on a character.  A \<open>Result\<close> is a sum with the error on the left.
\<close>

named_theorems str_simps \<open>rewrite rules for the string operations\<close>

section \<open>Results\<close>

definition and_then :: "'e + 'a \<Rightarrow> ('a \<Rightarrow> 'e + 'b) \<Rightarrow> 'e + 'b" where
  "and_then r f = (case r of Inl e \<Rightarrow> Inl e | Inr x \<Rightarrow> f x)"

definition map_err :: "('e \<Rightarrow> 'f) \<Rightarrow> 'e + 'a \<Rightarrow> 'f + 'a" where
  "map_err h r = (case r of Inl e \<Rightarrow> Inl (h e) | Inr x \<Rightarrow> Inr x)"

definition ok_or :: "'e \<Rightarrow> 'a option \<Rightarrow> 'e + 'a" where
  "ok_or e v = (case v of None \<Rightarrow> Inl e | Some x \<Rightarrow> Inr x)"

definition is_ok :: "'e + 'a \<Rightarrow> bool" where
  "is_ok r = (case r of Inl _ \<Rightarrow> False | Inr _ \<Rightarrow> True)"

lemma and_then_simps [simp]:
  "and_then (Inl e) f = Inl e" "and_then (Inr x) f = f x"
  by (simp_all add: and_then_def)

lemma map_err_simps [simp]:
  "map_err h (Inl e) = Inl (h e)" "map_err h (Inr x) = Inr x"
  by (simp_all add: map_err_def)

lemma ok_or_simps [simp]:
  "ok_or e None = Inl e" "ok_or e (Some x) = Inr x"
  by (simp_all add: ok_or_def)

lemma is_ok_simps [simp]:
  "\<not> is_ok (Inl e)" "is_ok (Inr x)"
  by (simp_all add: is_ok_def)

lemma and_then_eq_Inr: "and_then r f = Inr y \<longleftrightarrow> (\<exists>x. r = Inr x \<and> f x = Inr y)"
  by (cases r) simp_all

lemma map_err_eq_Inr [simp]: "map_err h r = Inr y \<longleftrightarrow> r = Inr y"
  by (cases r) simp_all

lemma ok_or_eq_Inr [simp]: "ok_or e v = Inr y \<longleftrightarrow> v = Some y"
  by (cases v) simp_all

lemmas result_simps = and_then_eq_Inr and_then_def map_err_def ok_or_def

section \<open>Bytes of the ASCII range\<close>

definition code :: "char \<Rightarrow> nat" where
  "code c = of_char c"

definition is_ascii_digit :: "char \<Rightarrow> bool" where
  "is_ascii_digit c \<longleftrightarrow> 48 \<le> code c \<and> code c \<le> 57"

definition is_ascii_lowercase :: "char \<Rightarrow> bool" where
  "is_ascii_lowercase c \<longleftrightarrow> 97 \<le> code c \<and> code c \<le> 122"

definition is_ascii_uppercase :: "char \<Rightarrow> bool" where
  "is_ascii_uppercase c \<longleftrightarrow> 65 \<le> code c \<and> code c \<le> 90"

definition is_ascii_alphanumeric :: "char \<Rightarrow> bool" where
  "is_ascii_alphanumeric c \<longleftrightarrow> is_ascii_digit c \<or> is_ascii_lowercase c \<or> is_ascii_uppercase c"

definition is_ascii_hexdigit :: "char \<Rightarrow> bool" where
  "is_ascii_hexdigit c \<longleftrightarrow> is_ascii_digit c \<or> (97 \<le> code c \<and> code c \<le> 102)
     \<or> (65 \<le> code c \<and> code c \<le> 70)"

definition lower :: "char \<Rightarrow> char" where
  "lower c = (if is_ascii_uppercase c then char_of (code c + 32) else c)"

definition to_ascii_lowercase :: "string \<Rightarrow> string" where
  "to_ascii_lowercase s = map lower s"

definition eq_ignore_ascii_case :: "string \<Rightarrow> string \<Rightarrow> bool" where
  "eq_ignore_ascii_case s t \<longleftrightarrow> to_ascii_lowercase s = to_ascii_lowercase t"

lemma code_eq_iff: "code a = code b \<longleftrightarrow> a = b"
  by (simp add: code_def)

lemma code_char_of: "n < 256 \<Longrightarrow> code (char_of n) = n"
  by (simp add: code_def)

lemma code_lower: "code (lower c) = (if is_ascii_uppercase c then code c + 32 else code c)"
  by (auto simp: lower_def code_char_of is_ascii_uppercase_def)

lemma lower_not_upper [simp]: "\<not> is_ascii_uppercase (lower c)"
  by (auto simp: is_ascii_uppercase_def code_lower)

lemma lower_idem [simp]: "lower (lower c) = lower c"
  by (simp add: lower_def [of "lower c"])

lemma lower_id: "\<not> is_ascii_uppercase c \<Longrightarrow> lower c = c"
  by (simp add: lower_def)

lemma lower_eq_iff:
  assumes "\<not> is_ascii_uppercase d" and "\<not> is_ascii_lowercase d"
  shows "lower c = d \<longleftrightarrow> c = d"
proof
  assume eq: "lower c = d"
  show "c = d"
  proof (cases "is_ascii_uppercase c")
    case True
    then have "is_ascii_lowercase (lower c)"
      by (auto simp: is_ascii_lowercase_def is_ascii_uppercase_def code_lower)
    with eq assms show ?thesis by simp
  qed (use eq in \<open>simp add: lower_def\<close>)
qed (use assms in \<open>simp add: lower_def\<close>)

lemma lower_dot [simp]: "lower c = CHR ''.'' \<longleftrightarrow> c = CHR ''.''"
  by (rule lower_eq_iff) (simp_all add: is_ascii_uppercase_def is_ascii_lowercase_def code_def)

lemma lower_hyphen [simp]: "lower c = CHR ''-'' \<longleftrightarrow> c = CHR ''-''"
  by (rule lower_eq_iff) (simp_all add: is_ascii_uppercase_def is_ascii_lowercase_def code_def)

lemma lower_tilde [simp]: "lower c = CHR ''~'' \<longleftrightarrow> c = CHR ''~''"
  by (rule lower_eq_iff) (simp_all add: is_ascii_uppercase_def is_ascii_lowercase_def code_def)

lemma to_ascii_lowercase_simps [simp]:
  "to_ascii_lowercase [] = []"
  "to_ascii_lowercase (c # s) = lower c # to_ascii_lowercase s"
  "to_ascii_lowercase (s @ t) = to_ascii_lowercase s @ to_ascii_lowercase t"
  "length (to_ascii_lowercase s) = length s"
  "to_ascii_lowercase (to_ascii_lowercase s) = to_ascii_lowercase s"
  by (simp_all add: to_ascii_lowercase_def)

lemma to_ascii_lowercase_id:
  "(\<And>c. c \<in> set s \<Longrightarrow> \<not> is_ascii_uppercase c) \<Longrightarrow> to_ascii_lowercase s = s"
  by (induction s) (auto simp: lower_id)

section \<open>Prefixes, suffixes, splitting\<close>

definition starts_with :: "'a list \<Rightarrow> 'a list \<Rightarrow> bool" where
  "starts_with p s \<longleftrightarrow> take (length p) s = p"

definition ends_with :: "'a list \<Rightarrow> 'a list \<Rightarrow> bool" where
  "ends_with q s \<longleftrightarrow> length q \<le> length s \<and> drop (length s - length q) s = q"

definition strip_prefix :: "'a list \<Rightarrow> 'a list \<Rightarrow> 'a list option" where
  "strip_prefix p s = (if starts_with p s then Some (drop (length p) s) else None)"

definition strip_suffix :: "'a list \<Rightarrow> 'a list \<Rightarrow> 'a list option" where
  "strip_suffix q s = (if ends_with q s then Some (take (length s - length q) s) else None)"

definition strip_suffix_or :: "'a list \<Rightarrow> 'a list \<Rightarrow> 'a list" where
  "strip_suffix_or q s = (case strip_suffix q s of Some t \<Rightarrow> t | None \<Rightarrow> s)"

fun split_on :: "'a \<Rightarrow> 'a list \<Rightarrow> 'a list list" where
  "split_on d [] = [[]]"
| "split_on d (c # s) =
     (if c = d then [] # split_on d s
      else case split_on d s of [] \<Rightarrow> [[c]] | p # ps \<Rightarrow> (c # p) # ps)"

definition split_once :: "'a \<Rightarrow> 'a list \<Rightarrow> ('a list \<times> 'a list) option" where
  "split_once d s =
     (case dropWhile (\<lambda>c. c \<noteq> d) s of
        [] \<Rightarrow> None
      | _ # rest \<Rightarrow> Some (takeWhile (\<lambda>c. c \<noteq> d) s, rest))"

definition rsplit_once :: "'a \<Rightarrow> 'a list \<Rightarrow> ('a list \<times> 'a list) option" where
  "rsplit_once d s =
     (case split_once d (rev s) of None \<Rightarrow> None | Some (a, b) \<Rightarrow> Some (rev b, rev a))"

definition replace_char :: "'a \<Rightarrow> 'a list \<Rightarrow> 'a list \<Rightarrow> 'a list" where
  "replace_char d r s = concat (map (\<lambda>c. if c = d then r else [c]) s)"

lemma starts_with_iff: "starts_with p s \<longleftrightarrow> (\<exists>t. s = p @ t)"
  by (metis append_eq_conv_conj append_take_drop_id starts_with_def)

lemma ends_with_iff: "ends_with q s \<longleftrightarrow> (\<exists>t. s = t @ q)"
proof
  assume "ends_with q s"
  then have "s = take (length s - length q) s @ q"
    by (metis append_take_drop_id ends_with_def)
  then show "\<exists>t. s = t @ q" ..
qed (auto simp: ends_with_def)

lemma starts_with_append [simp]: "starts_with p (p @ t)"
  by (auto simp: starts_with_iff)

lemma ends_with_append [simp]: "ends_with q (t @ q)"
  by (auto simp: ends_with_iff)

lemma strip_prefix_append [simp]: "strip_prefix p (p @ t) = Some t"
  by (simp add: strip_prefix_def)

lemma strip_suffix_append [simp]: "strip_suffix q (t @ q) = Some t"
  by (simp add: strip_suffix_def)

lemma strip_prefix_Some [simp]: "strip_prefix p s = Some t \<longleftrightarrow> s = p @ t"
  by (auto simp: strip_prefix_def starts_with_iff split: if_splits)

lemma strip_suffix_Some [simp]: "strip_suffix q s = Some t \<longleftrightarrow> s = t @ q"
  by (auto simp: strip_suffix_def ends_with_iff split: if_splits)

lemma strip_suffix_None: "strip_suffix q s = None \<longleftrightarrow> \<not> ends_with q s"
  by (simp add: strip_suffix_def)

lemma strip_prefix_None: "strip_prefix q s = None \<longleftrightarrow> \<not> starts_with q s"
  by (simp add: strip_prefix_def)

lemma split_on_not_Nil [simp]: "split_on d s \<noteq> []"
  by (induction s) (auto split: list.splits)

lemma split_on_free: "d \<notin> set s \<Longrightarrow> split_on d s = [s]"
  by (induction s) auto

lemma split_on_sep: "split_on d (s @ d # t) = split_on d s @ split_on d t"
  by (induction s) (auto split: list.splits)

lemma split_on_pieces: "p \<in> set (split_on d s) \<Longrightarrow> d \<notin> set p \<and> set p \<subseteq> set s"
  by (induction s arbitrary: p) (fastforce split: list.splits if_splits)+

lemma dropWhile_neq_free: "dropWhile (\<lambda>c. c \<noteq> d) s = [] \<longleftrightarrow> d \<notin> set s"
  by (induction s) auto

lemma split_once_None [simp]: "split_once d s = None \<longleftrightarrow> d \<notin> set s"
  unfolding split_once_def dropWhile_neq_free [symmetric]
  by (cases "dropWhile (\<lambda>c. c \<noteq> d) s") (simp_all del: dropWhile_eq_Nil_conv)

lemma split_once_append: "d \<notin> set a \<Longrightarrow> split_once d (a @ d # b) = Some (a, b)"
  by (simp add: split_once_def)
     (subst dropWhile_append2 takeWhile_append2; auto)+

lemma split_once_Some: "split_once d s = Some (a, b) \<longleftrightarrow> s = a @ d # b \<and> d \<notin> set a"
proof
  assume eq: "split_once d s = Some (a, b)"
  then obtain x where x: "dropWhile (\<lambda>c. c \<noteq> d) s = x # b" and a: "a = takeWhile (\<lambda>c. c \<noteq> d) s"
    by (auto simp: split_once_def split: list.splits)
  have "x = d" using hd_dropWhile [of "\<lambda>c. c \<noteq> d" s] x by simp
  then have "s = a @ d # b" using takeWhile_dropWhile_id [of "\<lambda>c. c \<noteq> d" s] x a by simp
  moreover have "d \<notin> set a" using a set_takeWhileD by fastforce
  ultimately show "s = a @ d # b \<and> d \<notin> set a" by simp
qed (auto simp: split_once_append)

lemma replace_char_simps [simp]:
  "replace_char d r [] = []"
  "replace_char d r (c # s) = (if c = d then r @ replace_char d r s else c # replace_char d r s)"
  "replace_char d r (s @ t) = replace_char d r s @ replace_char d r t"
  by (simp_all add: replace_char_def)

lemma replace_char_free [simp]: "d \<notin> set s \<Longrightarrow> replace_char d r s = s"
  by (induction s) auto

lemma set_replace_char: "set (replace_char d r s) = (set s - {d}) \<union> (if d \<in> set s then set r else {})"
  by (induction s) auto

section \<open>Unicode white space and \<open>str::trim\<close>\<close>

text \<open>The UTF-8 encodings of the code points with the \<open>White_Space\<close> property.\<close>

definition white_space :: "string list" where
  "white_space =
     [[CHR 0x09], [CHR 0x0A], [CHR 0x0B], [CHR 0x0C], [CHR 0x0D], [CHR 0x20],
      [CHR 0xC2, CHR 0x85], [CHR 0xC2, CHR 0xA0], [CHR 0xE1, CHR 0x9A, CHR 0x80],
      [CHR 0xE2, CHR 0x80, CHR 0x80], [CHR 0xE2, CHR 0x80, CHR 0x81],
      [CHR 0xE2, CHR 0x80, CHR 0x82], [CHR 0xE2, CHR 0x80, CHR 0x83],
      [CHR 0xE2, CHR 0x80, CHR 0x84], [CHR 0xE2, CHR 0x80, CHR 0x85],
      [CHR 0xE2, CHR 0x80, CHR 0x86], [CHR 0xE2, CHR 0x80, CHR 0x87],
      [CHR 0xE2, CHR 0x80, CHR 0x88], [CHR 0xE2, CHR 0x80, CHR 0x89],
      [CHR 0xE2, CHR 0x80, CHR 0x8A], [CHR 0xE2, CHR 0x80, CHR 0xA8],
      [CHR 0xE2, CHR 0x80, CHR 0xA9], [CHR 0xE2, CHR 0x80, CHR 0xAF],
      [CHR 0xE2, CHR 0x81, CHR 0x9F], [CHR 0xE3, CHR 0x80, CHR 0x80]]"

definition leading_space :: "string \<Rightarrow> string option" where
  "leading_space s = find (\<lambda>w. starts_with w s) white_space"

definition trailing_space :: "string \<Rightarrow> string option" where
  "trailing_space s = find (\<lambda>w. ends_with w s) white_space"

lemma white_space_nonempty: "w \<in> set white_space \<Longrightarrow> w \<noteq> []"
  by (auto simp: white_space_def)

lemma find_SomeD: "find P xs = Some x \<Longrightarrow> x \<in> set xs \<and> P x"
  by (auto simp: find_Some_iff)

lemma leading_space_SomeD:
  "leading_space s = Some w \<Longrightarrow> w \<in> set white_space \<and> w \<noteq> [] \<and> starts_with w s"
  unfolding leading_space_def using white_space_nonempty by (blast dest: find_SomeD)

lemma trailing_space_SomeD:
  "trailing_space s = Some w \<Longrightarrow> w \<in> set white_space \<and> w \<noteq> [] \<and> ends_with w s"
  unfolding trailing_space_def using white_space_nonempty by (blast dest: find_SomeD)

function trim_start :: "string \<Rightarrow> string" where
  "trim_start s = (case leading_space s of None \<Rightarrow> s | Some w \<Rightarrow> trim_start (drop (length w) s))"
  by pat_completeness auto
termination
  by (relation "measure length") (auto dest!: leading_space_SomeD simp: starts_with_iff)

function trim_end :: "string \<Rightarrow> string" where
  "trim_end s = (case trailing_space s of
      None \<Rightarrow> s | Some w \<Rightarrow> trim_end (take (length s - length w) s))"
  by pat_completeness auto
termination
  by (relation "measure length") (auto dest!: trailing_space_SomeD simp: ends_with_iff)

declare trim_start.simps [simp del] trim_end.simps [simp del]

definition trim :: "string \<Rightarrow> string" where
  "trim s = trim_end (trim_start s)"

text \<open>A byte that occurs in no white-space encoding.\<close>

definition solid :: "char \<Rightarrow> bool" where
  "solid c \<longleftrightarrow> (\<forall>w \<in> set white_space. c \<notin> set w)"

lemma white_space_codes:
  "w \<in> set white_space \<Longrightarrow> c \<in> set w \<Longrightarrow> code c \<in> {9, 10, 11, 12, 13, 32} \<or> 128 \<le> code c"
  by (auto simp: white_space_def code_def)

lemma solid_graphic: "33 \<le> code c \<Longrightarrow> code c < 128 \<Longrightarrow> solid c"
  by (fastforce simp: solid_def dest: white_space_codes)

lemma leading_space_solid: "s = [] \<or> solid (hd s) \<Longrightarrow> leading_space s = None"
proof (rule ccontr)
  assume s: "s = [] \<or> solid (hd s)" and "leading_space s \<noteq> None"
  then obtain w where "leading_space s = Some w" by auto
  then have "w \<in> set white_space" "starts_with w s" "w \<noteq> []"
    by (auto dest: leading_space_SomeD)
  then have "s \<noteq> []" "hd s = hd w" by (auto simp: starts_with_iff)
  with s \<open>w \<in> set white_space\<close> \<open>w \<noteq> []\<close> show False by (auto simp: solid_def)
qed

lemma trailing_space_solid: "s = [] \<or> solid (last s) \<Longrightarrow> trailing_space s = None"
proof (rule ccontr)
  assume s: "s = [] \<or> solid (last s)" and "trailing_space s \<noteq> None"
  then obtain w where "trailing_space s = Some w" by auto
  then have "w \<in> set white_space" "ends_with w s" "w \<noteq> []"
    by (auto dest: trailing_space_SomeD)
  then have "s \<noteq> []" "last s = last w" by (auto simp: ends_with_iff)
  with s \<open>w \<in> set white_space\<close> \<open>w \<noteq> []\<close> show False by (auto simp: solid_def)
qed

lemma trim_solid: "(\<And>c. c \<in> set s \<Longrightarrow> solid c) \<Longrightarrow> trim s = s"
proof -
  assume solid: "\<And>c. c \<in> set s \<Longrightarrow> solid c"
  then have "s = [] \<or> solid (hd s)" "s = [] \<or> solid (last s)" by (cases s; simp)+
  then have "trim_start s = s" "trim_end s = s"
    by (simp_all add: trim_start.simps [of s] trim_end.simps [of s] leading_space_solid
        trailing_space_solid)
  then show ?thesis by (simp add: trim_def)
qed

section \<open>UTF-8\<close>

text \<open>\<open>str::from_utf8\<close>: the well-formed byte sequences of the Unicode standard (Table 3-7).\<close>

definition cont :: "char \<Rightarrow> bool" where
  "cont c \<longleftrightarrow> 128 \<le> code c \<and> code c \<le> 191"

fun valid_utf8 :: "string \<Rightarrow> bool" where
  "valid_utf8 [] \<longleftrightarrow> True"
| "valid_utf8 (a # s) \<longleftrightarrow>
     (if code a < 128 then valid_utf8 s
      else if 194 \<le> code a \<and> code a \<le> 223 then
        (case s of b # t \<Rightarrow> cont b \<and> valid_utf8 t | _ \<Rightarrow> False)
      else if 224 \<le> code a \<and> code a \<le> 239 then
        (case s of
           b # c # t \<Rightarrow> cont b \<and> cont c \<and> (code a = 224 \<longrightarrow> 160 \<le> code b)
             \<and> (code a = 237 \<longrightarrow> code b \<le> 159) \<and> valid_utf8 t
         | _ \<Rightarrow> False)
      else if 240 \<le> code a \<and> code a \<le> 244 then
        (case s of
           b # c # d # t \<Rightarrow> cont b \<and> cont c \<and> cont d \<and> (code a = 240 \<longrightarrow> 144 \<le> code b)
             \<and> (code a = 244 \<longrightarrow> code b \<le> 143) \<and> valid_utf8 t
         | _ \<Rightarrow> False)
      else False)"

lemma valid_utf8_ascii: "(\<And>c. c \<in> set s \<Longrightarrow> code c < 128) \<Longrightarrow> valid_utf8 s"
  by (induction s) auto

section \<open>Decimal numbers\<close>

definition digit_char :: "nat \<Rightarrow> char" where
  "digit_char d = char_of (48 + d)"

fun show_nat :: "nat \<Rightarrow> string" where
  "show_nat n = (if n < 10 then [digit_char n] else show_nat (n div 10) @ [digit_char (n mod 10)])"

declare show_nat.simps [simp del]

datatype parse_int_error = Empty | InvalidDigit | PosOverflow

fun parse_digits :: "nat \<Rightarrow> nat \<Rightarrow> string \<Rightarrow> parse_int_error + nat" where
  "parse_digits bound acc [] = Inr acc"
| "parse_digits bound acc (c # s) =
     (if \<not> is_ascii_digit c then Inl InvalidDigit
      else if bound < acc * 10 + (code c - 48) then Inl PosOverflow
      else parse_digits bound (acc * 10 + (code c - 48)) s)"

text \<open>\<open>uN::from_str\<close> for the unsigned type whose largest value is \<open>bound\<close>.\<close>

definition parse_uint :: "nat \<Rightarrow> string \<Rightarrow> parse_int_error + nat" where
  "parse_uint bound s =
     (case s of
        [] \<Rightarrow> Inl Empty
      | [c] \<Rightarrow> if c = CHR ''+'' \<or> c = CHR ''-'' then Inl InvalidDigit else parse_digits bound 0 s
      | c # rest \<Rightarrow> if c = CHR ''+'' then parse_digits bound 0 rest else parse_digits bound 0 s)"

lemma digit_char_simps [simp]:
  "digit_char 0 = CHR ''0''" "digit_char (Suc 0) = CHR ''1''" "digit_char 1 = CHR ''1''"
  "digit_char 2 = CHR ''2''" "digit_char 3 = CHR ''3''" "digit_char 4 = CHR ''4''"
  "digit_char 5 = CHR ''5''" "digit_char 6 = CHR ''6''" "digit_char 7 = CHR ''7''"
  "digit_char 8 = CHR ''8''" "digit_char 9 = CHR ''9''"
  by code_simp+

lemma code_digit_char: "d < 10 \<Longrightarrow> code (digit_char d) = 48 + d"
  by (simp add: digit_char_def code_char_of)

lemma is_ascii_digit_digit_char: "d < 10 \<Longrightarrow> is_ascii_digit (digit_char d)"
  by (simp add: is_ascii_digit_def code_digit_char)

lemma show_nat_not_Nil [simp]: "show_nat n \<noteq> []"
  by (subst show_nat.simps) simp

lemma show_nat_digits: "c \<in> set (show_nat n) \<Longrightarrow> is_ascii_digit c"
proof (induction n rule: show_nat.induct)
  case (1 n)
  then show ?case
    by (subst (asm) (2) show_nat.simps) (auto simp: is_ascii_digit_digit_char split: if_splits)
qed

lemma parse_digits_snoc:
  "parse_digits b acc s = Inr m \<Longrightarrow> is_ascii_digit c \<Longrightarrow> m * 10 + (code c - 48) \<le> b
    \<Longrightarrow> parse_digits b acc (s @ [c]) = Inr (m * 10 + (code c - 48))"
  by (induction s arbitrary: acc) (auto split: if_splits)

lemma parse_digits_show_nat: "n \<le> b \<Longrightarrow> parse_digits b 0 (show_nat n) = Inr n"
proof (induction n rule: show_nat.induct)
  case (1 n)
  show ?case
  proof (cases "n < 10")
    case True
    with 1 show ?thesis
      by (subst show_nat.simps) (simp add: is_ascii_digit_digit_char code_digit_char)
  next
    case False
    with 1 have "parse_digits b 0 (show_nat (n div 10)) = Inr (n div 10)" by simp
    from parse_digits_snoc [OF this, of "digit_char (n mod 10)"] False 1 show ?thesis
      by (subst show_nat.simps) (simp add: is_ascii_digit_digit_char code_digit_char)
  qed
qed

lemma parse_digits_bound: "parse_digits b acc s = Inr m \<Longrightarrow> acc \<le> b \<Longrightarrow> m \<le> b"
  by (induction s arbitrary: acc) (auto split: if_splits)

lemma parse_uint_bound: "parse_uint b s = Inr m \<Longrightarrow> m \<le> b"
  by (auto simp: parse_uint_def split: list.splits if_splits intro: parse_digits_bound)

lemma parse_uint_show_nat: "n \<le> b \<Longrightarrow> parse_uint b (show_nat n) = Inr n"
proof -
  assume n: "n \<le> b"
  obtain c rest where s: "show_nat n = c # rest" by (cases "show_nat n") auto
  then have "is_ascii_digit c" using show_nat_digits [of c n] by simp
  then have "c \<noteq> CHR ''+''" "c \<noteq> CHR ''-''" by (auto simp: is_ascii_digit_def code_def)
  with s parse_digits_show_nat [OF n] show ?thesis
    by (auto simp: parse_uint_def split: list.splits)
qed

end
