(* ===== verification/Names.thy ===== *)
theory Names
  imports Prelude
begin

text \<open>
  The crate \<open>dhttp-home\<close>, file \<open>home/src/dhttp_home.rs\<close>: canonical DHTTP names, the DNS label
  rules behind them, and the location of the DHTTP home directory.
\<close>

section \<open>DNS names\<close>

definition DHTTP_SUFFIX :: string where
  "DHTTP_SUFFIX = ''.dhttp.net''"

definition label_byte :: "char \<Rightarrow> bool" where
  "label_byte c \<longleftrightarrow> is_ascii_lowercase c \<or> is_ascii_digit c \<or> c = CHR ''-''"

definition valid_label :: "string \<Rightarrow> bool" where
  "valid_label l \<longleftrightarrow> 1 \<le> length l \<and> length l \<le> 63 \<and> \<not> starts_with ''-'' l
     \<and> \<not> ends_with ''-'' l \<and> list_all label_byte l"

definition is_valid_dns_labels :: "string \<Rightarrow> bool" where
  "is_valid_dns_labels name \<longleftrightarrow>
     length name \<le> 253 \<and> list_all valid_label (split_on CHR ''.'' name)"

definition is_valid_dns_name :: "string \<Rightarrow> bool" where
  "is_valid_dns_name name \<longleftrightarrow>
     2 \<le> length (split_on CHR ''.'' name) \<and> is_valid_dns_labels name"

definition normalize_name :: "string \<Rightarrow> string option" where
  "normalize_name input =
     (let name = to_ascii_lowercase (trim input);
          name = (if ends_with DHTTP_SUFFIX name then name
                  else case strip_suffix ''~'' name of
                         Some partial \<Rightarrow> partial @ DHTTP_SUFFIX
                       | None \<Rightarrow> name @ DHTTP_SUFFIX)
      in if is_valid_dns_name name then Some name else None)"

definition normalize_dns_name :: "string \<Rightarrow> string option" where
  "normalize_dns_name input =
     (let name = to_ascii_lowercase (trim input);
          name = strip_suffix_or ''.'' name;
          name = (case strip_suffix ''~'' name of
                    Some partial \<Rightarrow> partial @ DHTTP_SUFFIX
                  | None \<Rightarrow> name)
      in if is_valid_dns_labels name then Some name else None)"

datatype invalid_name = InvalidName

definition validate_name :: "string \<Rightarrow> invalid_name + unit" where
  "validate_name input = (if normalize_name input = Some input then Inr () else Inl InvalidName)"

section \<open>Facts about labels\<close>

definition name_byte :: "char \<Rightarrow> bool" where
  "name_byte c \<longleftrightarrow> label_byte c \<or> c = CHR ''.''"

lemma name_byte_code:
  "name_byte c \<Longrightarrow> 45 \<le> code c \<and> code c \<le> 122 \<and> \<not> is_ascii_uppercase c
     \<and> c \<noteq> CHR ''/'' \<and> c \<noteq> CHR ''~'' \<and> c \<noteq> CHR ''*''"
  by (auto simp: name_byte_def label_byte_def is_ascii_lowercase_def is_ascii_digit_def
      is_ascii_uppercase_def code_def)

lemma name_byte_solid: "name_byte c \<Longrightarrow> solid c"
  by (rule solid_graphic) (auto dest: name_byte_code)

lemma split_on_chars:
  "c \<in> set s \<Longrightarrow> c = d \<or> (\<exists>p \<in> set (split_on d s). c \<in> set p)"
  by (induction s) (auto split: list.splits)

lemma valid_labels_bytes:
  "list_all valid_label (split_on CHR ''.'' s) \<Longrightarrow> c \<in> set s \<Longrightarrow> name_byte c"
  by (auto simp: list_all_iff valid_label_def name_byte_def dest: split_on_chars)

lemma valid_labels_lower:
  "list_all valid_label (split_on CHR ''.'' s) \<Longrightarrow> to_ascii_lowercase s = s"
  by (rule to_ascii_lowercase_id) (auto dest: valid_labels_bytes name_byte_code)

lemma valid_labels_trim: "list_all valid_label (split_on CHR ''.'' s) \<Longrightarrow> trim s = s"
  by (rule trim_solid) (auto dest: valid_labels_bytes intro: name_byte_solid)

lemma valid_name_labels: "is_valid_dns_name s \<Longrightarrow> list_all valid_label (split_on CHR ''.'' s)"
  by (simp add: is_valid_dns_name_def is_valid_dns_labels_def)

lemma valid_labels_nonempty: "list_all valid_label (split_on CHR ''.'' s) \<Longrightarrow> s \<noteq> []"
  by (auto simp: valid_label_def)

lemma valid_labels_no_tilde_end:
  "list_all valid_label (split_on CHR ''.'' s) \<Longrightarrow> \<not> ends_with ''~'' s"
  by (auto simp: ends_with_iff dest!: valid_labels_bytes [where c = "CHR ''~''"] name_byte_code)

lemma valid_labels_no_dot_end:
  "list_all valid_label (split_on CHR ''.'' s) \<Longrightarrow> \<not> ends_with ''.'' s"
  by (auto simp: ends_with_iff split_on_sep valid_label_def)

text \<open>A canonical name: what \<open>normalize_name\<close> returns.\<close>

definition canonical :: "string \<Rightarrow> bool" where
  "canonical n \<longleftrightarrow> is_valid_dns_name n \<and> ends_with DHTTP_SUFFIX n"

lemma normalize_name_canonical: "normalize_name s = Some n \<Longrightarrow> canonical n"
  by (auto simp: normalize_name_def canonical_def Let_def split: if_splits option.splits)

lemma normalize_name_id: "canonical n \<Longrightarrow> normalize_name n = Some n"
  by (simp add: canonical_def normalize_name_def valid_name_labels valid_labels_lower
      valid_labels_trim)

lemma canonical_stem:
  "canonical n \<Longrightarrow> \<exists>stem. n = stem @ DHTTP_SUFFIX \<and> stem \<noteq> []
     \<and> list_all valid_label (split_on CHR ''.'' stem)"
proof -
  assume n: "canonical n"
  then obtain stem where stem: "n = stem @ DHTTP_SUFFIX"
    by (auto simp: canonical_def ends_with_iff)
  then have "split_on CHR ''.'' n = split_on CHR ''.'' stem @ [''dhttp'', ''net'']"
    by (simp add: DHTTP_SUFFIX_def split_on_sep)
  with n have "list_all valid_label (split_on CHR ''.'' stem)"
    using valid_name_labels [of n] by (simp add: canonical_def)
  with stem show ?thesis using valid_labels_nonempty by blast
qed

section \<open>The DHTTP home\<close>

text \<open>
  A \<open>PathBuf\<close> is its list of components; \<open>join\<close> with one normal component appends it.
\<close>

type_synonym path = "string list"

definition join :: "path \<Rightarrow> string \<Rightarrow> path" where
  "join p c = p @ [c]"

datatype home_scope = User | Global

datatype load_home_error = NoUserHome | GlobalHomeNotConfigured | UnsupportedPlatform

definition DIR_NAME :: string where
  "DIR_NAME = ''.dhttp''"

definition for_user_home_dir :: "path \<Rightarrow> path" where
  "for_user_home_dir home_dir = join home_dir DIR_NAME"

text \<open>\<open>has_home_dirs\<close> is the compile-time test \<open>any(unix, windows)\<close>.\<close>

definition resolve_user_home_path ::
    "bool \<Rightarrow> path option \<Rightarrow> path option \<Rightarrow> load_home_error + path" where
  "resolve_user_home_path has_home_dirs runtime_home user_home_dir =
     (case runtime_home of
        Some path \<Rightarrow> Inr path
      | None \<Rightarrow>
          and_then (ok_or (if has_home_dirs then NoUserHome else UnsupportedPlatform) user_home_dir)
            (\<lambda>home_dir. Inr (join home_dir DIR_NAME)))"

definition resolve_global_home_path ::
    "path option \<Rightarrow> path option \<Rightarrow> path option \<Rightarrow> load_home_error + path" where
  "resolve_global_home_path runtime_home compiled_home default_home =
     (case runtime_home of
        Some path \<Rightarrow> Inr path
      | None \<Rightarrow>
          (case compiled_home of
             Some path \<Rightarrow> Inr path
           | None \<Rightarrow>
               (case default_home of
                  Some path \<Rightarrow> Inr path
                | None \<Rightarrow> Inl GlobalHomeNotConfigured)))"

text \<open>What \<open>DhttpHome::load\<close> reads from its surroundings.\<close>

record environment =
  env_home :: "path option"
  env_global_home :: "path option"
  home_dir :: "path option"
  compiled_global :: "path option"
  unix_or_windows :: bool
  linux_or_macos :: bool

definition user_home_dir :: "environment \<Rightarrow> path option" where
  "user_home_dir env = (if unix_or_windows env then home_dir env else None)"

definition platform_default_global_home :: "environment \<Rightarrow> path option" where
  "platform_default_global_home env =
     (if linux_or_macos env then Some [''/'', ''etc'', ''dhttp''] else None)"

definition load_home :: "environment \<Rightarrow> home_scope \<Rightarrow> load_home_error + path" where
  "load_home env scope =
     (case scope of
        User \<Rightarrow> resolve_user_home_path (unix_or_windows env) (env_home env) (user_home_dir env)
      | Global \<Rightarrow> resolve_global_home_path (env_global_home env) (compiled_global env)
                   (platform_default_global_home env))"

section \<open>Properties\<close>

text \<open>normalisation is idempotent and its results are exactly the canonical names: valid
  lowercase DNS names under the DHTTP suffix; these are the inputs that \<open>validate_name\<close> accepts.\<close>
theorem normalize_name_fixpoints:
  "(\<forall>n. (\<exists>s. normalize_name s = Some n) = canonical n)
   \<and> (\<forall>n. (validate_name n = Inr ()) = canonical n)
   \<and> (\<forall>s n. normalize_name s = Some n \<longrightarrow> normalize_name n = Some n
        \<and> to_ascii_lowercase n = n \<and> length n \<le> 253)"
proof (intro conjI allI impI)
  fix s n
  show "(\<exists>s. normalize_name s = Some n) = canonical n"
    using normalize_name_canonical normalize_name_id by blast
  show "(validate_name n = Inr ()) = canonical n"
    using normalize_name_canonical normalize_name_id by (auto simp: validate_name_def)
  assume "normalize_name s = Some n"
  then have n: "canonical n" by (rule normalize_name_canonical)
  then show "normalize_name n = Some n" by (rule normalize_name_id)
  from n show "to_ascii_lowercase n = n" "length n \<le> 253"
    by (auto simp: canonical_def valid_name_labels valid_labels_lower)
       (simp add: is_valid_dns_name_def is_valid_dns_labels_def)
qed

theorem normalize_name_fixpoints_witness:
  "normalize_name '' Alice.Smith~ '' = Some ''alice.smith.dhttp.net''
   \<and> normalize_name ''alice.smith.dhttp.net'' = Some ''alice.smith.dhttp.net''"
proof -
  have h: "normalize_name '' Alice.Smith~ '' = Some ''alice.smith.dhttp.net''" by code_simp
  with normalize_name_fixpoints show ?thesis by blast
qed

end
