(* ===== verification/Languages.thy ===== *)
theory Languages
  imports Names
begin

text \<open>
  The crate \<open>dhttp-access\<close>, file \<open>access/src/pattern/reachability.rs\<close>: the eight byte-level
  automata of the inputs that patterns are matched against (the implementations of
  \<open>PatternInputLanguage\<close>), and the breadth-first search over the product of such an automaton
  with the DFA of a pattern's regular expression.  The DFA comes from \<open>regex_automata\<close> and is a
  parameter: a record of the functions the search calls.
\<close>

section \<open>Automaton states and the trait\<close>

datatype domain_state = DomainState (st_kind: "16 word") (st_len: "16 word") (st_flags: "16 word")

instantiation domain_state :: finite
begin

instance
proof
  have "(UNIV :: domain_state set) \<subseteq> (\<lambda>(k, l, f). DomainState k l f) ` UNIV"
    by (auto simp: image_iff) (metis domain_state.exhaust)
  then show "finite (UNIV :: domain_state set)"
    by (rule finite_subset) simp
qed

end

record language =
  label :: string
  start :: domain_state
  step :: "domain_state \<Rightarrow> char \<Rightarrow> domain_state option"
  is_accept :: "domain_state \<Rightarrow> bool"
  alphabet :: "char list"

fun lang_run :: "language \<Rightarrow> domain_state \<Rightarrow> string \<Rightarrow> domain_state option" where
  "lang_run L d [] = Some d"
| "lang_run L d (b # w) =
     (case step L d b of None \<Rightarrow> None | Some d' \<Rightarrow> lang_run L d' w)"

definition accepts :: "language \<Rightarrow> string \<Rightarrow> bool" where
  "accepts L w =
     (case lang_run L (start L) w of None \<Rightarrow> False | Some d \<Rightarrow> is_accept L d)"

definition checked_add16 :: "16 word \<Rightarrow> 16 word \<Rightarrow> 16 word option" where
  "checked_add16 a b = (if unat a + unat b < 65536 then Some (a + b) else None)"

section \<open>Byte classes\<close>

definition TCHARS :: string where
  "TCHARS = ''!#$%&'' @ [CHR 0x27] @ ''*+-.^_'' @ [CHR 0x60]
     @ ''|~0123456789abcdefghijklmnopqrstuvwxyzABCDEFGHIJKLMNOPQRSTUVWXYZ''"

definition LETTERS :: string where
  "LETTERS = ''ABCDEFGHIJKLMNOPQRSTUVWXYZabcdefghijklmnopqrstuvwxyz0123456789''"

definition URI_PATH_ALPHABET :: string where
  "URI_PATH_ALPHABET = LETTERS @ ''-._~!$&'' @ [CHR 0x27] @ ''()*+,;=:@%/''"

definition URI_QUERY_KEY_ALPHABET :: string where
  "URI_QUERY_KEY_ALPHABET = LETTERS @ ''-._~!$'' @ [CHR 0x27] @ ''()*+,;:@%/?''"

definition URI_QUERY_VALUE_ALPHABET :: string where
  "URI_QUERY_VALUE_ALPHABET = LETTERS @ ''-._~!$'' @ [CHR 0x27] @ ''()*+,;=:@%/?''"

definition HOST_CHARS :: string where
  "HOST_CHARS = ''abcdefghijklmnopqrstuvwxyzABCDEFGHIJKLMNOPQRSTUVWXYZ0123456789-.''"

definition FIELD_VALUE_CHARS :: string where
  "FIELD_VALUE_CHARS = [CHR 0x09] @ '' '' @ LETTERS @ [CHR 0x21, CHR 0x22] @ ''#$%&'' @ [CHR 0x27]
     @ ''()*+,-./:;<=>?@['' @ [CHR 0x5C] @ '']^_'' @ [CHR 0x60] @ ''{|}~''"

definition is_host_alphanumeric :: "char \<Rightarrow> bool" where
  "is_host_alphanumeric b \<longleftrightarrow> is_ascii_alphanumeric b"

definition is_uri_unreserved :: "char \<Rightarrow> bool" where
  "is_uri_unreserved b \<longleftrightarrow> is_ascii_alphanumeric b \<or> b \<in> set ''-._~''"

definition is_uri_sub_delim :: "char \<Rightarrow> bool" where
  "is_uri_sub_delim b \<longleftrightarrow> b \<in> set (''!$&'' @ [CHR 0x27] @ ''()*+,;='')"

definition is_uri_pchar_plain :: "char \<Rightarrow> bool" where
  "is_uri_pchar_plain b \<longleftrightarrow> is_uri_unreserved b \<or> is_uri_sub_delim b \<or> b \<in> set '':@''"

definition is_uri_path_plain_char :: "char \<Rightarrow> bool" where
  "is_uri_path_plain_char b \<longleftrightarrow> is_uri_pchar_plain b \<or> b = CHR ''/''"

definition is_uri_query_plain_char :: "char \<Rightarrow> bool" where
  "is_uri_query_plain_char b \<longleftrightarrow> is_uri_pchar_plain b \<or> b \<in> set ''/?''"

definition is_uri_query_key_plain_char :: "char \<Rightarrow> bool" where
  "is_uri_query_key_plain_char b \<longleftrightarrow> is_uri_query_plain_char b \<and> b \<notin> set ''&=''"

definition is_uri_query_value_plain_char :: "char \<Rightarrow> bool" where
  "is_uri_query_value_plain_char b \<longleftrightarrow> is_uri_query_plain_char b \<and> b \<noteq> CHR ''&''"

section \<open>The eight languages\<close>

definition host_step :: "domain_state \<Rightarrow> char \<Rightarrow> domain_state option" where
  "host_step s b =
     (case checked_add16 (st_flags s) 1 of
        None \<Rightarrow> None
      | Some n \<Rightarrow>
          if n > 253 then None
          else if st_kind s = 0 \<and> is_host_alphanumeric b then Some (DomainState 1 1 n)
          else if (st_kind s = 1 \<or> st_kind s = 2) \<and> is_host_alphanumeric b then
            (case checked_add16 (st_len s) 1 of
               None \<Rightarrow> None
             | Some label_len \<Rightarrow>
                 if label_len \<le> 63 then Some (DomainState 1 label_len n) else None)
          else if (st_kind s = 1 \<or> st_kind s = 2) \<and> b = CHR ''-'' then
            (case checked_add16 (st_len s) 1 of
               None \<Rightarrow> None
             | Some label_len \<Rightarrow>
                 if label_len \<le> 63 then Some (DomainState 2 label_len n) else None)
          else if st_kind s = 1 \<and> b = CHR ''.'' then Some (DomainState 0 0 n)
          else None)"

definition client_name_language :: language where
  "client_name_language =
     \<lparr>label = ''client name'', start = DomainState 0 0 0, step = host_step,
      is_accept = (\<lambda>s. st_kind s = 1), alphabet = HOST_CHARS\<rparr>"

definition domain_name_language :: language where
  "domain_name_language = client_name_language\<lparr>label := ''domain''\<rparr>"

definition token_step :: "domain_state \<Rightarrow> char \<Rightarrow> domain_state option" where
  "token_step s b = (if b \<in> set TCHARS then Some (DomainState 0 1 0) else None)"

definition http_method_language :: language where
  "http_method_language =
     \<lparr>label = ''HTTP method'', start = DomainState 0 0 0, step = token_step,
      is_accept = (\<lambda>s. st_len s = 1), alphabet = TCHARS\<rparr>"

definition header_name_language :: language where
  "header_name_language =
     \<lparr>label = ''header name'', start = DomainState 0 0 0, step = token_step,
      is_accept = (\<lambda>s. st_len s = 1), alphabet = TCHARS\<rparr>"

definition header_value_language :: language where
  "header_value_language =
     \<lparr>label = ''header value'', start = DomainState 0 0 0,
      step = (\<lambda>s b. if b \<in> set FIELD_VALUE_CHARS then Some (DomainState 0 0 0) else None),
      is_accept = (\<lambda>s. True), alphabet = FIELD_VALUE_CHARS\<rparr>"

definition path_step :: "domain_state \<Rightarrow> char \<Rightarrow> domain_state option" where
  "path_step s b =
     (if st_kind s = 0 \<and> b = CHR ''/'' then Some (DomainState 1 0 0)
      else if st_kind s = 1 \<and> b = CHR ''%'' then Some (DomainState 2 0 0)
      else if st_kind s = 1 \<and> is_uri_path_plain_char b then Some (DomainState 1 0 0)
      else if st_kind s = 2 \<and> is_ascii_hexdigit b then Some (DomainState 3 0 0)
      else if st_kind s = 3 \<and> is_ascii_hexdigit b then Some (DomainState 1 0 0)
      else None)"

definition location_path_language :: language where
  "location_path_language =
     \<lparr>label = ''location path'', start = DomainState 0 0 0, step = path_step,
      is_accept = (\<lambda>s. st_kind s = 1), alphabet = URI_PATH_ALPHABET\<rparr>"

definition query_key_step :: "domain_state \<Rightarrow> char \<Rightarrow> domain_state option" where
  "query_key_step s b =
     (if st_kind s = 0 \<and> b = CHR ''%'' then Some (DomainState 1 0 0)
      else if st_kind s = 0 \<and> is_uri_query_key_plain_char b then Some (DomainState 0 0 0)
      else if st_kind s = 1 \<and> is_ascii_hexdigit b then Some (DomainState 2 0 0)
      else if st_kind s = 2 \<and> is_ascii_hexdigit b then Some (DomainState 0 0 0)
      else None)"

definition query_key_language :: language where
  "query_key_language =
     \<lparr>label = ''query key'', start = DomainState 0 0 0, step = query_key_step,
      is_accept = (\<lambda>s. st_kind s = 0), alphabet = URI_QUERY_KEY_ALPHABET\<rparr>"

definition query_value_step :: "domain_state \<Rightarrow> char \<Rightarrow> domain_state option" where
  "query_value_step s b =
     (if st_kind s = 0 \<and> b = CHR ''%'' then Some (DomainState 1 0 0)
      else if st_kind s = 0 \<and> is_uri_query_value_plain_char b then Some (DomainState 0 0 0)
      else if st_kind s = 1 \<and> is_ascii_hexdigit b then Some (DomainState 2 0 0)
      else if st_kind s = 2 \<and> is_ascii_hexdigit b then Some (DomainState 0 0 0)
      else None)"

definition query_value_language :: language where
  "query_value_language =
     \<lparr>label = ''query value'', start = DomainState 0 0 0, step = query_value_step,
      is_accept = (\<lambda>s. st_kind s = 0), alphabet = URI_QUERY_VALUE_ALPHABET\<rparr>"

definition languages :: "language list" where
  "languages =
     [client_name_language, domain_name_language, location_path_language, http_method_language,
      header_name_language, header_value_language, query_key_language, query_value_language]"

section \<open>The search\<close>

record 'q dfa =
  start_state :: "'q option"
  next_state :: "'q \<Rightarrow> char \<Rightarrow> 'q"
  next_eoi_state :: "'q \<Rightarrow> 'q"
  is_match_state :: "'q \<Rightarrow> bool"
  is_dead_state :: "'q \<Rightarrow> bool"

type_synonym 'q config = "'q \<times> domain_state \<times> bool"

definition successors :: "language \<Rightarrow> 'q dfa \<Rightarrow> 'q \<Rightarrow> domain_state \<Rightarrow> bool \<Rightarrow> 'q config list" where
  "successors L D r d matched =
     List.map_filter
       (\<lambda>b. case step L d b of
              None \<Rightarrow> None
            | Some d' \<Rightarrow> let r' = next_state D r b in Some (r', d', matched \<or> is_match_state D r'))
       (alphabet L)"

definition hit :: "language \<Rightarrow> 'q dfa \<Rightarrow> 'q config \<Rightarrow> bool" where
  "hit L D c = (case c of (r, d, matched) \<Rightarrow>
     is_accept L d
     \<and> (matched \<or> is_match_state D r \<or> is_match_state D (next_eoi_state D r)))"

function search :: "language \<Rightarrow> 'q :: finite dfa \<Rightarrow> 'q config set \<Rightarrow> 'q config list \<Rightarrow> bool" where
  "search L D seen [] = False"
| "search L D seen ((r, d, m) # queue) =
     (if (r, d, m) \<in> seen then search L D seen queue
      else let matched = m \<or> is_match_state D r in
        if is_accept L d \<and> (matched \<or> is_match_state D (next_eoi_state D r)) then True
        else if is_dead_state D r then search L D (insert (r, d, m) seen) queue
        else search L D (insert (r, d, m) seen) (queue @ successors L D r d matched))"
  by pat_completeness auto
termination
proof (relation "measures [\<lambda>(L, D, seen, queue). card (- seen), \<lambda>(L, D, seen, queue). length queue]")
  have smaller: "card (- insert c seen) < card (- seen)" if "c \<notin> seen" for c and seen :: "'a config set"
    using that by (intro psubset_card_mono) auto
  fix L :: language and D :: "'a dfa" and seen :: "'a config set" and r d m queue and x :: bool
  assume "(r, d, m) \<notin> seen"
  then show "((L, D, insert (r, d, m) seen, queue), L, D, seen, (r, d, m) # queue)
      \<in> measures [\<lambda>(L, D, seen, queue). card (- seen), \<lambda>(L, D, seen, queue). length queue]"
    and "((L, D, insert (r, d, m) seen, queue @ successors L D r d x), L, D, seen, (r, d, m) # queue)
      \<in> measures [\<lambda>(L, D, seen, queue). card (- seen), \<lambda>(L, D, seen, queue). length queue]"
    using smaller by auto
qed auto

definition intersects :: "language \<Rightarrow> 'q :: finite dfa \<Rightarrow> bool" where
  "intersects L D =
     (case start_state D of
        None \<Rightarrow> False
      | Some r \<Rightarrow> search L D {} [(r, start L, is_match_state D r)])"

datatype reachability_error = CompilePattern string | EmptyIntersection string string

text \<open>
  \<open>build\<close> is the DFA construction of \<open>regex_automata\<close> (\<open>None\<close>: the build error);
  \<open>pattern_text\<close> and \<open>regex\<close> are what the trait \<open>PatternLanguage\<close> reads of a pattern.
\<close>

definition validate_reachable ::
    "(string \<Rightarrow> 'q :: finite dfa option) \<Rightarrow> language \<Rightarrow> string \<Rightarrow> string \<Rightarrow> reachability_error + unit" where
  "validate_reachable build L pattern_text regex =
     (case build regex of
        None \<Rightarrow> Inl (CompilePattern pattern_text)
      | Some D \<Rightarrow>
          if intersects L D then Inr () else Inl (EmptyIntersection (label L) pattern_text))"

section \<open>The search decides reachability of a match\<close>

text \<open>
  The search semantics the product explores: reading \<open>w\<close> from a DFA state, some state on the way
  (or the end-of-input state) is a match state; and no state left by a byte is dead.
\<close>

fun matches_in :: "'q dfa \<Rightarrow> 'q \<Rightarrow> string \<Rightarrow> bool" where
  "matches_in D r [] \<longleftrightarrow> is_match_state D r \<or> is_match_state D (next_eoi_state D r)"
| "matches_in D r (b # w) \<longleftrightarrow> is_match_state D r \<or> matches_in D (next_state D r b) w"

fun alive :: "'q dfa \<Rightarrow> 'q \<Rightarrow> string \<Rightarrow> bool" where
  "alive D r [] \<longleftrightarrow> True"
| "alive D r (b # w) \<longleftrightarrow> \<not> is_dead_state D r \<and> alive D (next_state D r b) w"

inductive edge :: "language \<Rightarrow> 'q dfa \<Rightarrow> 'q config \<Rightarrow> 'q config \<Rightarrow> bool" for L D where
  edge: "\<not> is_dead_state D r \<Longrightarrow> c \<in> set (successors L D r d (m \<or> is_match_state D r))
    \<Longrightarrow> edge L D (r, d, m) c"

inductive_simps edge_simps: "edge L D (r, d, m) c"

lemma in_successors:
  "c \<in> set (successors L D r d m) \<longleftrightarrow>
     (\<exists>b \<in> set (alphabet L). \<exists>d'. step L d b = Some d'
        \<and> c = (next_state D r b, d', m \<or> is_match_state D (next_state D r b)))"
  by (cases c) (auto simp: successors_def List.map_filter_def Let_def image_iff split: option.splits)

declare search.simps [simp del]

lemma search_sound:
  "search L D seen Q \<Longrightarrow> \<exists>c0 \<in> set Q. \<exists>c. (edge L D)\<^sup>*\<^sup>* c0 c \<and> hit L D c"
proof (induction L D seen Q rule: search.induct)
  case (1 L D seen)
  then show ?case by (simp add: search.simps)
next
  case (2 L D seen r d m queue)
  let ?c = "(r, d, m)" and ?m = "m \<or> is_match_state D r"
  consider (seen) "?c \<in> seen" | (hit) "hit L D ?c"
    | (dead) "?c \<notin> seen" "\<not> hit L D ?c" "is_dead_state D r"
    | (live) "?c \<notin> seen" "\<not> hit L D ?c" "\<not> is_dead_state D r"
    by blast
  then show ?case
  proof cases
    case seen
    with 2 show ?thesis by (auto simp: search.simps)
  next
    case hit
    then show ?thesis by auto
  next
    case dead
    with 2 have "search L D (insert ?c seen) queue"
      by (auto simp: search.simps(2) hit_def Let_def)
    with dead 2(2) show ?thesis by (fastforce simp: hit_def)
  next
    case live
    with 2 have searched: "search L D (insert ?c seen) (queue @ successors L D r d ?m)"
      by (auto simp: search.simps(2) hit_def Let_def)
    have "\<not> (is_accept L d \<and> (?m \<or> is_match_state D (next_eoi_state D r)))"
      using live(2) by (simp add: hit_def)
    from 2(3) [OF live(1) refl this live(3) searched] obtain c0 c where
      c0: "c0 \<in> set queue \<union> set (successors L D r d ?m)"
      and c: "(edge L D)\<^sup>*\<^sup>* c0 c" "hit L D c"
      unfolding set_append by blast
    show ?thesis
    proof (cases "c0 \<in> set queue")
      case True
      with c show ?thesis by (meson list.set_intros(2))
    next
      case False
      with c0 live(3) have "edge L D ?c c0" by (auto intro: edge.intros)
      with c(1) have "(edge L D)\<^sup>*\<^sup>* ?c c" by (rule converse_rtranclp_into_rtranclp [rotated])
      with c(2) show ?thesis by (metis list.set_intros(1))
    qed
  qed
qed

definition closed :: "language \<Rightarrow> 'q dfa \<Rightarrow> 'q config set \<Rightarrow> 'q config set \<Rightarrow> bool" where
  "closed L D S T \<longleftrightarrow> (\<forall>c \<in> S. \<not> hit L D c \<and> (\<forall>c'. edge L D c c' \<longrightarrow> c' \<in> T))"

lemma search_complete:
  "\<not> search L D seen Q \<Longrightarrow> closed L D seen (seen \<union> set Q) \<Longrightarrow>
     \<exists>S. seen \<union> set Q \<subseteq> S \<and> closed L D S S"
proof (induction L D seen Q rule: search.induct)
  case (1 L D seen)
  then show ?case by auto
next
  case (2 L D seen r d m queue)
  let ?c = "(r, d, m)" and ?m = "m \<or> is_match_state D r"
  show ?case
  proof (cases "?c \<in> seen")
    case True
    with 2 show ?thesis by (auto simp: search.simps insert_absorb)
  next
    case False
    with 2(4) have not_hit: "\<not> hit L D ?c"
      by (auto simp: search.simps(2) hit_def Let_def split: if_splits)
    show ?thesis
    proof (cases "is_dead_state D r")
      case True
      with False not_hit 2(4) have "\<not> search L D (insert ?c seen) queue"
        by (auto simp: search.simps(2) hit_def Let_def)
      moreover have "closed L D (insert ?c seen) (insert ?c seen \<union> set queue)"
        using 2(5) not_hit True by (auto simp: closed_def edge_simps)
      ultimately show ?thesis using 2(2) [OF False refl] not_hit True
        by (auto simp: hit_def)
    next
      case live: False
      let ?queue = "queue @ successors L D r d ?m"
      from False live not_hit 2(4) have "\<not> search L D (insert ?c seen) ?queue"
        by (auto simp: search.simps(2) hit_def Let_def)
      moreover have "closed L D (insert ?c seen) (insert ?c seen \<union> set ?queue)"
        using 2(5) not_hit live by (auto simp: closed_def edge_simps)
      ultimately show ?thesis using 2(3) [OF False refl] not_hit live
        by (auto simp: hit_def)
    qed
  qed
qed

lemma search_iff:
  "search L D {} Q \<longleftrightarrow> (\<exists>c0 \<in> set Q. \<exists>c. (edge L D)\<^sup>*\<^sup>* c0 c \<and> hit L D c)"
proof
  show "\<exists>c0 \<in> set Q. \<exists>c. (edge L D)\<^sup>*\<^sup>* c0 c \<and> hit L D c" if "search L D {} Q"
    using that by (rule search_sound)
  assume path: "\<exists>c0 \<in> set Q. \<exists>c. (edge L D)\<^sup>*\<^sup>* c0 c \<and> hit L D c"
  show "search L D {} Q"
  proof (rule ccontr)
    assume "\<not> search L D {} Q"
    then obtain S where S: "set Q \<subseteq> S" "closed L D S S"
      using search_complete [of L D "{}" Q] by (auto simp: closed_def)
    have "c \<in> S" if "(edge L D)\<^sup>*\<^sup>* c0 c" "c0 \<in> S" for c0 c
      using that S(2) by (induction rule: rtranclp_induct) (auto simp: closed_def)
    with S path show False by (auto simp: closed_def)
  qed
qed

lemma edge_path_word:
  "(edge L D)\<^sup>*\<^sup>* (r, d, m) c \<Longrightarrow> hit L D c \<Longrightarrow>
     \<exists>w d'. lang_run L d w = Some d' \<and> is_accept L d' \<and> (m \<or> matches_in D r w) \<and> alive D r w"
proof (induction "(r, d, m)" arbitrary: r d m rule: converse_rtranclp_induct)
  case base
  then have "lang_run L d [] = Some d \<and> is_accept L d \<and> (m \<or> matches_in D r []) \<and> alive D r []"
    by (auto simp: hit_def)
  then show ?case by blast
next
  case (step c1)
  then obtain b d1 where b: "step L d b = Some d1" "\<not> is_dead_state D r"
    and c1: "c1 = (next_state D r b, d1,
        (m \<or> is_match_state D r) \<or> is_match_state D (next_state D r b))"
    by (auto simp: edge_simps in_successors)
  from step.hyps(3) [OF c1 step.prems] obtain w d' where
    w: "lang_run L d1 w = Some d'" "is_accept L d'" "alive D (next_state D r b) w"
      "(m \<or> is_match_state D r) \<or> is_match_state D (next_state D r b)
        \<or> matches_in D (next_state D r b) w"
    by blast
  moreover have "is_match_state D (next_state D r b) \<Longrightarrow> matches_in D (next_state D r b) w"
    by (cases w) auto
  ultimately have "lang_run L d (b # w) = Some d' \<and> is_accept L d'
      \<and> (m \<or> matches_in D r (b # w)) \<and> alive D r (b # w)"
    using b by auto
  then show ?case by blast
qed

lemma word_edge_path:
  "lang_run L d w = Some d' \<Longrightarrow> set w \<subseteq> set (alphabet L) \<Longrightarrow> is_accept L d' \<Longrightarrow>
     m \<or> matches_in D r w \<Longrightarrow> alive D r w \<Longrightarrow> \<exists>c. (edge L D)\<^sup>*\<^sup>* (r, d, m) c \<and> hit L D c"
proof (induction w arbitrary: r d m)
  case Nil
  then have "hit L D (r, d, m)" by (auto simp: hit_def)
  then show ?case by blast
next
  case (Cons b w)
  then obtain d1 where d1: "step L d b = Some d1" "lang_run L d1 w = Some d'"
    by (auto split: option.splits)
  let ?m = "(m \<or> is_match_state D r) \<or> is_match_state D (next_state D r b)"
  have "?m \<or> matches_in D (next_state D r b) w" and "alive D (next_state D r b) w"
    and "set w \<subseteq> set (alphabet L)"
    using Cons.prems by auto
  from Cons.IH [OF d1(2) this(3) Cons.prems(3) this(1,2)] obtain c where
    "(edge L D)\<^sup>*\<^sup>* (next_state D r b, d1, ?m) c" "hit L D c" by blast
  moreover have "edge L D (r, d, m) (next_state D r b, d1, ?m)"
    using Cons.prems d1 by (auto simp: edge_simps in_successors)
  ultimately show ?case by (blast intro: converse_rtranclp_into_rtranclp)
qed

text \<open>
  The contract of \<open>PatternInputLanguage\<close> the search relies on: \<open>alphabet()\<close> lists every byte
  that \<open>step\<close> accepts in some state.  Without it the search could miss inputs.
\<close>

locale input_language =
  fixes L :: language
  assumes step_in_alphabet: "step L d b = Some d' \<Longrightarrow> b \<in> set (alphabet L)"
begin

lemma run_in_alphabet: "lang_run L d w = Some d' \<Longrightarrow> set w \<subseteq> set (alphabet L)"
  by (induction w arbitrary: d) (auto split: option.splits dest: step_in_alphabet)

lemma intersects_iff:
  "intersects L D \<longleftrightarrow>
     (\<exists>r w. start_state D = Some r \<and> accepts L w \<and> matches_in D r w \<and> alive D r w)"
proof (cases "start_state D")
  case None
  then show ?thesis by (simp add: intersects_def)
next
  case (Some r)
  have start_match: "is_match_state D r \<Longrightarrow> matches_in D r w" for w
    by (cases w) auto
  have "intersects L D \<longleftrightarrow>
      (\<exists>c. (edge L D)\<^sup>*\<^sup>* (r, start L, is_match_state D r) c \<and> hit L D c)"
    using Some by (simp add: intersects_def search_iff)
  also have "\<dots> \<longleftrightarrow> (\<exists>w. accepts L w \<and> matches_in D r w \<and> alive D r w)"
  proof (intro iffI)
    assume "\<exists>c. (edge L D)\<^sup>*\<^sup>* (r, start L, is_match_state D r) c \<and> hit L D c"
    then obtain w d where "lang_run L (start L) w = Some d" "is_accept L d" "alive D r w"
      "is_match_state D r \<or> matches_in D r w"
      by (blast dest: edge_path_word)
    then show "\<exists>w. accepts L w \<and> matches_in D r w \<and> alive D r w"
      using start_match by (intro exI [of _ w]) (auto simp: accepts_def)
  next
    assume "\<exists>w. accepts L w \<and> matches_in D r w \<and> alive D r w"
    then obtain w d where w: "lang_run L (start L) w = Some d" "is_accept L d"
      "matches_in D r w" "alive D r w"
      by (auto simp: accepts_def split: option.splits)
    then show "\<exists>c. (edge L D)\<^sup>*\<^sup>* (r, start L, is_match_state D r) c \<and> hit L D c"
      using word_edge_path [OF w(1) run_in_alphabet [OF w(1)] w(2) _ w(4)] by blast
  qed
  finally show ?thesis using Some by simp
qed

end

section \<open>The alphabets cover the steps\<close>

lemma code_range: "m \<le> code b \<Longrightarrow> code b < n \<Longrightarrow> b \<in> set (map char_of [m..<n])"
proof -
  assume "m \<le> code b" "code b < n"
  moreover have "b = char_of (code b)" by (simp add: code_def)
  ultimately show ?thesis by (metis atLeastLessThan_iff image_eqI set_map set_upt)
qed

lemma range_strings:
  "map char_of [48..<58::nat] = ''0123456789''"
  "map char_of [65..<91::nat] = ''ABCDEFGHIJKLMNOPQRSTUVWXYZ''"
  "map char_of [97..<123::nat] = ''abcdefghijklmnopqrstuvwxyz''"
  by code_simp+

lemma LETTERS_ranges:
  "LETTERS = map char_of [65..<91::nat] @ map char_of [97..<123::nat] @ map char_of [48..<58::nat]"
  unfolding range_strings LETTERS_def by simp

lemma HOST_CHARS_ranges:
  "HOST_CHARS = map char_of [97..<123::nat] @ map char_of [65..<91::nat]
     @ map char_of [48..<58::nat] @ ''-.''"
  unfolding range_strings HOST_CHARS_def by simp

lemma alphanumeric_LETTERS:
  assumes "is_ascii_alphanumeric b"
  shows "b \<in> set LETTERS"
proof -
  consider "48 \<le> code b" "code b < 58" | "97 \<le> code b" "code b < 123"
    | "65 \<le> code b" "code b < 91"
    using assms unfolding is_ascii_alphanumeric_def is_ascii_digit_def is_ascii_lowercase_def
      is_ascii_uppercase_def by linarith
  then show ?thesis
    unfolding LETTERS_ranges set_append by cases (blast dest: code_range)+
qed

lemma hexdigit_alphanumeric: "is_ascii_hexdigit b \<Longrightarrow> is_ascii_alphanumeric b"
  by (auto simp: is_ascii_hexdigit_def is_ascii_alphanumeric_def is_ascii_lowercase_def is_ascii_uppercase_def)

lemma LETTERS_HOST: "set LETTERS \<subseteq> set HOST_CHARS"
  unfolding LETTERS_ranges HOST_CHARS_ranges set_append by blast

lemma host_step_alphabet: "host_step s b = Some d \<Longrightarrow> b \<in> set HOST_CHARS"
proof -
  assume "host_step s b = Some d"
  then have "is_ascii_alphanumeric b \<or> b = CHR ''-'' \<or> b = CHR ''.''"
    by (auto simp: host_step_def is_host_alphanumeric_def split: option.splits if_splits)
  then show ?thesis
    using alphanumeric_LETTERS LETTERS_HOST by (elim disjE) (auto simp: HOST_CHARS_ranges)
qed

lemma uri_plain_alphabets:
  "is_uri_path_plain_char b \<Longrightarrow> b \<in> set URI_PATH_ALPHABET"
  "is_uri_query_key_plain_char b \<Longrightarrow> b \<in> set URI_QUERY_KEY_ALPHABET"
  "is_uri_query_value_plain_char b \<Longrightarrow> b \<in> set URI_QUERY_VALUE_ALPHABET"
  by (auto simp: is_uri_path_plain_char_def is_uri_query_key_plain_char_def
      is_uri_query_value_plain_char_def is_uri_query_plain_char_def is_uri_pchar_plain_def
      is_uri_unreserved_def is_uri_sub_delim_def URI_PATH_ALPHABET_def URI_QUERY_KEY_ALPHABET_def
      URI_QUERY_VALUE_ALPHABET_def dest: alphanumeric_LETTERS)

lemma hexdigit_alphabets:
  "is_ascii_hexdigit b \<Longrightarrow> b \<in> set URI_PATH_ALPHABET"
  "is_ascii_hexdigit b \<Longrightarrow> b \<in> set URI_QUERY_KEY_ALPHABET"
  "is_ascii_hexdigit b \<Longrightarrow> b \<in> set URI_QUERY_VALUE_ALPHABET"
  by (auto simp: URI_PATH_ALPHABET_def URI_QUERY_KEY_ALPHABET_def
      URI_QUERY_VALUE_ALPHABET_def dest: hexdigit_alphanumeric alphanumeric_LETTERS)

lemma percent_alphabets:
  "CHR ''%'' \<in> set URI_PATH_ALPHABET" "CHR ''/'' \<in> set URI_PATH_ALPHABET"
  "CHR ''%'' \<in> set URI_QUERY_KEY_ALPHABET" "CHR ''%'' \<in> set URI_QUERY_VALUE_ALPHABET"
  by (simp_all add: URI_PATH_ALPHABET_def URI_QUERY_KEY_ALPHABET_def URI_QUERY_VALUE_ALPHABET_def)

lemma uri_steps_alphabet:
  "path_step s b = Some d \<Longrightarrow> b \<in> set URI_PATH_ALPHABET"
  "query_key_step s b = Some d \<Longrightarrow> b \<in> set URI_QUERY_KEY_ALPHABET"
  "query_value_step s b = Some d \<Longrightarrow> b \<in> set URI_QUERY_VALUE_ALPHABET"
  unfolding path_step_def query_key_step_def query_value_step_def
  by (auto split: if_splits simp: percent_alphabets intro: uri_plain_alphabets hexdigit_alphabets)

section \<open>The eight languages meet the contract\<close>

interpretation client_name_input: input_language client_name_language
  by unfold_locales (simp add: client_name_language_def host_step_alphabet)
interpretation domain_input: input_language domain_name_language
  by unfold_locales (simp add: domain_name_language_def client_name_language_def host_step_alphabet)
interpretation method_input: input_language http_method_language
  by unfold_locales (simp add: http_method_language_def token_step_def split: if_splits)
interpretation header_name_input: input_language header_name_language
  by unfold_locales (simp add: header_name_language_def token_step_def split: if_splits)
interpretation header_value_input: input_language header_value_language
  by unfold_locales (simp add: header_value_language_def split: if_splits)
interpretation path_input: input_language location_path_language
  by unfold_locales (simp add: location_path_language_def uri_steps_alphabet)
interpretation query_key_input: input_language query_key_language
  by unfold_locales (simp add: query_key_language_def uri_steps_alphabet)
interpretation query_value_input: input_language query_value_language
  by unfold_locales (simp add: query_value_language_def uri_steps_alphabet)

section \<open>The languages as grammars\<close>

definition host_byte :: "char \<Rightarrow> bool" where
  "host_byte c \<longleftrightarrow> is_ascii_alphanumeric c \<or> c = CHR ''-''"

definition open_label :: "string \<Rightarrow> bool" where
  "open_label l \<longleftrightarrow> length l \<le> 63 \<and> (l = [] \<or> hd l \<noteq> CHR ''-'') \<and> list_all host_byte l"

definition host_label :: "string \<Rightarrow> bool" where
  "host_label l \<longleftrightarrow> open_label l \<and> l \<noteq> [] \<and> last l \<noteq> CHR ''-''"

definition host_prefix :: "string \<Rightarrow> bool" where
  "host_prefix s \<longleftrightarrow> length s \<le> 253 \<and> list_all host_label (butlast (split_on CHR ''.'' s))
     \<and> open_label (last (split_on CHR ''.'' s))"

definition host_state :: "string \<Rightarrow> domain_state" where
  "host_state s = (let l = last (split_on CHR ''.'' s) in
     DomainState (if l = [] then 0 else if last l = CHR ''-'' then 2 else 1)
       (of_nat (length l)) (of_nat (length s)))"

lemma split_on_snoc:
  "split_on d (s @ [c]) = (if c = d then split_on d s @ [[]]
     else butlast (split_on d s) @ [last (split_on d s) @ [c]])"
  by (induction s) (auto split: list.splits)

lemma lang_run_snoc:
  "lang_run L q (s @ [c]) = (case lang_run L q s of None \<Rightarrow> None | Some q' \<Rightarrow> step L q' c)"
  by (induction s arbitrary: q) (auto split: option.splits)

lemma unat16: "n < 1000 \<Longrightarrow> unat (of_nat n :: 16 word) = n"
  by (simp add: unat_of_nat take_bit_nat_eq_self)

lemma checked_add16_small:
  "n < 1000 \<Longrightarrow> checked_add16 (of_nat n) 1 = Some (of_nat (Suc n))"
  by (simp add: checked_add16_def unat16)

lemma of_nat16_less:
  "n < 1000 \<Longrightarrow> ((253 :: 16 word) < of_nat n) = (253 < n)"
  "n < 1000 \<Longrightarrow> ((of_nat n :: 16 word) \<le> 63) = (n \<le> 63)"
  by (simp_all add: word_less_nat_alt word_le_nat_alt unat16 del: unat_of_nat)

lemma host_prefix_snoc:
  "host_prefix (s @ [c]) \<longleftrightarrow> host_prefix s \<and> length s < 253 \<and>
     (let l = last (split_on CHR ''.'' s) in
      if c = CHR ''.'' then l \<noteq> [] \<and> last l \<noteq> CHR ''-''
      else length l < 63 \<and> host_byte c \<and> (l = [] \<longrightarrow> c \<noteq> CHR ''-''))"
proof (cases "c = CHR ''.''")
  case True
  have "list_all host_label (split_on CHR ''.'' s) \<longleftrightarrow>
      list_all host_label (butlast (split_on CHR ''.'' s)) \<and> host_label (last (split_on CHR ''.'' s))"
    by (subst append_butlast_last_id [OF split_on_not_Nil, symmetric]) (simp only: list_all_append list.pred_inject simp_thms)
  with True show ?thesis
    by (auto simp: host_prefix_def split_on_snoc host_label_def open_label_def [of "[]"] Let_def)
next
  case False
  then show ?thesis
    by (auto simp: host_prefix_def split_on_snoc open_label_def Let_def hd_append)
qed

lemma host_step_state:
  assumes "host_prefix s"
  shows "host_step (host_state s) c
     = (if host_prefix (s @ [c]) then Some (host_state (s @ [c])) else None)"
proof -
  let ?l = "last (split_on CHR ''.'' s)"
  have len: "length s < 1000" "Suc (length s) < 1000" "length ?l < 1000" "Suc (length ?l) < 1000"
    using assms by (auto simp: host_prefix_def open_label_def)
  have not_alnum: "\<not> is_ascii_alphanumeric (CHR ''.'')" "\<not> is_ascii_alphanumeric (CHR ''-'')"
    by code_simp+
  have adds: "checked_add16 (of_nat (length s)) 1 = Some (of_nat (Suc (length s)))"
    "checked_add16 (of_nat (length ?l)) 1 = Some (of_nat (Suc (length ?l)))"
    using len by (simp_all only: checked_add16_small)
  have cmps: "(253 :: 16 word) < of_nat (Suc (length s)) \<longleftrightarrow> \<not> length s < 253"
    "(of_nat (Suc (length ?l)) :: 16 word) \<le> 63 \<longleftrightarrow> length ?l < 63"
    using len by (simp_all only: of_nat16_less) auto
  consider "c = CHR ''.''" | "c = CHR ''-''" | "is_ascii_alphanumeric c" "c \<noteq> CHR ''.''" "c \<noteq> CHR ''-''"
    | "\<not> host_byte c" "c \<noteq> CHR ''.''" by (auto simp: host_byte_def)
  then show ?thesis
  proof cases
    case 1
    with assms not_alnum show ?thesis
      by (simp add: host_prefix_snoc host_step_def host_state_def Let_def adds cmps
          is_host_alphanumeric_def split_on_snoc del: of_nat_Suc)
  next
    case 2
    with assms not_alnum show ?thesis
      by (simp add: host_prefix_snoc host_step_def host_state_def Let_def adds cmps host_byte_def
          is_host_alphanumeric_def split_on_snoc del: of_nat_Suc)
  next
    case 3
    with assms not_alnum show ?thesis
      by (simp add: host_prefix_snoc host_step_def host_state_def Let_def adds cmps host_byte_def
          is_host_alphanumeric_def split_on_snoc del: of_nat_Suc) simp
  next
    case 4
    with assms not_alnum show ?thesis
      by (simp add: host_prefix_snoc host_step_def host_state_def Let_def adds cmps host_byte_def
          is_host_alphanumeric_def split_on_snoc del: of_nat_Suc)
  qed
qed

lemma host_run:
  "lang_run client_name_language (DomainState 0 0 0) s
     = (if host_prefix s then Some (host_state s) else None)"
proof (induction s rule: rev_induct)
  case Nil
  show ?case by (simp add: host_prefix_def host_state_def open_label_def)
next
  case (snoc c s)
  have "step client_name_language = host_step" by (simp add: client_name_language_def)
  with snoc show ?case
    by (cases "host_prefix s") (simp_all add: lang_run_snoc host_step_state host_prefix_snoc)
qed

lemma host_label_valid: "host_label l \<longleftrightarrow> valid_label (to_ascii_lowercase l)"
proof -
  have "label_byte (lower c) \<longleftrightarrow> host_byte c" for c
    by (auto simp: label_byte_def host_byte_def is_ascii_alphanumeric_def lower_def code_char_of
      is_ascii_digit_def is_ascii_lowercase_def is_ascii_uppercase_def)
  then have "list_all label_byte (to_ascii_lowercase l) = list_all host_byte l"
    by (simp add: to_ascii_lowercase_def list_all_iff)
  moreover have "l \<noteq> [] \<Longrightarrow> starts_with ''-'' (to_ascii_lowercase l) \<longleftrightarrow> hd l = CHR ''-''"
    by (cases l) (auto simp: starts_with_def)
  moreover have "l \<noteq> [] \<Longrightarrow> ends_with ''-'' (to_ascii_lowercase l) \<longleftrightarrow> last l = CHR ''-''"
    by (cases l rule: rev_cases) (auto simp: ends_with_def)
  ultimately show ?thesis
    by (auto simp: host_label_def open_label_def valid_label_def Suc_le_eq)
qed

lemma split_on_lower:
  "split_on CHR ''.'' (to_ascii_lowercase s) = map to_ascii_lowercase (split_on CHR ''.'' s)"
  by (induction s) (auto split: list.splits)

lemma accepts_client_name:
  "accepts client_name_language s \<longleftrightarrow> host_prefix s \<and> st_kind (host_state s) = 1"
proof -
  have "start client_name_language = DomainState 0 0 0"
    "is_accept client_name_language d = (st_kind d = 1)" for d
    by (simp_all add: client_name_language_def)
  then show ?thesis by (simp add: accepts_def host_run)
qed

fun percent_encoded :: "(char \<Rightarrow> bool) \<Rightarrow> string \<Rightarrow> bool" where
  "percent_encoded P [] = True"
| "percent_encoded P (c # s) =
     (if c = CHR ''%'' then
        (case s of a # b # rest \<Rightarrow> is_ascii_hexdigit a \<and> is_ascii_hexdigit b \<and> percent_encoded P rest
                 | _ \<Rightarrow> False)
      else P c \<and> percent_encoded P s)"


lemma percent_encoded_path:
  "(\<exists>d. lang_run location_path_language (DomainState 1 0 0) s = Some d \<and> st_kind d = 1)
     \<longleftrightarrow> percent_encoded is_uri_path_plain_char s"
proof (induction is_uri_path_plain_char s rule: percent_encoded.induct)
  case (2 c s)
  show ?case
  proof (cases "c = CHR ''%''")
    case True
    with 2(1) show ?thesis
      by (cases s rule: list.exhaust; cases "tl s")
         (auto simp: location_path_language_def path_step_def split: list.splits)
  next
    case False
    with 2(2) show ?thesis
      by (auto simp: location_path_language_def path_step_def)
  qed
qed simp

lemma percent_encoded_query_key:
  "(\<exists>d. lang_run query_key_language (DomainState 0 0 0) s = Some d \<and> st_kind d = 0)
     \<longleftrightarrow> percent_encoded is_uri_query_key_plain_char s"
proof (induction is_uri_query_key_plain_char s rule: percent_encoded.induct)
  case (2 c s)
  show ?case
  proof (cases "c = CHR ''%''")
    case True
    with 2(1) show ?thesis
      by (cases s rule: list.exhaust; cases "tl s")
         (auto simp: query_key_language_def query_key_step_def split: list.splits)
  next
    case False
    with 2(2) show ?thesis
      by (auto simp: query_key_language_def query_key_step_def)
  qed
qed simp

lemma percent_encoded_query_value:
  "(\<exists>d. lang_run query_value_language (DomainState 0 0 0) s = Some d \<and> st_kind d = 0)
     \<longleftrightarrow> percent_encoded is_uri_query_value_plain_char s"
proof (induction is_uri_query_value_plain_char s rule: percent_encoded.induct)
  case (2 c s)
  show ?case
  proof (cases "c = CHR ''%''")
    case True
    with 2(1) show ?thesis
      by (cases s rule: list.exhaust; cases "tl s")
         (auto simp: query_value_language_def query_value_step_def split: list.splits)
  next
    case False
    with 2(2) show ?thesis
      by (auto simp: query_value_language_def query_value_step_def)
  qed
qed simp

lemma accepts_iff: "accepts L s \<longleftrightarrow> (\<exists>d. lang_run L (start L) s = Some d \<and> is_accept L d)"
  by (auto simp: accepts_def split: option.splits)

section \<open>Properties\<close>

text \<open>C14: for each of the eight input languages and every finite pattern DFA, the product search
  of \<open>intersects\<close> answers true exactly when some input of the language drives the DFA through a
  match state without leaving a dead state: the breadth-first search is sound, complete and, being
  a total function, terminating.\<close>
theorem intersects_exact:
  fixes D :: "'q :: finite dfa"
  assumes "L \<in> set languages"
  shows "intersects L D \<longleftrightarrow>
     (\<exists>r w. start_state D = Some r \<and> accepts L w \<and> matches_in D r w \<and> alive D r w)"
proof -
  have "L = client_name_language \<or> L = domain_name_language \<or> L = location_path_language
      \<or> L = http_method_language \<or> L = header_name_language \<or> L = header_value_language
      \<or> L = query_key_language \<or> L = query_value_language"
    using assms unfolding languages_def list.set by blast
  then show ?thesis
    by (elim disjE; simp only: client_name_input.intersects_iff domain_input.intersects_iff
        method_input.intersects_iff header_name_input.intersects_iff
        header_value_input.intersects_iff path_input.intersects_iff
        query_key_input.intersects_iff query_value_input.intersects_iff)
qed

theorem intersects_exact_witness:
  "intersects client_name_language
     \<lparr>start_state = Some False, next_state = (\<lambda>q b. q \<or> b = CHR ''a''), next_eoi_state = id,
      is_match_state = id, is_dead_state = (\<lambda>_. False)\<rparr>" (is "intersects ?L ?D")
proof -
  have "host_prefix ''b.a''" "st_kind (host_state ''b.a'') = 1" by code_simp+
  then have "accepts ?L ''b.a''" by (simp add: accepts_client_name)
  moreover have "matches_in ?D False ''b.a''" "alive ?D False ''b.a''" by simp_all
  moreover have "?L \<in> set languages" unfolding languages_def list.set by blast
  ultimately show ?thesis
    using intersects_exact [of ?L ?D] by (metis dfa.select_convs(1))
qed

text \<open>the client-name automaton, with its 16-bit counters, accepts exactly the inputs whose
  lower-case form consists of valid DNS labels, the test \<open>is_valid_dns_labels\<close> of the home crate.\<close>
theorem client_name_language_labels:
  "accepts client_name_language s \<longleftrightarrow> is_valid_dns_labels (to_ascii_lowercase s)"
proof -
  let ?ls = "split_on CHR ''.'' s"
  have "accepts client_name_language s \<longleftrightarrow> host_prefix s \<and> st_kind (host_state s) = 1"
    by (rule accepts_client_name)
  also have "\<dots> \<longleftrightarrow> length s \<le> 253 \<and> list_all host_label (butlast ?ls) \<and> host_label (last ?ls)"
    by (auto simp: host_prefix_def host_state_def Let_def host_label_def)
  also have "\<dots> \<longleftrightarrow> length s \<le> 253 \<and> list_all host_label (butlast ?ls @ [last ?ls])"
    by (simp only: list_all_append list.pred_inject simp_thms)
  also have "butlast ?ls @ [last ?ls] = ?ls" by simp
  finally show ?thesis
    by (simp add: is_valid_dns_labels_def split_on_lower list_all_iff host_label_valid)
qed

text \<open>the URI automata accept exactly their grammars: a location path is a slash followed by
  path characters and percent-encoded bytes, a query key or value a sequence of the characters
  allowed there (no bare ampersand; no bare equals sign in a key) and percent-encoded bytes.\<close>
theorem uri_languages_grammar:
  "(accepts location_path_language s
      \<longleftrightarrow> s \<noteq> [] \<and> hd s = CHR ''/'' \<and> percent_encoded is_uri_path_plain_char (tl s))
   \<and> (accepts query_key_language s \<longleftrightarrow> percent_encoded is_uri_query_key_plain_char s)
   \<and> (accepts query_value_language s \<longleftrightarrow> percent_encoded is_uri_query_value_plain_char s)"
proof (intro conjI)
  show "accepts query_key_language s \<longleftrightarrow> percent_encoded is_uri_query_key_plain_char s"
    unfolding percent_encoded_query_key [symmetric]
    by (simp add: accepts_iff) (simp add: query_key_language_def)
  show "accepts query_value_language s \<longleftrightarrow> percent_encoded is_uri_query_value_plain_char s"
    unfolding percent_encoded_query_value [symmetric]
    by (simp add: accepts_iff) (simp add: query_value_language_def)
  have "accepts location_path_language s \<longleftrightarrow>
      (\<exists>rest. s = CHR ''/'' # rest \<and> percent_encoded is_uri_path_plain_char rest)"
    unfolding percent_encoded_path [symmetric]
    by (cases s) (auto simp: accepts_iff location_path_language_def path_step_def)
  then show "accepts location_path_language s
      \<longleftrightarrow> s \<noteq> [] \<and> hd s = CHR ''/'' \<and> percent_encoded is_uri_path_plain_char (tl s)"
    by (cases s) auto
qed

end
