(* ===== verification/Patterns.thy ===== *)
theory Patterns
  imports Languages
begin

text \<open>
  The crate \<open>dhttp-access\<close>, files \<open>access/src/pattern.rs\<close> and \<open>access/src/pattern/parsing.rs\<close>: the
  kinds of patterns with their priorities, parsing of the four pattern types, canonical name
  patterns, matching, equality and order.  The crates \<open>regex\<close>, \<open>globset\<close> and \<open>regex_automata\<close> are
  the parameter \<open>engine\<close>.
\<close>

section \<open>Kinds\<close>

datatype normal_pattern_kind = NExact | NGlob | NRegex

fun normal_priority :: "normal_pattern_kind \<Rightarrow> nat" where
  "normal_priority NExact = 0"
| "normal_priority NGlob = 1"
| "normal_priority NRegex = 2"

datatype client_name_pattern_kind = ClientNamePatternKind normal_pattern_kind

fun client_name_priority :: "client_name_pattern_kind \<Rightarrow> nat" where
  "client_name_priority (ClientNamePatternKind k) = normal_priority k"

datatype domain_pattern_kind = DomainPatternKind normal_pattern_kind

fun domain_priority :: "domain_pattern_kind \<Rightarrow> nat" where
  "domain_priority (DomainPatternKind k) = normal_priority k"

datatype location_pattern_kind = LExact | LPrefix | LRegex | LNormalPrefix | LCommon

fun location_priority :: "location_pattern_kind \<Rightarrow> nat" where
  "location_priority LExact = 0"
| "location_priority LPrefix = 1"
| "location_priority LRegex = 2"
| "location_priority LNormalPrefix = 3"
| "location_priority LCommon = 4"

text \<open>The derived order of the kinds is that of their discriminants.\<close>

instantiation location_pattern_kind :: linorder
begin

definition less_eq_location_pattern_kind :: "location_pattern_kind \<Rightarrow> location_pattern_kind \<Rightarrow> bool" where
  "less_eq_location_pattern_kind a b \<longleftrightarrow> location_priority a \<le> location_priority b"

definition less_location_pattern_kind :: "location_pattern_kind \<Rightarrow> location_pattern_kind \<Rightarrow> bool" where
  "less_location_pattern_kind a b \<longleftrightarrow> location_priority a < location_priority b"

instance
proof
  fix a b :: location_pattern_kind
  show "a \<le> b \<Longrightarrow> b \<le> a \<Longrightarrow> a = b"
    by (cases a; cases b; simp add: less_eq_location_pattern_kind_def)
qed (auto simp: less_eq_location_pattern_kind_def less_location_pattern_kind_def)

end

section \<open>Patterns\<close>

record ('r, 'q) engine =
  regex_new :: "string \<Rightarrow> 'r option"
  regex_new_case_insensitive :: "string \<Rightarrow> 'r option"
  regex_escape :: "string \<Rightarrow> string"
  regex_str :: "'r \<Rightarrow> string"
  regex_is_match :: "'r \<Rightarrow> string \<Rightarrow> bool"
  regex_find :: "'r \<Rightarrow> string \<Rightarrow> (nat \<times> nat) option"
  glob_regex :: "bool \<Rightarrow> string \<Rightarrow> string option"
  dfa_build :: "string \<Rightarrow> 'q dfa option"

record ('k, 'r) pattern =
  p_kind :: 'k
  p_regex :: 'r
  p_text :: string

type_synonym 'r normal_pattern = "(normal_pattern_kind, 'r) pattern"
type_synonym 'r location_pattern = "(location_pattern_kind, 'r) pattern"
type_synonym 'r client_name_pattern = "(client_name_pattern_kind, 'r) pattern"
type_synonym 'r domain_pattern = "(domain_pattern_kind, 'r) pattern"

definition pattern_is_match :: "('r, 'q) engine \<Rightarrow> ('k, 'r) pattern \<Rightarrow> string \<Rightarrow> bool" where
  "pattern_is_match E p s = regex_is_match E (p_regex p) s"

definition pattern_match :: "('r, 'q) engine \<Rightarrow> ('k, 'r) pattern \<Rightarrow> string \<Rightarrow> string option" where
  "pattern_match E p s =
     map_option (\<lambda>(from, to). take (to - from) (drop from s)) (regex_find E (p_regex p) s)"

text \<open>Equality compares kind and text, not the compiled expression; so does the order.\<close>

definition pattern_eq :: "('k, 'r) pattern \<Rightarrow> ('k, 'r) pattern \<Rightarrow> bool" where
  "pattern_eq p q \<longleftrightarrow> p_kind p = p_kind q \<and> p_text p = p_text q"

datatype ordering = Less | Equal | Greater

definition cmp :: "'a :: linorder \<Rightarrow> 'a \<Rightarrow> ordering" where
  "cmp a b = (if a < b then Less else if a = b then Equal else Greater)"

definition then_with :: "ordering \<Rightarrow> ordering \<Rightarrow> ordering" where
  "then_with o1 o2 = (if o1 = Equal then o2 else o1)"

definition pattern_cmp ::
    "('k :: linorder, 'r) pattern \<Rightarrow> ('k, 'r) pattern \<Rightarrow> ordering" where
  "pattern_cmp p q = then_with (cmp (p_kind p) (p_kind q)) (cmp (p_text p) (p_text q))"

section \<open>Parsing\<close>

datatype parse_pattern_error = InvalidRegex string | InvalidGlob
  | Unreachable reachability_error

definition glob_to_regex :: "('r, 'q) engine \<Rightarrow> string \<Rightarrow> 'r option" where
  "glob_to_regex E re =
     regex_new E (case strip_prefix ''(?-u)'' re of Some rest \<Rightarrow> rest | None \<Rightarrow> re)"

definition normal_pattern_from_str ::
    "('r, 'q) engine \<Rightarrow> string \<Rightarrow> parse_pattern_error + 'r normal_pattern" where
  "normal_pattern_from_str E pattern =
     (let build = (\<lambda>kind regex. \<lparr>p_kind = kind, p_regex = regex, p_text = pattern\<rparr>);
          glob = (\<lambda>insensitive text.
            and_then (ok_or InvalidGlob (glob_regex E insensitive text)) (\<lambda>re.
              map_sum id (build NGlob) (ok_or (InvalidRegex text) (glob_to_regex E re))))
      in case split_once CHR '' '' pattern of
           Some (symbol, pat) \<Rightarrow>
             if symbol = ''='' then
               map_sum id (build NExact)
                 (ok_or (InvalidRegex pat) (regex_new E (''^'' @ regex_escape E pat @ ''$'')))
             else if symbol = ''*'' then glob True pat
             else if symbol = ''~'' then
               map_sum id (build NRegex) (ok_or (InvalidRegex pat) (regex_new E pat))
             else if symbol = ''~*'' then
               map_sum id (build NRegex)
                 (ok_or (InvalidRegex pat) (regex_new_case_insensitive E pat))
             else glob False pattern
         | None \<Rightarrow> glob False pattern)"

datatype parse_location_pattern_error = UnknownSymbol string | LInvalidRegex string
  | UndefinedPrefixOrCommon | LUnreachable reachability_error

definition location_pattern_from_str ::
    "('r, 'q :: finite) engine \<Rightarrow> string \<Rightarrow> parse_location_pattern_error + 'r location_pattern" where
  "location_pattern_from_str E pattern =
     and_then
       (case split_once CHR '' '' pattern of
          None \<Rightarrow>
            if pattern = ''/'' then
              map_sum id (Pair LCommon) (ok_or (LInvalidRegex pattern) (regex_new E ''^/''))
            else if starts_with ''/'' pattern then
              map_sum id (Pair LNormalPrefix)
                (ok_or (LInvalidRegex pattern) (regex_new E (''^'' @ regex_escape E pattern)))
            else Inl UndefinedPrefixOrCommon
        | Some (symbol, pat) \<Rightarrow>
            if symbol = ''='' then
              map_sum id (Pair LExact)
                (ok_or (LInvalidRegex pat) (regex_new E (''^'' @ regex_escape E pat @ ''$'')))
            else if symbol = ''^~'' then
              map_sum id (Pair LPrefix)
                (ok_or (LInvalidRegex pat) (regex_new E (''^'' @ regex_escape E pat)))
            else if symbol = ''~'' then
              map_sum id (Pair LRegex) (ok_or (LInvalidRegex pat) (regex_new E pat))
            else if symbol = ''~*'' then
              map_sum id (Pair LRegex)
                (ok_or (LInvalidRegex pat) (regex_new_case_insensitive E pat))
            else Inl (UnknownSymbol symbol))
       (\<lambda>(kind, regex).
          and_then
            (map_err LUnreachable
              (validate_reachable (dfa_build E) location_path_language pattern (regex_str E regex)))
            (\<lambda>_. Inr \<lparr>p_kind = kind, p_regex = regex, p_text = pattern\<rparr>))"

definition expand_name_glob_or_exact :: "string \<Rightarrow> string" where
  "expand_name_glob_or_exact input = replace_char CHR ''~'' DHTTP_SUFFIX input"

definition expand_name_regex :: "string \<Rightarrow> string" where
  "expand_name_regex input =
     replace_char CHR ''~'' ([CHR 0x5C] @ ''.dhttp'' @ [CHR 0x5C] @ ''.net'') input"

definition canonicalize_name_pattern :: "string \<Rightarrow> string" where
  "canonicalize_name_pattern pattern =
     (case split_once CHR '' '' pattern of
        Some (symbol, rest) \<Rightarrow>
          if symbol = ''~'' then ''~ '' @ expand_name_regex rest
          else if symbol = ''~*'' then ''~* '' @ expand_name_regex rest
          else if symbol = ''='' then ''= '' @ expand_name_glob_or_exact rest
          else if symbol = ''*'' then ''* '' @ expand_name_glob_or_exact rest
          else expand_name_glob_or_exact pattern
      | None \<Rightarrow> expand_name_glob_or_exact pattern)"

text \<open>The conversion \<open>From<Pattern<NormalPatternKind>>\<close>: only the kind is wrapped.\<close>

definition with_kind :: "('k \<Rightarrow> 'l) \<Rightarrow> ('k, 'r) pattern \<Rightarrow> ('l, 'r) pattern" where
  "with_kind f p = \<lparr>p_kind = f (p_kind p), p_regex = p_regex p, p_text = p_text p\<rparr>"

definition client_name_pattern_from_str ::
    "('r, 'q :: finite) engine \<Rightarrow> string \<Rightarrow> parse_pattern_error + 'r client_name_pattern" where
  "client_name_pattern_from_str E s =
     and_then (normal_pattern_from_str E (canonicalize_name_pattern s)) (\<lambda>p.
       and_then
         (map_err Unreachable
           (validate_reachable (dfa_build E) client_name_language (p_text p)
             (regex_str E (p_regex p))))
         (\<lambda>_. Inr (with_kind ClientNamePatternKind p)))"

definition domain_pattern_from_str ::
    "('r, 'q :: finite) engine \<Rightarrow> string \<Rightarrow> parse_pattern_error + 'r domain_pattern" where
  "domain_pattern_from_str E s =
     and_then (normal_pattern_from_str E (canonicalize_name_pattern s)) (\<lambda>p.
       and_then
         (map_err Unreachable
           (validate_reachable (dfa_build E) domain_name_language (p_text p)
             (regex_str E (p_regex p))))
         (\<lambda>_. Inr (with_kind DomainPatternKind p)))"

section \<open>Canonical name patterns\<close>

lemma suffixes_plain:
  "CHR ''~'' \<notin> set DHTTP_SUFFIX" "CHR '' '' \<notin> set DHTTP_SUFFIX" "DHTTP_SUFFIX \<noteq> []"
  by (simp_all add: DHTTP_SUFFIX_def)

lemma expand_free:
  "CHR ''~'' \<notin> set (expand_name_glob_or_exact s)" "CHR ''~'' \<notin> set (expand_name_regex s)"
  by (auto simp: expand_name_glob_or_exact_def expand_name_regex_def set_replace_char suffixes_plain)

lemma expand_idem [simp]:
  "expand_name_glob_or_exact (expand_name_glob_or_exact s) = expand_name_glob_or_exact s"
  "expand_name_regex (expand_name_regex s) = expand_name_regex s"
  using expand_free by (simp_all add: expand_name_glob_or_exact_def expand_name_regex_def)

lemma expand_append:
  "expand_name_glob_or_exact (s @ t) = expand_name_glob_or_exact s @ expand_name_glob_or_exact t"
  by (simp add: expand_name_glob_or_exact_def)

lemma expand_space_free:
  "CHR '' '' \<notin> set s \<Longrightarrow> CHR '' '' \<notin> set (expand_name_glob_or_exact s)"
  by (simp add: expand_name_glob_or_exact_def set_replace_char suffixes_plain)

lemma expand_symbol:
  "expand_name_glob_or_exact s = [c] \<Longrightarrow> s = [c] \<or> c = CHR ''.''"
  by (cases s; cases "tl s") (auto simp: expand_name_glob_or_exact_def DHTTP_SUFFIX_def split: if_splits)

lemma split_once_symbol [simp]:
  "split_once CHR '' '' (CHR ''~'' # CHR '' '' # s) = Some (''~'', s)"
  "split_once CHR '' '' (CHR ''='' # CHR '' '' # s) = Some (''='', s)"
  "split_once CHR '' '' (CHR ''*'' # CHR '' '' # s) = Some (''*'', s)"
  "split_once CHR '' '' (CHR ''~'' # CHR ''*'' # CHR '' '' # s) = Some (''~*'', s)"
  by (simp_all add: split_once_def)

lemma canonicalize_default:
  assumes "\<And>symbol rest. split_once CHR '' '' p = Some (symbol, rest) \<Longrightarrow>
      symbol \<notin> {''~'', ''~*'', ''='', ''*''}"
  shows "canonicalize_name_pattern p = expand_name_glob_or_exact p"
  using assms by (auto simp: canonicalize_name_pattern_def split: option.splits)

lemma canonicalize_idem:
  "canonicalize_name_pattern (canonicalize_name_pattern p) = canonicalize_name_pattern p"
proof (cases "\<exists>symbol rest. split_once CHR '' '' p = Some (symbol, rest)
    \<and> symbol \<in> {''~'', ''~*'', ''='', ''*''}")
  case True
  then show ?thesis by (auto simp: canonicalize_name_pattern_def)
next
  case False
  then have p: "canonicalize_name_pattern p = expand_name_glob_or_exact p"
    by (intro canonicalize_default) blast
  have "symbol \<notin> {''~'', ''~*'', ''='', ''*''}"
    if "split_once CHR '' '' (expand_name_glob_or_exact p) = Some (symbol, rest)" for symbol rest
  proof (cases "split_once CHR '' '' p")
    case None
    then have "CHR '' '' \<notin> set (expand_name_glob_or_exact p)" by (simp add: expand_space_free)
    with that show ?thesis by (simp flip: split_once_None)
  next
    case (Some ab)
    obtain a b where ab: "ab = (a, b)" by fastforce
    with Some have a: "p = a @ CHR '' '' # b" "CHR '' '' \<notin> set a"
      by (auto simp: split_once_Some)
    have "expand_name_glob_or_exact p = expand_name_glob_or_exact a @ CHR '' '' # expand_name_glob_or_exact b"
      using a by (simp add: expand_name_glob_or_exact_def)
    with that a have symbol: "symbol = expand_name_glob_or_exact a"
      by (simp add: split_once_append expand_space_free)
    have "CHR ''~'' \<notin> set symbol" using symbol expand_free by simp
    moreover have "a \<noteq> ''=''" "a \<noteq> ''*''" using False Some ab by auto
    then have "symbol \<noteq> ''=''" "symbol \<noteq> ''*''"
      using expand_symbol [of a "CHR ''=''"] expand_symbol [of a "CHR ''*''"] symbol by auto
    ultimately show ?thesis by auto
  qed
  with p show ?thesis by (simp add: canonicalize_default)
qed

section \<open>Documented behaviour of the regular expressions\<close>

text \<open>
  What the code relies on of the crate \<open>regex\<close>: an escaped text between anchors matches exactly that
  text, after the start anchor alone it matches as a prefix, and the start anchor before a slash
  matches the texts that begin with one.
\<close>

definition literal_engine :: "('r, 'q) engine \<Rightarrow> bool" where
  "literal_engine E \<longleftrightarrow>
     (\<forall>p. \<exists>r. regex_new E (''^'' @ regex_escape E p @ ''$'') = Some r
        \<and> (\<forall>s. regex_is_match E r s \<longleftrightarrow> s = p))
     \<and> (\<forall>p. \<exists>r. regex_new E (''^'' @ regex_escape E p) = Some r
        \<and> (\<forall>s. regex_is_match E r s \<longleftrightarrow> starts_with p s))
     \<and> (\<exists>r. regex_new E ''^/'' = Some r \<and> (\<forall>s. regex_is_match E r s \<longleftrightarrow> starts_with ''/'' s))"

lemma map_sum_ok_or: "map_sum id f (ok_or e v) = Inr y \<longleftrightarrow> (\<exists>x. v = Some x \<and> y = f x)"
  by (cases v) auto

lemma location_from_str_text:
  "location_pattern_from_str E s = Inr p \<Longrightarrow> p_text p = s"
  by (auto simp: location_pattern_from_str_def and_then_eq_Inr)

lemma normal_from_str_text:
  "normal_pattern_from_str E s = Inr p \<Longrightarrow> p_text p = s"
  by (auto simp: normal_pattern_from_str_def Let_def map_sum_ok_or and_then_eq_Inr
      split: option.splits if_splits)

lemma client_name_from_str_text:
  "client_name_pattern_from_str E s = Inr p \<Longrightarrow> p_text p = canonicalize_name_pattern s"
  by (auto simp: client_name_pattern_from_str_def and_then_eq_Inr with_kind_def
      dest: normal_from_str_text)

lemma domain_from_str_text:
  "domain_pattern_from_str E s = Inr p \<Longrightarrow> p_text p = canonicalize_name_pattern s"
  by (auto simp: domain_pattern_from_str_def and_then_eq_Inr with_kind_def
      dest: normal_from_str_text)

lemma split_once_op: "split_once CHR '' '' s = Some (a, b) \<Longrightarrow> s = a @ '' '' @ b"
  by (simp add: split_once_Some)

lemma location_from_str_cases:
  assumes "location_pattern_from_str E s = Inr p"
  shows "(p_kind p = LCommon \<and> s = ''/'' \<and> regex_new E ''^/'' = Some (p_regex p))
    \<or> (p_kind p = LNormalPrefix \<and> starts_with ''/'' s
        \<and> regex_new E (''^'' @ regex_escape E s) = Some (p_regex p))
    \<or> (\<exists>t. p_kind p = LExact \<and> s = ''= '' @ t
        \<and> regex_new E (''^'' @ regex_escape E t @ ''$'') = Some (p_regex p))
    \<or> (\<exists>t. p_kind p = LPrefix \<and> s = ''^~ '' @ t
        \<and> regex_new E (''^'' @ regex_escape E t) = Some (p_regex p))
    \<or> (\<exists>t. p_kind p = LRegex \<and> (s = ''~ '' @ t \<or> s = ''~* '' @ t))"
proof (cases "split_once CHR '' '' s")
  case None
  with assms show ?thesis
    by (auto simp: location_pattern_from_str_def and_then_eq_Inr map_sum_ok_or split: if_splits)
next
  case (Some ab)
  obtain a b where ab: "ab = (a, b)" by fastforce
  with Some have "split_once CHR '' '' s = Some (a, b)" by simp
  then have s: "s = a @ '' '' @ b" by (rule split_once_op)
  from assms Some ab show ?thesis
    by (auto simp: location_pattern_from_str_def and_then_eq_Inr map_sum_ok_or s split: if_splits)
qed

lemma literal_engineD:
  assumes "literal_engine E"
  shows "regex_new E (''^'' @ regex_escape E t @ ''$'') = Some r \<Longrightarrow> regex_is_match E r x \<longleftrightarrow> x = t"
    and "regex_new E (''^'' @ regex_escape E t) = Some r \<Longrightarrow> regex_is_match E r x \<longleftrightarrow> starts_with t x"
    and "regex_new E ''^/'' = Some r \<Longrightarrow> regex_is_match E r x \<longleftrightarrow> starts_with ''/'' x"
  using assms unfolding literal_engine_def by (metis option.inject)+

section \<open>A concrete engine\<close>

text \<open>
  An instance of the parameter in which the documented behaviour holds: texts with a start anchor,
  characters escaped by a backslash, and an end anchor.  The automaton it builds matches anything.
\<close>

fun literal_match :: "string \<Rightarrow> string \<Rightarrow> bool" where
  "literal_match [] s = True"
| "literal_match (c # re) s =
     (if c = CHR 0x5C then
        (case re of [] \<Rightarrow> False | d # re' \<Rightarrow> (case s of [] \<Rightarrow> False | x # s' \<Rightarrow> x = d \<and> literal_match re' s'))
      else if c = CHR ''$'' then re = [] \<and> s = []
      else if c = CHR ''^'' then literal_match re s
      else (case s of [] \<Rightarrow> False | x # s' \<Rightarrow> x = c \<and> literal_match re s'))"

definition backslash :: "string \<Rightarrow> string" where
  "backslash p = concat (map (\<lambda>c. [CHR 0x5C, c]) p)"

definition toy_engine :: "(string, bool) engine" where
  "toy_engine =
     \<lparr>regex_new = Some, regex_new_case_insensitive = Some, regex_escape = backslash,
      regex_str = id, regex_is_match = literal_match,
      regex_find = (\<lambda>r s. if literal_match r s then Some (0, length s) else None),
      glob_regex = (\<lambda>_. Some),
      dfa_build = (\<lambda>_. Some \<lparr>start_state = Some True, next_state = (\<lambda>q _. q),
        next_eoi_state = id, is_match_state = id, is_dead_state = Not\<rparr>)\<rparr>"

lemma backslash_simps [simp]:
  "backslash [] = []" "backslash (c # p) = CHR 0x5C # c # backslash p"
  by (simp_all add: backslash_def)

lemma literal_match_exact: "literal_match (backslash p @ ''$'') s \<longleftrightarrow> s = p"
  by (induction p arbitrary: s) (auto split: list.splits)

lemma literal_match_prefix: "literal_match (backslash p) s \<longleftrightarrow> starts_with p s"
  by (induction p arbitrary: s) (auto simp: starts_with_def split: list.splits)

lemma toy_engine_literal: "literal_engine toy_engine"
  by (auto simp: literal_engine_def toy_engine_def literal_match_exact literal_match_prefix
      starts_with_def split: list.splits)

definition toy_exact :: "string location_pattern" where
  "toy_exact = \<lparr>p_kind = LExact, p_regex = ''^'' @ backslash ''/a'' @ ''$'', p_text = ''= /a''\<rparr>"

lemma toy_exact_parsed: "location_pattern_from_str toy_engine ''= /a'' = Inr toy_exact"
proof -
  let ?D = "\<lparr>start_state = Some True, next_state = (\<lambda>q _. q), next_eoi_state = id,
      is_match_state = id, is_dead_state = Not\<rparr>"
  have "accepts location_path_language ''/''"
    by (simp add: accepts_def location_path_language_def path_step_def)
  moreover have "matches_in ?D True ''/''" "alive ?D True ''/''" by simp_all
  moreover have "start_state ?D = Some True" by simp
  ultimately have "intersects location_path_language ?D"
    unfolding path_input.intersects_iff by blast
  then have "validate_reachable (dfa_build toy_engine) location_path_language t u = Inr ()" for t u
    by (simp add: validate_reachable_def toy_engine_def)
  moreover have "regex_new toy_engine = Some" "regex_escape toy_engine = backslash"
    by (simp_all add: toy_engine_def)
  ultimately show ?thesis by (simp add: location_pattern_from_str_def toy_exact_def)
qed

section \<open>Properties\<close>

text \<open>C12: a pattern's text determines the pattern: writing any parsed pattern out and parsing it
  again gives the same pattern, for all four kinds; a client-name or domain pattern is written in
  canonical form, which a second canonicalisation keeps.\<close>
theorem pattern_text_roundtrip:
  fixes E :: "('r, 'q :: finite) engine"
  shows "(\<forall>s p. location_pattern_from_str E s = Inr p \<longrightarrow> location_pattern_from_str E (p_text p) = Inr p)
    \<and> (\<forall>s p. normal_pattern_from_str E s = Inr p \<longrightarrow> normal_pattern_from_str E (p_text p) = Inr p)
    \<and> (\<forall>s p. client_name_pattern_from_str E s = Inr p \<longrightarrow>
          client_name_pattern_from_str E (p_text p) = Inr p \<and> p_text p = canonicalize_name_pattern s)
    \<and> (\<forall>s p. domain_pattern_from_str E s = Inr p \<longrightarrow>
          domain_pattern_from_str E (p_text p) = Inr p \<and> p_text p = canonicalize_name_pattern s)"
proof (intro conjI allI impI)
  fix s and p :: "'r location_pattern"
  assume "location_pattern_from_str E s = Inr p"
  then show "location_pattern_from_str E (p_text p) = Inr p" using location_from_str_text by metis
next
  fix s and p :: "'r normal_pattern"
  assume "normal_pattern_from_str E s = Inr p"
  then show "normal_pattern_from_str E (p_text p) = Inr p" using normal_from_str_text by metis
next
  fix s and p :: "'r client_name_pattern"
  assume p: "client_name_pattern_from_str E s = Inr p"
  then show "p_text p = canonicalize_name_pattern s" by (rule client_name_from_str_text)
  with p show "client_name_pattern_from_str E (p_text p) = Inr p"
    by (simp add: client_name_pattern_from_str_def canonicalize_idem)
next
  fix s and p :: "'r domain_pattern"
  assume p: "domain_pattern_from_str E s = Inr p"
  then show "p_text p = canonicalize_name_pattern s" by (rule domain_from_str_text)
  with p show "domain_pattern_from_str E (p_text p) = Inr p"
    by (simp add: domain_pattern_from_str_def canonicalize_idem)
qed

text \<open>C13: what a parsed location pattern matches, given the documented behaviour of the regular
  expressions: an exact pattern its text, a prefix or normal prefix pattern the paths it begins,
  the common pattern every path with a leading slash; and its kind follows from its symbol.\<close>
theorem location_pattern_meaning:
  fixes E :: "('r, 'q :: finite) engine"
  assumes "literal_engine E" and "location_pattern_from_str E s = Inr p"
  shows "(p_kind p = LExact \<longrightarrow> (\<exists>t. s = ''= '' @ t \<and> (\<forall>x. pattern_is_match E p x \<longleftrightarrow> x = t)))
    \<and> (p_kind p = LPrefix \<longrightarrow> (\<exists>t. s = ''^~ '' @ t \<and> (\<forall>x. pattern_is_match E p x \<longleftrightarrow> starts_with t x)))
    \<and> (p_kind p = LNormalPrefix \<longrightarrow>
         starts_with ''/'' s \<and> (\<forall>x. pattern_is_match E p x \<longleftrightarrow> starts_with s x))
    \<and> (p_kind p = LCommon \<longrightarrow> s = ''/'' \<and> (\<forall>x. pattern_is_match E p x \<longleftrightarrow> starts_with ''/'' x))
    \<and> (p_kind p = LRegex \<longrightarrow> (\<exists>t. s = ''~ '' @ t \<or> s = ''~* '' @ t))"
  using location_from_str_cases [OF assms(2)]
  by (elim disjE exE conjE) (auto simp: pattern_is_match_def literal_engineD [OF assms(1)])

theorem location_pattern_meaning_witness:
  "\<exists>p. location_pattern_from_str toy_engine ''= /a'' = Inr p
     \<and> (\<forall>x. pattern_is_match toy_engine p x \<longleftrightarrow> x = ''/a'')"
  using location_pattern_meaning [OF toy_engine_literal toy_exact_parsed, THEN conjunct1] toy_exact_parsed
  by (auto simp: toy_exact_def)

theorem pattern_text_roundtrip_witness:
  "normal_pattern_from_str toy_engine ''= x'' = Inr \<lparr>p_kind = NExact, p_regex = ''^'' @ backslash ''x'' @ ''$'', p_text = ''= x''\<rparr>
   \<and> normal_pattern_from_str toy_engine
       (p_text \<lparr>p_kind = NExact, p_regex = ''^'' @ backslash ''x'' @ ''$'', p_text = ''= x''\<rparr>)
     = Inr \<lparr>p_kind = NExact, p_regex = ''^'' @ backslash ''x'' @ ''$'', p_text = ''= x''\<rparr>"
proof -
  have h: "normal_pattern_from_str toy_engine ''= x'' = Inr \<lparr>p_kind = NExact, p_regex = ''^'' @ backslash ''x'' @ ''$'', p_text = ''= x''\<rparr>"
    by (simp add: normal_pattern_from_str_def toy_engine_def split_once_def)
  with pattern_text_roundtrip [of toy_engine] show ?thesis by blast
qed

end
