(* ===== verification/PolishVM.thy ===== *)
theory PolishVM
  imports Prelude
begin

text \<open>
  The crate \<open>dhttp-access\<close>, files \<open>access/src/expr/eval.rs\<close>, \<open>exprs.rs\<close> and \<open>rule.rs\<close>: rule
  expressions in Polish notation and the stack machine that evaluates them.  The trait
  \<open>BeOperator\<close> is a record of its three functions, with the three implementations of the source
  as values of it; a stack is a list whose head is its top.
\<close>

section \<open>Operators\<close>

datatype boolean_operator = And | Or | Not

fun show_operator :: "boolean_operator \<Rightarrow> string" where
  "show_operator And = ''AND''"
| "show_operator Or = ''OR''"
| "show_operator Not = ''NOT''"

text \<open>
  An iterator argument is the list of the values it yields; \<open>operate\<close> and \<open>short_circuit\<close> are
  \<open>None\<close> where the source runs out of values (\<open>values.next()?\<close>).
\<close>

record ('op, 'v) be_operator =
  operand :: "'op \<Rightarrow> nat"
  operate :: "'op \<Rightarrow> 'v list \<Rightarrow> 'v option"
  short_circuit :: "'op \<Rightarrow> 'v list \<Rightarrow> ('v \<times> nat) option"

fun boolean_operand :: "boolean_operator \<Rightarrow> nat" where
  "boolean_operand And = 2"
| "boolean_operand Or = 2"
| "boolean_operand Not = 1"

fun bool_operate :: "boolean_operator \<Rightarrow> bool list \<Rightarrow> bool option" where
  "bool_operate And (l # vs) = (if l then (case vs of r # _ \<Rightarrow> Some r | [] \<Rightarrow> None) else Some False)"
| "bool_operate Or (l # vs) = (if l then Some True else (case vs of r # _ \<Rightarrow> Some r | [] \<Rightarrow> None))"
| "bool_operate Not (v # vs) = Some (\<not> v)"
| "bool_operate _ [] = None"

fun bool_short_circuit :: "boolean_operator \<Rightarrow> bool list \<Rightarrow> (bool \<times> nat) option" where
  "bool_short_circuit And (v # vs) = (if \<not> v then Some (False, 1) else None)"
| "bool_short_circuit Or (v # vs) = (if v then Some (True, 1) else None)"
| "bool_short_circuit _ _ = None"

definition bool_operator :: "(boolean_operator, bool) be_operator" where
  "bool_operator = \<lparr>operand = boolean_operand, operate = bool_operate,
     short_circuit = bool_short_circuit\<rparr>"

fun result_operate :: "boolean_operator \<Rightarrow> ('e + bool) list \<Rightarrow> ('e + bool) option" where
  "result_operate And (l # r # vs) =
     Some (and_then r (\<lambda>r. and_then l (\<lambda>l. Inr (l \<and> r))))"
| "result_operate Or (l # r # vs) =
     Some (and_then r (\<lambda>r. and_then l (\<lambda>l. Inr (l \<or> r))))"
| "result_operate Not (v # vs) = Some (and_then v (\<lambda>v. Inr (\<not> v)))"
| "result_operate _ _ = None"

fun result_short_circuit ::
    "boolean_operator \<Rightarrow> ('e + bool) list \<Rightarrow> (('e + bool) \<times> nat) option" where
  "result_short_circuit And (v # vs) =
     (case v of Inr b \<Rightarrow> if \<not> b then Some (Inr False, 1) else None
              | Inl e \<Rightarrow> Some (Inl e, 1))"
| "result_short_circuit Or (v # vs) =
     (case v of Inr b \<Rightarrow> if b then Some (Inr True, 1) else None
              | Inl e \<Rightarrow> Some (Inl e, 1))"
| "result_short_circuit _ _ = None"

definition result_operator :: "(boolean_operator, 'e + bool) be_operator" where
  "result_operator = \<lparr>operand = boolean_operand, operate = result_operate,
     short_circuit = result_short_circuit\<rparr>"

definition unit_operate :: "boolean_operator \<Rightarrow> unit list \<Rightarrow> unit option" where
  "unit_operate op vs = (if boolean_operand op \<le> length vs then Some () else None)"

text \<open>The unit instance inherits the trait's default \<open>short_circuit\<close>.\<close>

definition unit_operator :: "(boolean_operator, unit) be_operator" where
  "unit_operator = \<lparr>operand = boolean_operand, operate = unit_operate,
     short_circuit = (\<lambda>_ _. None)\<rparr>"

section \<open>The machine\<close>

datatype ('op, 'e) part = Operator 'op | Expr 'e

datatype eval_polish_error = IncompleteExpression | ExtraOperands | MissingOperands

record ('op, 'v) vm =
  short_circuited :: nat
  ops :: "'op list"
  vals :: "'v list"

definition new_vm :: "('op, 'v) vm" where
  "new_vm = \<lparr>short_circuited = 0, ops = [], vals = []\<rparr>"

function vm_try_eval ::
    "('op, 'v) be_operator \<Rightarrow> ('op, 'v) vm \<Rightarrow> eval_polish_error + ('op, 'v) vm" where
  "vm_try_eval I vm =
     (case ops vm of
        [] \<Rightarrow> Inr vm
      | op # rest \<Rightarrow>
          if operand I op \<le> length (vals vm) then
            (case operate I op (rev (take (operand I op) (vals vm))) of
               None \<Rightarrow> Inl MissingOperands
             | Some v \<Rightarrow>
                 vm_try_eval I (vm\<lparr>vals := v # drop (operand I op) (vals vm), ops := rest\<rparr>))
          else
            (case short_circuit I op (vals vm) of
               Some (v, consumed) \<Rightarrow>
                 vm_try_eval I
                   (vm\<lparr>vals := v # drop consumed (vals vm),
                       short_circuited := short_circuited vm + (operand I op - consumed),
                       ops := rest\<rparr>)
             | None \<Rightarrow> Inr vm))"
  by pat_completeness auto
termination
  by (relation "measure (\<lambda>(I, vm). length (ops vm))") auto

declare vm_try_eval.simps [simp del]

definition vm_step ::
    "('op, 'v) be_operator \<Rightarrow> ('op, 'v) vm \<Rightarrow> ('op, 'v) part \<Rightarrow> eval_polish_error + ('op, 'v) vm" where
  "vm_step I vm part =
     (case part of
        Operator op \<Rightarrow>
          if short_circuited vm = 0 then Inr (vm\<lparr>ops := op # ops vm\<rparr>)
          else Inr (vm\<lparr>short_circuited := short_circuited vm + (operand I op - 1)\<rparr>)
      | Expr v \<Rightarrow>
          if short_circuited vm = 0 then vm_try_eval I (vm\<lparr>vals := v # vals vm\<rparr>)
          else Inr (vm\<lparr>short_circuited := short_circuited vm - 1\<rparr>))"

fun vm_run ::
    "('op, 'v) be_operator \<Rightarrow> ('op, 'v) vm \<Rightarrow> ('op, 'v) part list \<Rightarrow> eval_polish_error + ('op, 'v) vm" where
  "vm_run I vm [] = Inr vm"
| "vm_run I vm (part # parts) = and_then (vm_step I vm part) (\<lambda>vm'. vm_run I vm' parts)"

definition vm_finish :: "('op, 'v) vm \<Rightarrow> eval_polish_error + 'v" where
  "vm_finish vm =
     (if ops vm \<noteq> [] \<or> short_circuited vm \<noteq> 0 \<or> vals vm = [] then Inl IncompleteExpression
      else if length (vals vm) \<noteq> 1 then Inl ExtraOperands
      else Inr (hd (vals vm)))"

definition try_run ::
    "('op, 'v) be_operator \<Rightarrow> ('op, 'v) part list \<Rightarrow> eval_polish_error + 'v" where
  "try_run I parts = and_then (vm_run I new_vm parts) vm_finish"

section \<open>Expressions and rules\<close>

fun eval_part :: "('e \<Rightarrow> 'v) \<Rightarrow> ('op, 'e) part \<Rightarrow> ('op, 'v) part" where
  "eval_part f (Operator op) = Operator op"
| "eval_part f (Expr a) = Expr (f a)"

definition exprs_try_eval ::
    "('op, 'v) be_operator \<Rightarrow> ('e \<Rightarrow> 'v) \<Rightarrow> ('op, 'e) part list \<Rightarrow> eval_polish_error + 'v" where
  "exprs_try_eval I f parts = try_run I (map (eval_part f) parts)"

definition validate_arity :: "(boolean_operator, 'e) part list \<Rightarrow> eval_polish_error + unit" where
  "validate_arity parts = try_run unit_operator (map (eval_part (\<lambda>_. ())) parts)"

text \<open>\<open>Rule::eval\<close>: \<open>f\<close> evaluates an atom in the given state, \<open>fallback\<close> is that of the error.\<close>

definition rule_eval ::
    "('e \<Rightarrow> 'err + bool) \<Rightarrow> ('err \<Rightarrow> 'act \<Rightarrow> 'act option) \<Rightarrow>
     (boolean_operator, 'e) part list \<Rightarrow> 'act \<Rightarrow> 'act option" where
  "rule_eval f fallback parts action =
     (case exprs_try_eval result_operator f parts of
        Inr (Inr matched) \<Rightarrow> if matched then Some action else None
      | Inr (Inl eval_error) \<Rightarrow> fallback eval_error action
      | Inl _ \<Rightarrow> None)"

section \<open>Reference semantics: expression trees\<close>

datatype ('op, 'e) tree = Leaf 'e | Unary 'op "('op, 'e) tree" | Binary 'op "('op, 'e) tree" "('op, 'e) tree"

fun polish :: "('op, 'e) tree \<Rightarrow> ('op, 'e) part list" where
  "polish (Leaf a) = [Expr a]"
| "polish (Unary op t) = Operator op # polish t"
| "polish (Binary op l r) = Operator op # polish l @ polish r"

text \<open>The arities of the operators are those of the tree's nodes.\<close>

fun well_arity :: "('op \<Rightarrow> nat) \<Rightarrow> ('op, 'e) tree \<Rightarrow> bool" where
  "well_arity k (Leaf a) = True"
| "well_arity k (Unary op t) = (k op = 1 \<and> well_arity k t)"
| "well_arity k (Binary op l r) = (k op = 2 \<and> well_arity k l \<and> well_arity k r)"

text \<open>The value of a tree: the left operand decides first, the right one only if it did not.\<close>

fun tree_value :: "('op, 'v) be_operator \<Rightarrow> ('op, 'v) tree \<Rightarrow> 'v" where
  "tree_value I (Leaf v) = v"
| "tree_value I (Unary op t) = the (operate I op [tree_value I t])"
| "tree_value I (Binary op l r) =
     (case short_circuit I op [tree_value I l] of
        Some (w, _) \<Rightarrow> w
      | None \<Rightarrow> the (operate I op [tree_value I l, tree_value I r]))"

fun negated_leaf :: "('op, 'e) tree \<Rightarrow> bool" where
  "negated_leaf (Leaf a) = True"
| "negated_leaf (Unary op t) = negated_leaf t"
| "negated_leaf (Binary op l r) = False"

text \<open>Left-deep trees: every right operand is an atom under unary operators.\<close>

fun left_deep :: "('op, 'e) tree \<Rightarrow> bool" where
  "left_deep (Leaf a) = True"
| "left_deep (Unary op t) = left_deep t"
| "left_deep (Binary op l r) = (left_deep l \<and> negated_leaf r)"

section \<open>Bookkeeping of a run\<close>

text \<open>
  The balance of a state: operands still wanted (\<open>k\<close> gives the arity of an operator) less values
  held.  Evaluation keeps it, so after a run it depends on the parts alone.
\<close>

definition balance :: "('op \<Rightarrow> nat) \<Rightarrow> ('op, 'v) vm \<Rightarrow> int" where
  "balance k vm =
     (\<Sum>op \<leftarrow> ops vm. int (k op) - 1) + int (short_circuited vm) - int (length (vals vm))"

fun part_weight :: "('op \<Rightarrow> nat) \<Rightarrow> ('op, 'e) part \<Rightarrow> int" where
  "part_weight k (Operator op) = int (k op) - 1"
| "part_weight k (Expr _) = - 1"

fun is_expr :: "('op, 'e) part \<Rightarrow> bool" where
  "is_expr (Expr _) = True"
| "is_expr (Operator _) = False"

text \<open>Skipping happens over a single value; a settled state has no operator that could still fire.\<close>

definition steady :: "('op, 'v) vm \<Rightarrow> bool" where
  "steady vm \<longleftrightarrow> (short_circuited vm \<noteq> 0 \<longrightarrow> length (vals vm) = 1)"

definition settled :: "('op \<Rightarrow> nat) \<Rightarrow> ('op, 'v) vm \<Rightarrow> bool" where
  "settled k vm \<longleftrightarrow> vals vm \<noteq> []
     \<and> (ops vm \<noteq> [] \<longrightarrow> k (hd (ops vm)) = 2 \<and> length (vals vm) \<le> 1)"

text \<open>The outcome the parts alone determine: the error of a run, if any.\<close>

definition arity_error :: "('op \<Rightarrow> nat) \<Rightarrow> ('op, 'e) part list \<Rightarrow> eval_polish_error option" where
  "arity_error k parts =
     (let w = (\<Sum>p \<leftarrow> parts. part_weight k p) in
      if parts = [] \<or> \<not> is_expr (last parts) \<or> - 1 < w then Some IncompleteExpression
      else if w < - 1 then Some ExtraOperands
      else None)"

definition error_of :: "'e + 'a \<Rightarrow> 'e option" where
  "error_of r = (case r of Inl e \<Rightarrow> Some e | Inr _ \<Rightarrow> None)"

section \<open>The contract of \<open>BeOperator\<close>\<close>

locale operators =
  fixes I :: "('op, 'v) be_operator"
  assumes arity: "operand I op = 1 \<or> operand I op = 2"
    and operate_total: "length vs = operand I op \<Longrightarrow> \<exists>v. operate I op vs = Some v"
    and short_circuit_one: "short_circuit I op vs = Some (v, n) \<Longrightarrow> n = 1 \<and> vs \<noteq> []"
begin

lemma fire:
  assumes "operand I op \<le> length (vals vm)" and "ops vm = op # rest"
  shows "vm_try_eval I vm = vm_try_eval I
    (vm\<lparr>vals := the (operate I op (rev (take (operand I op) (vals vm)))) # drop (operand I op) (vals vm),
        ops := rest\<rparr>)"
proof -
  obtain v where "operate I op (rev (take (operand I op) (vals vm))) = Some v"
    using operate_total [of "rev (take (operand I op) (vals vm))" op] assms by auto
  with assms show ?thesis by (subst vm_try_eval.simps) simp
qed

lemma try_eval_rests:
  assumes "vals vm \<noteq> []" and "short_circuited vm \<noteq> 0 \<longrightarrow> length (vals vm) = 1"
  shows "\<exists>vm'. vm_try_eval I vm = Inr vm' \<and> balance (operand I) vm' = balance (operand I) vm \<and> steady vm' \<and> settled (operand I) vm'"
  using assms
proof (induction "ops vm" arbitrary: vm)
  case Nil
  then show ?case
    by (subst vm_try_eval.simps) (simp add: steady_def settled_def)
next
  case (Cons op rest)
  let ?k = "operand I op"
  show ?case
  proof (cases "?k \<le> length (vals vm)")
    case True
    let ?vm = "vm\<lparr>vals := the (operate I op (rev (take ?k (vals vm)))) # drop ?k (vals vm), ops := rest\<rparr>"
    have "balance (operand I) ?vm = balance (operand I) vm"
      using True arity [of op] Cons.hyps(2) [symmetric] by (auto simp: balance_def)
    moreover have "\<exists>vm'. vm_try_eval I ?vm = Inr vm' \<and> balance (operand I) vm' = balance (operand I) ?vm \<and> steady vm' \<and> settled (operand I) vm'"
      using Cons.prems True arity [of op] by (intro Cons.hyps(1)) auto
    ultimately show ?thesis using fire [OF True] Cons.hyps(2) [symmetric] by simp
  next
    case False
    have "1 \<le> length (vals vm)" using Cons.prems(1) by (simp add: Suc_le_eq)
    with False arity [of op] have k: "?k = 2" "length (vals vm) = 1" by linarith+
    show ?thesis
    proof (cases "short_circuit I op (vals vm)")
      case None
      with False Cons.hyps(2) [symmetric] k Cons.prems show ?thesis
        by (subst vm_try_eval.simps) (simp add: steady_def settled_def)
    next
      case (Some vn)
      then obtain v where v: "short_circuit I op (vals vm) = Some (v, 1)"
        by (cases vn) (use short_circuit_one [of op "vals vm"] in auto)
      let ?vm = "vm\<lparr>vals := v # drop 1 (vals vm), short_circuited := short_circuited vm + (?k - 1), ops := rest\<rparr>"
      have "balance (operand I) ?vm = balance (operand I) vm"
        using k Cons.hyps(2) [symmetric] by (auto simp: balance_def)
      moreover have "\<exists>vm'. vm_try_eval I ?vm = Inr vm' \<and> balance (operand I) vm' = balance (operand I) ?vm \<and> steady vm' \<and> settled (operand I) vm'"
        using k by (intro Cons.hyps(1)) auto
      moreover have "vm_try_eval I vm = vm_try_eval I ?vm"
        using False v Cons.hyps(2) [symmetric] by (subst vm_try_eval.simps) simp
      ultimately show ?thesis by simp
    qed
  qed
qed

lemma step_ok:
  assumes "steady vm" and "short_circuited vm \<noteq> 0 \<longrightarrow> settled (operand I) vm"
  obtains vm' where "vm_step I vm part = Inr vm'"
    and "balance (operand I) vm' = balance (operand I) vm + part_weight (operand I) part"
    and "steady vm'" and "short_circuited vm' \<noteq> 0 \<longrightarrow> settled (operand I) vm'"
    and "is_expr part \<Longrightarrow> settled (operand I) vm'"
    and "\<not> is_expr part \<Longrightarrow> ops vm' \<noteq> [] \<or> short_circuited vm' \<noteq> 0"
proof (cases part)
  case (Operator op)
  with that show ?thesis
    using assms arity [of op]
    by (cases "short_circuited vm = 0") (auto simp: vm_step_def balance_def steady_def settled_def)
next
  case (Expr v)
  show ?thesis
  proof (cases "short_circuited vm = 0")
    case True
    then obtain vm' where vm': "vm_try_eval I (vm\<lparr>vals := v # vals vm\<rparr>) = Inr vm'"
      "balance (operand I) vm' = balance (operand I) (vm\<lparr>vals := v # vals vm\<rparr>)"
      "steady vm'" "settled (operand I) vm'"
      using try_eval_rests [of "vm\<lparr>vals := v # vals vm\<rparr>"] by auto
    then show ?thesis
      using Expr True by (intro that [of vm']) (auto simp: vm_step_def balance_def)
  next
    case False
    with Expr assms that show ?thesis
      by (auto simp: vm_step_def balance_def steady_def settled_def)
  qed
qed

lemma run_ok:
  assumes "steady vm" and "short_circuited vm \<noteq> 0 \<longrightarrow> settled (operand I) vm"
  shows "\<exists>vm'. vm_run I vm parts = Inr vm' \<and> steady vm'
    \<and> balance (operand I) vm' = balance (operand I) vm + (\<Sum>p \<leftarrow> parts. part_weight (operand I) p)
    \<and> (parts \<noteq> [] \<longrightarrow> (if is_expr (last parts) then settled (operand I) vm'
          else ops vm' \<noteq> [] \<or> short_circuited vm' \<noteq> 0))
    \<and> (parts = [] \<longrightarrow> vm' = vm)"
  using assms
proof (induction parts arbitrary: vm)
  case (Cons part parts)
  obtain vm1 where vm1: "vm_step I vm part = Inr vm1"
    "balance (operand I) vm1 = balance (operand I) vm + part_weight (operand I) part"
    "steady vm1" "short_circuited vm1 \<noteq> 0 \<longrightarrow> settled (operand I) vm1"
    "is_expr part \<Longrightarrow> settled (operand I) vm1"
    "\<not> is_expr part \<Longrightarrow> ops vm1 \<noteq> [] \<or> short_circuited vm1 \<noteq> 0"
    using step_ok [OF Cons.prems] by metis
  from Cons.IH [OF vm1(3,4)] vm1 show ?case
    by (cases "parts = []") auto
qed simp

lemma weights_nonneg: "0 \<le> (\<Sum>op \<leftarrow> os. int (operand I op) - 1)"
proof (intro sum_list_nonneg)
  fix x
  assume "x \<in> set (map (\<lambda>op. int (operand I op) - 1) os)"
  then obtain op where "x = int (operand I op) - 1" by auto
  with arity [of op] show "0 \<le> x" by auto
qed

lemma run_error: "error_of (try_run I parts) = arity_error (operand I) parts"
proof -
  let ?new = "new_vm :: ('op, 'v) vm"
  have new: "steady ?new" "short_circuited ?new \<noteq> 0 \<longrightarrow> settled (operand I) ?new"
    "balance (operand I) ?new = 0"
    by (simp_all add: new_vm_def steady_def balance_def)
  obtain vm' where run: "vm_run I new_vm parts = Inr vm'" "steady vm'"
    "balance (operand I) vm' = balance (operand I) ?new + (\<Sum>p \<leftarrow> parts. part_weight (operand I) p)"
    "parts \<noteq> [] \<longrightarrow> (if is_expr (last parts) then settled (operand I) vm'
          else ops vm' \<noteq> [] \<or> short_circuited vm' \<noteq> 0)"
    "parts = [] \<longrightarrow> vm' = new_vm"
    using run_ok [OF new(1,2), of parts] by (elim exE conjE) (rule that)
  have vm': "balance (operand I) vm' = (\<Sum>p \<leftarrow> parts. part_weight (operand I) p)"
    using run(3) new(3) by simp
  have "error_of (vm_finish vm') = arity_error (operand I) parts"
  proof (cases "parts \<noteq> [] \<and> is_expr (last parts)")
    case False
    with run(4,5) show ?thesis
      by (auto simp: vm_finish_def arity_error_def error_of_def new_vm_def)
  next
    case True
    with run(4) have set: "settled (operand I) vm'" by simp
    have hd_le: "ops vm' \<noteq> [] \<Longrightarrow> 1 \<le> (\<Sum>op \<leftarrow> ops vm'. int (operand I op) - 1)"
      using set weights_nonneg [of "tl (ops vm')"] by (cases "ops vm'") (auto simp: settled_def)
    let ?w = "\<Sum>p \<leftarrow> parts. part_weight (operand I) p"
    have w: "(\<Sum>op \<leftarrow> ops vm'. int (operand I op) - 1) + int (short_circuited vm') = ?w + int (length (vals vm'))"
      using vm' by (simp add: balance_def)
    show ?thesis
    proof (cases "ops vm' = [] \<and> short_circuited vm' = 0")
      case True
      with w set \<open>parts \<noteq> [] \<and> is_expr (last parts)\<close> show ?thesis
        by (auto simp: vm_finish_def arity_error_def error_of_def settled_def Let_def
            neq_Nil_conv)
    next
      case False
      then have "length (vals vm') \<le> 1"
        using set run(2) by (auto simp: settled_def steady_def)
      moreover have "1 \<le> ?w + int (length (vals vm'))"
        using False hd_le w weights_nonneg [of "ops vm'"] by (cases "ops vm' = []") auto
      ultimately have "- 1 < ?w" by linarith
      with False show ?thesis
        by (auto simp: vm_finish_def arity_error_def error_of_def Let_def)
    qed
  qed
  with run(1) show ?thesis by (simp add: try_run_def)
qed

text \<open>The number of values to skip is kept apart from the evaluation.\<close>

lemma try_eval_shift:
  "vm_try_eval I (vm\<lparr>short_circuited := n + short_circuited vm\<rparr>) =
     (case vm_try_eval I vm of Inl e \<Rightarrow> Inl e
      | Inr vm' \<Rightarrow> Inr (vm'\<lparr>short_circuited := n + short_circuited vm'\<rparr>))"
proof (induction "ops vm" arbitrary: vm)
  case Nil
  then show ?case by (subst (1 2) vm_try_eval.simps) simp
next
  case (Cons op rest)
  note ops = Cons.hyps(2) [symmetric]
  let ?shift = "\<lambda>vm :: ('op, 'v) vm. vm\<lparr>short_circuited := n + short_circuited vm\<rparr>"
  show ?case
  proof (cases "operand I op \<le> length (vals vm)")
    case True
    let ?vm = "vm\<lparr>vals := the (operate I op (rev (take (operand I op) (vals vm))))
        # drop (operand I op) (vals vm), ops := rest\<rparr>"
    have "vm_try_eval I (?shift vm) = vm_try_eval I (?shift ?vm)"
      using fire [of op "?shift vm" rest] True ops by (cases vm) simp
    with Cons.hyps(1) [of ?vm] fire [OF True ops] show ?thesis by simp
  next
    case False
    show ?thesis
    proof (cases "short_circuit I op (vals vm)")
      case None
      with False ops show ?thesis by (subst (1 2) vm_try_eval.simps) simp
    next
      case (Some vc)
      obtain v c where vc: "vc = (v, c)" by fastforce
      let ?vm = "vm\<lparr>vals := v # drop c (vals vm),
          short_circuited := short_circuited vm + (operand I op - c), ops := rest\<rparr>"
      have "vm_try_eval I (?shift vm) = vm_try_eval I (?shift ?vm)" "vm_try_eval I vm = vm_try_eval I ?vm"
        using Some False ops vc by (cases vm, subst vm_try_eval.simps, simp add: add.assoc)+
      with Cons.hyps(1) [of ?vm] show ?thesis by simp
    qed
  qed
qed

lemma skip:
  assumes "well_arity (operand I) t"
  shows "vm_run I (vm\<lparr>short_circuited := Suc n\<rparr>) (polish t @ rest)
    = vm_run I (vm\<lparr>short_circuited := n\<rparr>) rest"
  using assms
  by (induction t arbitrary: n rest) (simp_all add: vm_step_def)

lemma run_push:
  assumes "short_circuited vm = 0"
  shows "vm_run I vm (Expr v # rest) =
    and_then (vm_try_eval I (vm\<lparr>vals := v # vals vm\<rparr>)) (\<lambda>vm'. vm_run I vm' rest)"
  using assms by (simp add: vm_step_def)

lemma run_unary:
  assumes "operand I op = 1" and "short_circuited vm = 0"
  shows "vm_run I (vm\<lparr>ops := op # ops vm\<rparr>) (Expr v # rest)
    = vm_run I vm (Expr (the (operate I op [v])) # rest)"
  using assms fire [of op "vm\<lparr>ops := op # ops vm, vals := v # vals vm\<rparr>" "ops vm"]
  by (cases vm) (simp add: vm_step_def)

lemma run_negated_leaf:
  assumes "negated_leaf t" and "well_arity (operand I) t" and "short_circuited vm = 0"
  shows "vm_run I vm (polish t @ rest) = vm_run I vm (Expr (tree_value I t) # rest)"
  using assms
proof (induction t arbitrary: vm)
  case (Unary op t)
  then have "vm_run I vm (polish (Unary op t) @ rest)
      = vm_run I (vm\<lparr>ops := op # ops vm\<rparr>) (polish t @ rest)"
    by (simp add: vm_step_def)
  also have "\<dots> = vm_run I (vm\<lparr>ops := op # ops vm\<rparr>) (Expr (tree_value I t) # rest)"
    using Unary by (intro Unary.IH) simp_all
  also have "\<dots> = vm_run I vm (Expr (tree_value I (Unary op t)) # rest)"
    using Unary.prems run_unary [of op vm] by simp
  finally show ?case .
qed simp_all

lemma run_binary:
  assumes "operand I op = 2" and "well_arity (operand I) r" and "negated_leaf r"
    and "short_circuited vm = 0" and "vals vm = []"
  shows "vm_run I (vm\<lparr>ops := op # ops vm\<rparr>) (Expr lv # polish r @ rest)
    = vm_run I vm (Expr (case short_circuit I op [lv] of Some (w, _) \<Rightarrow> w
        | None \<Rightarrow> the (operate I op [lv, tree_value I r])) # rest)"
proof (cases "short_circuit I op [lv]")
  case None
  let ?vm = "vm\<lparr>ops := op # ops vm, vals := [lv]\<rparr>"
  have "vm_run I (vm\<lparr>ops := op # ops vm\<rparr>) (Expr lv # polish r @ rest) = vm_run I ?vm (polish r @ rest)"
    using assms None by (subst run_push) (simp, subst vm_try_eval.simps, simp)
  also have "\<dots> = vm_run I ?vm (Expr (tree_value I r) # rest)"
    using assms by (intro run_negated_leaf) simp_all
  also have "\<dots> = vm_run I vm (Expr (the (operate I op [lv, tree_value I r])) # rest)"
    using assms fire [of op "vm\<lparr>ops := op # ops vm, vals := [tree_value I r, lv]\<rparr>" "ops vm"]
    by (cases vm) (simp add: vm_step_def)
  finally show ?thesis using None by simp
next
  case (Some wn)
  then obtain w where w: "short_circuit I op [lv] = Some (w, 1)"
    by (cases wn) (use short_circuit_one [of op "[lv]"] in auto)
  let ?vm = "vm\<lparr>vals := [w]\<rparr>"
  have sc: "vm_try_eval I (vm\<lparr>ops := op # ops vm, vals := [lv]\<rparr>)
      = vm_try_eval I (?vm\<lparr>short_circuited := 1 + short_circuited ?vm\<rparr>)"
    using assms w by (subst vm_try_eval.simps) (cases vm, simp)
  show ?thesis
  proof (cases "vm_try_eval I ?vm")
    case (Inl e)
    then show ?thesis
      using assms w sc try_eval_shift [of 1 ?vm] by (simp add: vm_step_def)
  next
    case (Inr vm')
    have "vm_run I (vm'\<lparr>short_circuited := Suc (short_circuited vm')\<rparr>) (polish r @ rest)
        = vm_run I vm' rest"
      using skip [OF assms(2), where vm = vm' and n = "short_circuited vm'"] by simp
    then show ?thesis
      using Inr assms w sc try_eval_shift [of 1 ?vm] by (simp add: vm_step_def)
  qed
qed

lemma run_left_deep:
  assumes "left_deep t" and "well_arity (operand I) t" and "short_circuited vm = 0"
    and "vals vm = []"
  shows "vm_run I vm (polish t @ rest) = vm_run I vm (Expr (tree_value I t) # rest)"
  using assms
proof (induction t arbitrary: vm rest)
  case (Unary op t)
  have "vm_run I vm (polish (Unary op t) @ rest)
      = vm_run I (vm\<lparr>ops := op # ops vm\<rparr>) (polish t @ rest)"
    using Unary.prems by (simp add: vm_step_def)
  also have "\<dots> = vm_run I (vm\<lparr>ops := op # ops vm\<rparr>) (Expr (tree_value I t) # rest)"
    using Unary by (intro Unary.IH) simp_all
  also have "\<dots> = vm_run I vm (Expr (tree_value I (Unary op t)) # rest)"
    using Unary.prems run_unary [of op vm] by simp
  finally show ?case .
next
  case (Binary op l r)
  have "vm_run I vm (polish (Binary op l r) @ rest)
      = vm_run I (vm\<lparr>ops := op # ops vm\<rparr>) (polish l @ polish r @ rest)"
    using Binary.prems by (simp add: vm_step_def)
  also have "\<dots> = vm_run I (vm\<lparr>ops := op # ops vm\<rparr>) (Expr (tree_value I l) # polish r @ rest)"
    using Binary by (intro Binary.IH(1)) simp_all
  also have "\<dots> = vm_run I vm (Expr (tree_value I (Binary op l r)) # rest)"
    using Binary.prems run_binary [of op r vm] by simp
  finally show ?case .
qed simp

lemma left_deep_value:
  assumes "left_deep t" and "well_arity (operand I) t"
  shows "try_run I (polish t) = Inr (tree_value I t)"
proof -
  have "vm_run I new_vm (polish t) = vm_run I new_vm [Expr (tree_value I t)]"
    using run_left_deep [OF assms, of new_vm "[]"] by (simp add: new_vm_def)
  also have "\<dots> = Inr \<lparr>short_circuited = 0, ops = [], vals = [tree_value I t]\<rparr>"
    by (simp add: vm_step_def new_vm_def vm_try_eval.simps)
  finally show ?thesis by (simp add: try_run_def vm_finish_def)
qed

end

section \<open>The three implementations meet the contract\<close>

lemma length_one_two:
  "length vs = Suc 0 \<longleftrightarrow> (\<exists>a. vs = [a])" "length vs = 2 \<longleftrightarrow> (\<exists>a b. vs = [a, b])"
  by (auto simp: length_Suc_conv numeral_2_eq_2)

interpretation bool_ops: operators bool_operator
proof
  show "operand bool_operator op = 1 \<or> operand bool_operator op = 2" for op
    by (cases op) (simp_all add: bool_operator_def)
  show "\<exists>v. operate bool_operator op vs = Some v" if "length vs = operand bool_operator op" for vs op
    using that by (cases op) (auto simp: bool_operator_def length_one_two)
  show "n = 1 \<and> vs \<noteq> []" if "short_circuit bool_operator op vs = Some (v, n)" for op vs v n
    using that by (cases op; cases vs) (auto simp: bool_operator_def split: if_splits)
qed

interpretation result_ops: operators "result_operator :: (boolean_operator, 'e + bool) be_operator"
proof
  fix op and vs :: "('e + bool) list" and v :: "'e + bool" and n
  let ?I = "result_operator :: (boolean_operator, 'e + bool) be_operator"
  show "operand ?I op = 1 \<or> operand ?I op = 2"
    by (cases op) (simp_all add: result_operator_def)
  show "\<exists>v. operate ?I op vs = Some v" if "length vs = operand ?I op"
    using that by (cases op) (auto simp: result_operator_def length_one_two)
  show "n = 1 \<and> vs \<noteq> []" if "short_circuit ?I op vs = Some (v, n)"
    using that by (cases op; cases vs) (auto simp: result_operator_def split: if_splits sum.splits)
qed

interpretation unit_ops: operators unit_operator
proof
  show "operand unit_operator op = 1 \<or> operand unit_operator op = 2" for op
    by (cases op) (simp_all add: unit_operator_def)
  show "\<exists>v. operate unit_operator op vs = Some v" if "length vs = operand unit_operator op" for vs op
    using that by (cases op) (auto simp: unit_operator_def unit_operate_def)
qed (simp add: unit_operator_def)

lemma operand_simps [simp]:
  "operand bool_operator = boolean_operand" "operand result_operator = boolean_operand"
  "operand unit_operator = boolean_operand"
  by (simp_all add: bool_operator_def result_operator_def unit_operator_def)

lemma weight_eval_part [simp]: "part_weight k (eval_part f p) = part_weight k p"
  by (cases p) simp_all

lemma is_expr_eval_part [simp]: "is_expr (eval_part f p) = is_expr p"
  by (cases p) simp_all

lemma arity_error_eval [simp]: "arity_error k (map (eval_part f) parts) = arity_error k parts"
  by (simp add: arity_error_def comp_def last_map cong: conj_cong disj_cong)

lemma weight_polish: "well_arity k t \<Longrightarrow> (\<Sum>p \<leftarrow> polish t. part_weight k p) = - 1"
  by (induction t) simp_all

lemma polish_last [simp]: "polish t \<noteq> []" "is_expr (last (polish t))"
  by (induction t) simp_all

lemma arity_error_polish: "well_arity k t \<Longrightarrow> arity_error k (polish t) = None"
  by (simp add: arity_error_def weight_polish)

lemma arity_error_not_missing: "arity_error k parts \<noteq> Some MissingOperands"
  by (simp add: arity_error_def Let_def)

section \<open>Denotation of boolean expressions\<close>

fun tree_map :: "('e \<Rightarrow> 'v) \<Rightarrow> ('op, 'e) tree \<Rightarrow> ('op, 'v) tree" where
  "tree_map f (Leaf a) = Leaf (f a)"
| "tree_map f (Unary op t) = Unary op (tree_map f t)"
| "tree_map f (Binary op l r) = Binary op (tree_map f l) (tree_map f r)"

lemma polish_tree_map: "map (eval_part f) (polish t) = polish (tree_map f t)"
  by (induction t) simp_all

lemma negated_leaf_tree_map [simp]: "negated_leaf (tree_map f t) = negated_leaf t"
  by (induction t) simp_all

lemma tree_map_shape [simp]:
  "left_deep (tree_map f t) = left_deep t" "well_arity k (tree_map f t) = well_arity k t"
  by (induction t) simp_all

text \<open>
  The intended value of an expression over booleans, and over results, where an error of a decisive
  operand is the outcome.
\<close>

fun denote :: "('e \<Rightarrow> bool) \<Rightarrow> (boolean_operator, 'e) tree \<Rightarrow> bool" where
  "denote f (Leaf a) = f a"
| "denote f (Unary op t) = (\<not> denote f t)"
| "denote f (Binary op l r) =
     (if op = And then denote f l \<and> denote f r else denote f l \<or> denote f r)"

fun result_denote :: "('e \<Rightarrow> 'err + bool) \<Rightarrow> (boolean_operator, 'e) tree \<Rightarrow> 'err + bool" where
  "result_denote f (Leaf a) = f a"
| "result_denote f (Unary op t) = and_then (result_denote f t) (\<lambda>b. Inr (\<not> b))"
| "result_denote f (Binary op l r) =
     and_then (result_denote f l) (\<lambda>b.
       if op = And then (if b then result_denote f r else Inr False)
       else (if b then Inr True else result_denote f r))"

lemma boolean_operand_cases:
  "boolean_operand op = 2 \<longleftrightarrow> op = And \<or> op = Or" "boolean_operand op = Suc 0 \<longleftrightarrow> op = Not"
  by (cases op; simp)+

lemma tree_value_bool:
  "well_arity boolean_operand t \<Longrightarrow> tree_value bool_operator (tree_map f t) = denote f t"
  by (induction t) (auto simp: bool_operator_def boolean_operand_cases)

lemma tree_value_result:
  "well_arity boolean_operand t \<Longrightarrow> tree_value result_operator (tree_map f t) = result_denote f t"
  by (induction t)
     (auto simp: result_operator_def boolean_operand_cases and_then_def split: sum.splits)

section \<open>Properties\<close>

text \<open>C2: whether a part sequence is accepted, and with which error it is rejected, depends on the
  parts alone: the arity check of \<open>validate_arity\<close> and the evaluations over booleans and over
  results all end with the outcome \<open>arity_error\<close> computes from the number of operands, and none
  of them ever reports \<open>MissingOperands\<close>.\<close>
theorem validate_arity_exact:
  "error_of (validate_arity parts) = arity_error boolean_operand parts
   \<and> error_of (exprs_try_eval bool_operator f parts) = arity_error boolean_operand parts
   \<and> error_of (exprs_try_eval result_operator g parts) = arity_error boolean_operand parts
   \<and> arity_error boolean_operand parts \<noteq> Some MissingOperands"
  using bool_ops.run_error [of "map (eval_part f) parts"]
    result_ops.run_error [of "map (eval_part g) parts"]
    unit_ops.run_error [of "map (eval_part (\<lambda>_. ())) parts"]
    arity_error_not_missing [of boolean_operand parts]
  by (simp add: validate_arity_def exprs_try_eval_def)

text \<open>C1: the machine computes the intended value of every expression whose right operands are atoms
  under negations: over booleans the logical value, over results the value with left-to-right
  short-circuiting, in which an error decides only if no earlier operand did.\<close>
theorem left_deep_evaluates:
  assumes "left_deep t" and "well_arity boolean_operand t"
  shows "exprs_try_eval bool_operator f (polish t) = Inr (denote f t)
    \<and> exprs_try_eval result_operator g (polish t) = Inr (result_denote g t)"
  using assms bool_ops.left_deep_value [of "tree_map f t"]
    result_ops.left_deep_value [of "tree_map g t"]
  by (simp add: exprs_try_eval_def polish_tree_map tree_value_bool tree_value_result)

theorem left_deep_evaluates_witness:
  "exprs_try_eval bool_operator id (polish (Binary Or (Binary And (Leaf False) (Leaf True)) (Unary Not (Leaf False))))
     = Inr True"
  by (subst left_deep_evaluates [THEN conjunct1]) simp_all

text \<open>A binary operator in the right operand fires against the value beneath it: the rule
  \<open>*? with a or b\<close>, the expression AND TRUE (OR a b), evaluates to \<open>b\<close>, and OR FALSE (AND a b)
  also evaluates to \<open>b\<close>; the intended values are \<open>a \<or> b\<close> and \<open>a \<and> b\<close>.\<close>
theorem nested_right_operand:
  "exprs_try_eval bool_operator id (polish (Binary And (Leaf True) (Binary Or (Leaf a) (Leaf b)))) = Inr b
   \<and> exprs_try_eval bool_operator id (polish (Binary Or (Leaf False) (Binary And (Leaf a) (Leaf b)))) = Inr b
   \<and> denote id (Binary And (Leaf True) (Binary Or (Leaf a) (Leaf b))) = (a \<or> b)
   \<and> denote id (Binary Or (Leaf False) (Binary And (Leaf a) (Leaf b))) = (a \<and> b)"
proof -
  have "exprs_try_eval bool_operator id (polish (Binary And (Leaf True) (Binary Or (Leaf x) (Leaf y)))) = Inr y
   \<and> exprs_try_eval bool_operator id (polish (Binary Or (Leaf False) (Binary And (Leaf x) (Leaf y)))) = Inr y"
    for x y
    by (cases x; cases y; code_simp)
  then show ?thesis by simp
qed

end
