(* ===== verification/Atomics.thy ===== *)
theory Atomics
  imports Patterns PolishVM
begin

text \<open>
  The crate \<open>dhttp-access\<close>, file \<open>access/src/expr/atomics.rs\<close> and \<open>access/src/action.rs\<close>: the atomic
  expressions of a rule, their construction, evaluation against a request and textual form.
\<close>

section \<open>Addresses\<close>

text \<open>\<open>std::net::IpAddr\<close>: addresses as their 32 and 128 bits.\<close>

datatype ip_addr = V4 "32 word" | V6 "128 word"

definition v4_octet :: "nat \<Rightarrow> 32 word \<Rightarrow> nat" where
  "v4_octet i ip = unat (take_bit 8 (drop_bit (8 * (3 - i)) ip))"

definition v6_segment :: "nat \<Rightarrow> 128 word \<Rightarrow> nat" where
  "v6_segment i ip = unat (take_bit 16 (drop_bit (16 * (7 - i)) ip))"

definition v4_is_loopback :: "32 word \<Rightarrow> bool" where
  "v4_is_loopback ip \<longleftrightarrow> v4_octet 0 ip = 127"

definition v4_is_private :: "32 word \<Rightarrow> bool" where
  "v4_is_private ip \<longleftrightarrow> v4_octet 0 ip = 10
     \<or> (v4_octet 0 ip = 172 \<and> 16 \<le> v4_octet 1 ip \<and> v4_octet 1 ip \<le> 31)
     \<or> (v4_octet 0 ip = 192 \<and> v4_octet 1 ip = 168)"

definition v4_is_link_local :: "32 word \<Rightarrow> bool" where
  "v4_is_link_local ip \<longleftrightarrow> v4_octet 0 ip = 169 \<and> v4_octet 1 ip = 254"

definition v6_is_loopback :: "128 word \<Rightarrow> bool" where
  "v6_is_loopback ip \<longleftrightarrow> ip = 1"

definition v6_is_unique_local :: "128 word \<Rightarrow> bool" where
  "v6_is_unique_local ip \<longleftrightarrow> v6_segment 0 ip div 512 = 126"

definition v6_is_unicast_link_local :: "128 word \<Rightarrow> bool" where
  "v6_is_unicast_link_local ip \<longleftrightarrow> v6_segment 0 ip div 64 = 1018"

datatype source = Lan | Wan

fun source_as_str :: "source \<Rightarrow> string" where
  "source_as_str Lan = ''lan''"
| "source_as_str Wan = ''wan''"

definition source_is_match :: "source \<Rightarrow> ip_addr \<Rightarrow> bool" where
  "source_is_match src ip =
     (let source_is_lan = (case ip of
            V4 ip \<Rightarrow> v4_is_loopback ip \<or> v4_is_private ip \<or> v4_is_link_local ip
          | V6 ip \<Rightarrow> v6_is_loopback ip \<or> v6_is_unique_local ip \<or> v6_is_unicast_link_local ip)
      in (src = Lan) = source_is_lan)"

section \<open>Actions\<close>

datatype connection_action = ConnAllow | ConnDeny

fun connection_action_as_str :: "connection_action \<Rightarrow> string" where
  "connection_action_as_str ConnAllow = ''allow''"
| "connection_action_as_str ConnDeny = ''deny''"

datatype request_action = Allow | Deny

fun request_action_as_str :: "request_action \<Rightarrow> string" where
  "request_action_as_str Allow = ''allow''"
| "request_action_as_str Deny = ''deny''"

section \<open>Atomic expressions\<close>

datatype eval_error = MissingClientName

definition eval_error_fallback :: "eval_error \<Rightarrow> request_action \<Rightarrow> request_action option" where
  "eval_error_fallback e matched_action = Some Deny"

datatype build_atomic_pattern_error = UnreachableAtomic string reachability_error

record 'r kv_pattern =
  kv_key :: "'r normal_pattern"
  kv_value :: "'r normal_pattern"

datatype 'r atomic = Any | ClientName "'r client_name_pattern" | Method "'r normal_pattern"
  | Header "'r kv_pattern" | Query "'r kv_pattern"

definition reachable ::
    "('r, 'q :: finite) engine \<Rightarrow> language \<Rightarrow> string \<Rightarrow> ('k, 'r) pattern
      \<Rightarrow> build_atomic_pattern_error + unit" where
  "reachable E L domain p =
     map_err (UnreachableAtomic domain)
       (validate_reachable (dfa_build E) L (p_text p) (regex_str E (p_regex p)))"

definition client_name_new ::
    "('r, 'q :: finite) engine \<Rightarrow> 'r client_name_pattern
      \<Rightarrow> build_atomic_pattern_error + 'r client_name_pattern" where
  "client_name_new E p =
     and_then (reachable E client_name_language ''client name'' p) (\<lambda>_. Inr p)"

definition method_new ::
    "('r, 'q :: finite) engine \<Rightarrow> 'r normal_pattern \<Rightarrow> build_atomic_pattern_error + 'r normal_pattern" where
  "method_new E p = and_then (reachable E http_method_language ''HTTP method'' p) (\<lambda>_. Inr p)"

definition kv_pattern_new ::
    "('r, 'q :: finite) engine \<Rightarrow> language \<Rightarrow> language \<Rightarrow> 'r normal_pattern \<Rightarrow> 'r normal_pattern
      \<Rightarrow> build_atomic_pattern_error + 'r kv_pattern" where
  "kv_pattern_new E KL VL key value =
     and_then (reachable E KL (label KL) key) (\<lambda>_.
       and_then (reachable E VL (label VL) value) (\<lambda>_.
         Inr \<lparr>kv_key = key, kv_value = value\<rparr>))"

definition new_header ::
    "('r, 'q :: finite) engine \<Rightarrow> 'r normal_pattern \<Rightarrow> 'r normal_pattern
      \<Rightarrow> build_atomic_pattern_error + 'r kv_pattern" where
  "new_header E = kv_pattern_new E header_name_language header_value_language"

definition new_query ::
    "('r, 'q :: finite) engine \<Rightarrow> 'r normal_pattern \<Rightarrow> 'r normal_pattern
      \<Rightarrow> build_atomic_pattern_error + 'r kv_pattern" where
  "new_query E = kv_pattern_new E query_key_language query_value_language"

definition kv_eval :: "('r, 'q) engine \<Rightarrow> 'r kv_pattern \<Rightarrow> string \<times> string \<Rightarrow> bool" where
  "kv_eval E kv pair =
     (pattern_is_match E (kv_key kv) (fst pair) \<and> pattern_is_match E (kv_value kv) (snd pair))"

text \<open>
  A header value comes with the outcome of \<open>HeaderValue::to_str\<close> (\<open>None\<close> for opaque bytes).
\<close>

definition header_eval :: "('r, 'q) engine \<Rightarrow> 'r kv_pattern \<Rightarrow> string \<times> string option \<Rightarrow> bool" where
  "header_eval E kv header =
     (case snd header of None \<Rightarrow> False | Some value \<Rightarrow> kv_eval E kv (fst header, value))"

section \<open>Requests\<close>

record http_request =
  req_client_name :: "string option"
  req_method :: string
  req_headers :: "(string \<times> string option) list"
  req_queries :: "(string \<times> string) list"

definition split_query_pair :: "string \<Rightarrow> string \<times> string" where
  "split_query_pair pair =
     (case split_once CHR ''='' pair of Some kv \<Rightarrow> kv | None \<Rightarrow> (pair, ''''))"

definition split_queries :: "string option \<Rightarrow> (string \<times> string) list" where
  "split_queries query =
     (case query of None \<Rightarrow> [] | Some q \<Rightarrow> map split_query_pair (split_on CHR ''&'' q))"

definition http_request_new ::
    "string option \<Rightarrow> string \<Rightarrow> (string \<times> string option) list \<Rightarrow> string option \<Rightarrow> http_request" where
  "http_request_new client_name meth headers query =
     \<lparr>req_client_name = client_name, req_method = meth, req_headers = headers,
      req_queries = split_queries query\<rparr>"

definition eval_atomic ::
    "('r, 'q) engine \<Rightarrow> http_request \<Rightarrow> 'r atomic \<Rightarrow> eval_error + bool" where
  "eval_atomic E request atom =
     (case atom of
        Any \<Rightarrow> Inr True
      | ClientName p \<Rightarrow>
          ok_or MissingClientName (map_option (pattern_is_match E p) (req_client_name request))
      | Method p \<Rightarrow> Inr (pattern_is_match E p (req_method request))
      | Header kv \<Rightarrow> Inr (list_ex (header_eval E kv) (req_headers request))
      | Query kv \<Rightarrow> Inr (list_ex (kv_eval E kv) (req_queries request)))"

section \<open>Textual form\<close>

definition BACKSLASH :: char where "BACKSLASH = CHR 0x5C"
definition QUOTE :: char where "QUOTE = CHR 0x22"

definition escape_text :: "string \<Rightarrow> string" where
  "escape_text s =
     replace_char QUOTE [BACKSLASH, QUOTE] (replace_char BACKSLASH [BACKSLASH, BACKSLASH] s)"

definition quoted :: "string \<Rightarrow> string" where
  "quoted s = [QUOTE] @ escape_text s @ [QUOTE]"

definition quoted_kv :: "'r kv_pattern \<Rightarrow> string" where
  "quoted_kv kv = quoted (p_text (kv_key kv)) @ '':'' @ quoted (p_text (kv_value kv))"

fun show_atomic :: "'r atomic \<Rightarrow> string" where
  "show_atomic Any = ''*?''"
| "show_atomic (ClientName p) = quoted (p_text p)"
| "show_atomic (Method p) = ''With Method '' @ quoted (p_text p)"
| "show_atomic (Header kv) = ''With Header '' @ quoted_kv kv"
| "show_atomic (Query kv) = ''With Query '' @ quoted_kv kv"

definition kv_eq :: "'r kv_pattern \<Rightarrow> 'r kv_pattern \<Rightarrow> bool" where
  "kv_eq a b \<longleftrightarrow> pattern_eq (kv_key a) (kv_key b) \<and> pattern_eq (kv_value a) (kv_value b)"

fun atomic_eq :: "'r atomic \<Rightarrow> 'r atomic \<Rightarrow> bool" where
  "atomic_eq Any Any = True"
| "atomic_eq (ClientName p) (ClientName q) = pattern_eq p q"
| "atomic_eq (Method p) (Method q) = pattern_eq p q"
| "atomic_eq (Header a) (Header b) = kv_eq a b"
| "atomic_eq (Query a) (Query b) = kv_eq a b"
| "atomic_eq _ _ = False"

section \<open>Rules over requests\<close>

type_synonym 'r exprs = "(boolean_operator, 'r atomic) part list"

definition rule_decision ::
    "('r, 'q) engine \<Rightarrow> http_request \<Rightarrow> 'r exprs \<Rightarrow> request_action \<Rightarrow> request_action option" where
  "rule_decision E request exprs action =
     rule_eval (eval_atomic E request) eval_error_fallback exprs action"

text \<open>The query string of key-value pairs.\<close>

definition join_query_pair :: "string \<times> string \<Rightarrow> string" where
  "join_query_pair kv = fst kv @ ''='' @ snd kv"

fun join_queries :: "(string \<times> string) list \<Rightarrow> string" where
  "join_queries [] = ''''"
| "join_queries [kv] = join_query_pair kv"
| "join_queries (kv # kvs) = join_query_pair kv @ ''&'' @ join_queries kvs"

lemma split_query_pair_join:
  "CHR ''='' \<notin> set k \<Longrightarrow> split_query_pair (join_query_pair (k, v)) = (k, v)"
  by (simp add: split_query_pair_def join_query_pair_def split_once_append)

lemma rule_eval_Deny_or:
  "rule_decision E request exprs action \<in> {None, Some action, Some Deny}"
  by (auto simp: rule_decision_def rule_eval_def eval_error_fallback_def split: sum.splits)

section \<open>Properties\<close>

text \<open>the query string of a request is split into exactly its key-value pairs: for keys without
  equals sign or ampersand and values without ampersand, splitting undoes joining.\<close>
theorem split_queries_join:
  assumes "\<forall>(k, v) \<in> set kvs. CHR ''='' \<notin> set k \<and> CHR ''&'' \<notin> set k \<and> CHR ''&'' \<notin> set v"
    and "kvs \<noteq> []"
  shows "req_queries (http_request_new client_name meth headers (Some (join_queries kvs))) = kvs"
proof -
  have "split_queries (Some (join_queries kvs)) = kvs"
    using assms
  proof (induction kvs rule: join_queries.induct)
    case (2 kv)
    obtain k v where kv: "kv = (k, v)" by fastforce
    with 2 have "split_on CHR ''&'' (join_query_pair kv) = [join_query_pair kv]"
      by (intro split_on_free) (auto simp: join_query_pair_def)
    with 2 kv show ?case by (simp add: split_queries_def split_query_pair_join)
  next
    case (3 kv kv' kvs)
    obtain k v where kv: "kv = (k, v)" by fastforce
    with 3 have "split_on CHR ''&'' (join_query_pair kv) = [join_query_pair kv]"
      by (intro split_on_free) (auto simp: join_query_pair_def)
    with 3 kv show ?case
      by (simp add: split_queries_def split_query_pair_join split_on_sep)
  qed simp
  then show ?thesis by (simp add: http_request_new_def)
qed

theorem split_queries_join_witness:
  "req_queries (http_request_new None ''GET'' [] (Some (join_queries [(''a'', ''1''), (''b'', ''x=y'')])))
     = [(''a'', ''1''), (''b'', ''x=y'')]"
  by (rule split_queries_join) simp_all

end
