(* ===== verification/RuleParser.thy ===== *)
theory RuleParser
  imports Atomics
begin

text \<open>
  The crate \<open>dhttp-access\<close>, files \<open>access/src/expr/parse.rs\<close> and the textual half of
  \<open>access/src/expr/exprs.rs\<close>: the lexer, the Polish and infix grammars of rule expressions, and
  their serialised form.  A grammar rule is a function from the remaining tokens to a match with
  the tokens after it; ordered choice tries its alternatives from left to right, as the parsing
  expression grammar does.  Source positions only serve error messages and are left out.
\<close>

section \<open>Tokens\<close>

datatype token = Unquoted string | Quoted string | Symbol char

fun token_len :: "token \<Rightarrow> nat" where
  "token_len (Unquoted s) = length s"
| "token_len (Quoted s) = length s"
| "token_len (Symbol c) = 1"

fun token_eq :: "token \<Rightarrow> string \<Rightarrow> bool" where
  "token_eq (Unquoted lit) other = eq_ignore_ascii_case lit other"
| "token_eq (Quoted lit) other = eq_ignore_ascii_case lit other"
| "token_eq (Symbol c) other = (other = [c])"

section \<open>The lexer\<close>

definition is_symbol :: "char \<Rightarrow> bool" where
  "is_symbol c \<longleftrightarrow> c = CHR ''('' \<or> c = CHR '')'' \<or> c = CHR '':''"

fun quoted_chars :: "string \<Rightarrow> string \<times> string" where
  "quoted_chars [] = ([], [])"
| "quoted_chars (c # s) =
     (if c = BACKSLASH \<and> s \<noteq> [] \<and> (hd s = QUOTE \<or> hd s = BACKSLASH) then
        (let (cs, rest) = quoted_chars (tl s) in (hd s # cs, rest))
      else if c \<noteq> QUOTE then (let (cs, rest) = quoted_chars s in (c # cs, rest))
      else ([], c # s))"

definition quoted_string :: "string \<Rightarrow> (string \<times> string) option" where
  "quoted_string s =
     (if s \<noteq> [] \<and> hd s = QUOTE then
        (case quoted_chars (tl s) of (cs, rest) \<Rightarrow>
           if rest \<noteq> [] \<and> hd rest = QUOTE then Some (cs, tl rest) else None)
      else None)"

fun unquoted_chars :: "string \<Rightarrow> string \<times> string" where
  "unquoted_chars [] = ([], [])"
| "unquoted_chars (c # s) =
     (if leading_space (c # s) \<noteq> None \<or> is_symbol c \<or> c = QUOTE then ([], c # s)
      else (let (cs, rest) = unquoted_chars s in (c # cs, rest)))"

definition lex_token :: "string \<Rightarrow> (token \<times> string) option" where
  "lex_token s =
     (case quoted_string s of
        Some (cs, rest) \<Rightarrow> Some (Quoted cs, rest)
      | None \<Rightarrow>
          (case unquoted_chars s of (cs, rest) \<Rightarrow>
             if cs \<noteq> [] then Some (Unquoted cs, rest)
             else if s \<noteq> [] \<and> is_symbol (hd s) then Some (Symbol (hd s), tl s)
             else None))"

lemma quoted_chars_length: "quoted_chars s = (cs, rest) \<Longrightarrow> length rest \<le> length s"
proof (induction s arbitrary: cs rest rule: quoted_chars.induct)
  case (2 c s)
  then show ?case
    by (cases s) (fastforce split: if_splits prod.splits)+
qed simp

lemma unquoted_chars_append: "unquoted_chars s = (cs, rest) \<Longrightarrow> s = cs @ rest"
  by (induction s arbitrary: cs) (auto split: if_splits prod.splits)

lemma trim_start_length: "length (trim_start s) \<le> length s"
proof (induction s rule: trim_start.induct)
  case (1 s)
  then show ?case
    by (subst trim_start.simps) (auto split: option.splits intro: le_trans)
qed

lemma lex_token_shorter: "lex_token s = Some (t, rest) \<Longrightarrow> length rest < length s"
  by (cases s)
     (auto simp: lex_token_def quoted_string_def split: option.splits prod.splits if_splits
        dest!: quoted_chars_length unquoted_chars_append)

text \<open>\<open>lexer::tokens\<close>: \<open>None\<close> where the input is not consumed to its end.\<close>

function lexer_tokens :: "string \<Rightarrow> token list option" where
  "lexer_tokens s =
     (let s = trim_start s in
      if s = [] then Some []
      else case lex_token s of
             None \<Rightarrow> None
           | Some (t, rest) \<Rightarrow> map_option (Cons t) (lexer_tokens rest))"
  by pat_completeness auto
termination
  by (relation "measure length")
     (auto dest!: lex_token_shorter intro: less_le_trans [OF _ trim_start_length])

declare lexer_tokens.simps [simp del]

section \<open>Grammar rules\<close>

datatype 'a rule_result = Matched 'a "token list" | Failed | OutOfFuel

definition rule_bind :: "'a rule_result \<Rightarrow> ('a \<Rightarrow> token list \<Rightarrow> 'b rule_result) \<Rightarrow> 'b rule_result" where
  "rule_bind r f = (case r of Matched x ts \<Rightarrow> f x ts | Failed \<Rightarrow> Failed | OutOfFuel \<Rightarrow> OutOfFuel)"

definition rule_or :: "'a rule_result \<Rightarrow> 'a rule_result \<Rightarrow> 'a rule_result" where
  "rule_or r q = (case r of Failed \<Rightarrow> q | _ \<Rightarrow> r)"

definition rule_map :: "('a \<Rightarrow> 'b) \<Rightarrow> 'a rule_result \<Rightarrow> 'b rule_result" where
  "rule_map f r = rule_bind r (\<lambda>x ts. Matched (f x) ts)"

lemma rule_bind_simps [simp]:
  "rule_bind (Matched x ts) f = f x ts" "rule_bind Failed f = Failed"
  "rule_bind OutOfFuel f = OutOfFuel"
  by (simp_all add: rule_bind_def)

lemma rule_or_simps [simp]:
  "rule_or (Matched x ts) q = Matched x ts" "rule_or Failed q = q" "rule_or OutOfFuel q = OutOfFuel"
  by (simp_all add: rule_or_def)

lemma rule_map_simps [simp]:
  "rule_map f (Matched x ts) = Matched (f x) ts" "rule_map f Failed = Failed"
  "rule_map f OutOfFuel = OutOfFuel"
  by (simp_all add: rule_map_def)

definition token_rule :: "(token \<Rightarrow> 'a option) \<Rightarrow> token list \<Rightarrow> 'a rule_result" where
  "token_rule f ts =
     (case ts of [] \<Rightarrow> Failed | t # ts' \<Rightarrow> (case f t of None \<Rightarrow> Failed | Some x \<Rightarrow> Matched x ts'))"

definition i_rule :: "string \<Rightarrow> token list \<Rightarrow> unit rule_result" where
  "i_rule literal = token_rule (\<lambda>t. case t of
     Unquoted l \<Rightarrow> if eq_ignore_ascii_case l literal then Some () else None
   | Quoted l \<Rightarrow> if eq_ignore_ascii_case l literal then Some () else None
   | Symbol _ \<Rightarrow> None)"

definition ikeyword :: "string \<Rightarrow> token list \<Rightarrow> unit rule_result" where
  "ikeyword literal = token_rule (\<lambda>t. case t of
     Unquoted l \<Rightarrow> if eq_ignore_ascii_case l literal then Some () else None | _ \<Rightarrow> None)"

definition s_rule :: "string \<Rightarrow> token list \<Rightarrow> unit rule_result" where
  "s_rule symbol = token_rule (\<lambda>t. case t of
     Symbol c \<Rightarrow> if token_eq t symbol then Some () else None | _ \<Rightarrow> None)"

text \<open>A string literal in the grammar matches any token that equals it.\<close>

definition literal_rule :: "string \<Rightarrow> token list \<Rightarrow> unit rule_result" where
  "literal_rule literal = token_rule (\<lambda>t. if token_eq t literal then Some () else None)"

datatype invalid_pattern_expr = PatternExpr string parse_pattern_error
  | AtomicExpr string build_atomic_pattern_error

type_synonym 'a parsed = "invalid_pattern_expr + 'a"

definition pattern_expr ::
    "('r, 'q) engine \<Rightarrow> string \<Rightarrow> token list \<Rightarrow> 'r normal_pattern parsed rule_result" where
  "pattern_expr E expr = token_rule (\<lambda>t. case t of
     Quoted lit \<Rightarrow> Some (map_err (PatternExpr expr) (normal_pattern_from_str E lit))
   | Unquoted lit \<Rightarrow> Some (map_err (PatternExpr expr) (normal_pattern_from_str E lit))
   | Symbol _ \<Rightarrow> None)"

definition client_name_pattern_rule ::
    "('r, 'q :: finite) engine \<Rightarrow> token list \<Rightarrow> 'r client_name_pattern parsed rule_result" where
  "client_name_pattern_rule E ts =
     rule_map (\<lambda>r. and_then r (\<lambda>p.
         map_err (PatternExpr ''client_name_pattern'') (client_name_pattern_from_str E (p_text p))))
       (pattern_expr E ''client_name_pattern'' ts)"

definition client_name_rule ::
    "('r, 'q :: finite) engine \<Rightarrow> token list \<Rightarrow> 'r client_name_pattern parsed rule_result" where
  "client_name_rule E ts =
     rule_map (\<lambda>r. and_then r (\<lambda>p.
         map_err (AtomicExpr ''client_name_pattern'') (client_name_new E p)))
       (client_name_pattern_rule E ts)"

definition method_pattern_rule ::
    "('r, 'q :: finite) engine \<Rightarrow> token list \<Rightarrow> 'r normal_pattern parsed rule_result" where
  "method_pattern_rule E ts =
     rule_map (\<lambda>r. and_then r (\<lambda>p. map_err (AtomicExpr ''method_pattern'') (method_new E p)))
       (pattern_expr E ''method_pattern'' ts)"

definition kv_pattern_expr ::
    "('r, 'q) engine \<Rightarrow> string \<Rightarrow> string \<Rightarrow> token list \<Rightarrow> 'r kv_pattern parsed rule_result" where
  "kv_pattern_expr E key_expr value_expr ts =
     rule_or
       (rule_bind (pattern_expr E key_expr ts) (\<lambda>key ts.
          rule_bind (literal_rule '':'' ts) (\<lambda>_ ts.
            rule_map (\<lambda>value.
                and_then key (\<lambda>key. and_then value (\<lambda>value.
                  Inr \<lparr>kv_key = key, kv_value = value\<rparr>)))
              (pattern_expr E value_expr ts))))
       (rule_map (\<lambda>key.
            and_then (map_err (PatternExpr value_expr) (normal_pattern_from_str E ''*'')) (\<lambda>value.
              and_then key (\<lambda>key. Inr \<lparr>kv_key = key, kv_value = value\<rparr>)))
          (pattern_expr E key_expr ts))"

definition header_pattern_rule ::
    "('r, 'q :: finite) engine \<Rightarrow> token list \<Rightarrow> 'r kv_pattern parsed rule_result" where
  "header_pattern_rule E ts =
     rule_map (\<lambda>r. and_then r (\<lambda>kv.
         map_err (AtomicExpr ''header_pattern'') (new_header E (kv_key kv) (kv_value kv))))
       (kv_pattern_expr E ''header_key'' ''header_value'' ts)"

definition query_pattern_rule ::
    "('r, 'q :: finite) engine \<Rightarrow> token list \<Rightarrow> 'r kv_pattern parsed rule_result" where
  "query_pattern_rule E ts =
     rule_map (\<lambda>r. and_then r (\<lambda>kv.
         map_err (AtomicExpr ''query_pattern'') (new_query E (kv_key kv) (kv_value kv))))
       (kv_pattern_expr E ''query_key'' ''query_value'' ts)"

definition ok_map :: "('a \<Rightarrow> 'b) \<Rightarrow> 'e + 'a \<Rightarrow> 'e + 'b" where
  "ok_map f r = and_then r (\<lambda>x. Inr (f x))"

definition header_rule ::
    "('r, 'q :: finite) engine \<Rightarrow> token list \<Rightarrow> 'r atomic parsed rule_result" where
  "header_rule E ts =
     rule_bind (i_rule ''header'' ts) (\<lambda>_ ts. rule_map (ok_map Header) (header_pattern_rule E ts))"

definition query_rule ::
    "('r, 'q :: finite) engine \<Rightarrow> token list \<Rightarrow> 'r atomic parsed rule_result" where
  "query_rule E ts =
     rule_bind (ikeyword ''query'' ts) (\<lambda>_ ts. rule_map (ok_map Query) (query_pattern_rule E ts))"

definition method_rule ::
    "('r, 'q :: finite) engine \<Rightarrow> token list \<Rightarrow> 'r atomic parsed rule_result" where
  "method_rule E ts =
     rule_bind (ikeyword ''method'' ts) (\<lambda>_ ts. rule_map (ok_map Method) (method_pattern_rule E ts))"

definition any_rule :: "token list \<Rightarrow> unit rule_result" where
  "any_rule = ikeyword ''*?''"

definition atomic_rule ::
    "('r, 'q :: finite) engine \<Rightarrow> token list \<Rightarrow> 'r atomic parsed rule_result" where
  "atomic_rule E ts =
     rule_or (rule_map (\<lambda>_. Inr Any) (any_rule ts))
       (rule_or
         (rule_bind (ikeyword ''with'' ts) (\<lambda>_ ts.
            rule_or (header_rule E ts) (rule_or (query_rule E ts) (method_rule E ts))))
         (rule_map (ok_map ClientName) (client_name_rule E ts)))"

section \<open>Polish notation\<close>

definition part_rule ::
    "('r, 'q :: finite) engine \<Rightarrow> token list \<Rightarrow> (boolean_operator, 'r atomic) part parsed rule_result" where
  "part_rule E ts =
     rule_or (rule_map (\<lambda>_. Inr (Operator Not)) (ikeyword ''not'' ts))
       (rule_or (rule_map (\<lambda>_. Inr (Operator And)) (ikeyword ''and'' ts))
         (rule_or (rule_map (\<lambda>_. Inr (Operator Or)) (ikeyword ''or'' ts))
           (rule_map (ok_map Expr) (atomic_rule E ts))))"

text \<open>Every part consumes a token, so the repetition ends; the fuel is the number of tokens.\<close>

fun parts_rule ::
    "('r, 'q :: finite) engine \<Rightarrow> nat \<Rightarrow> token list \<Rightarrow> (boolean_operator, 'r atomic) part parsed list rule_result" where
  "parts_rule E 0 ts = (if ts = [] then Matched [] [] else OutOfFuel)"
| "parts_rule E (Suc n) ts =
     rule_or (rule_bind (part_rule E ts) (\<lambda>p ts. rule_map (Cons p) (parts_rule E n ts)))
       (Matched [] ts)"

fun collect_results :: "('e + 'a) list \<Rightarrow> 'e + 'a list" where
  "collect_results [] = Inr []"
| "collect_results (r # rs) =
     and_then r (\<lambda>x. and_then (collect_results rs) (\<lambda>xs. Inr (x # xs)))"

datatype deserialize_exprs_error = DeLex string | DeParse string
  | DePattern invalid_pattern_expr | InvalidPolish eval_polish_error | NoFuel

text \<open>A rule is a whole-input rule: tokens left over are a parse error.\<close>

definition whole_input :: "'a rule_result \<Rightarrow> 'a option option" where
  "whole_input r = (case r of Matched x [] \<Rightarrow> Some (Some x) | OutOfFuel \<Rightarrow> None | _ \<Rightarrow> Some None)"

definition deserialize_exprs ::
    "('r, 'q :: finite) engine \<Rightarrow> string \<Rightarrow> deserialize_exprs_error + 'r exprs" where
  "deserialize_exprs E input =
     (case lexer_tokens input of
        None \<Rightarrow> Inl (DeLex input)
      | Some ts \<Rightarrow>
          (case whole_input (parts_rule E (length ts) ts) of
             None \<Rightarrow> Inl NoFuel
           | Some None \<Rightarrow> Inl (DeParse input)
           | Some (Some rs) \<Rightarrow>
               and_then (map_err DePattern (collect_results rs)) (\<lambda>exprs.
                 and_then (map_err InvalidPolish (validate_arity exprs)) (\<lambda>_. Inr exprs))))"

fun show_part :: "(boolean_operator, 'r atomic) part \<Rightarrow> string" where
  "show_part (Operator op) = show_operator op"
| "show_part (Expr a) = show_atomic a"

definition serialize_exprs :: "'r exprs \<Rightarrow> string" where
  "serialize_exprs parts = concat (map (\<lambda>p. show_part p @ '' '') parts)"

section \<open>Infix notation\<close>

definition chain_unary :: "boolean_operator \<Rightarrow> 'r exprs parsed \<Rightarrow> 'r exprs parsed" where
  "chain_unary op x = ok_map (\<lambda>x. Operator op # x) x"

definition chain_binary ::
    "boolean_operator \<Rightarrow> 'r exprs parsed \<Rightarrow> 'r exprs parsed \<Rightarrow> 'r exprs parsed" where
  "chain_binary op x y = and_then x (\<lambda>x. and_then y (\<lambda>y. Inr (Operator op # x @ y)))"

definition bracketed :: "(token list \<Rightarrow> 'a rule_result) \<Rightarrow> token list \<Rightarrow> 'a rule_result" where
  "bracketed r ts =
     rule_bind (s_rule ''('' ts) (\<lambda>_ ts.
       rule_bind (r ts) (\<lambda>x ts. rule_map (\<lambda>_. x) (s_rule '')'' ts)))"

text \<open>
  Precedence climbing over the levels of \<open>composite\<close>: level 0 holds the left-associative binary
  operators, level 1 the prefix operator, then come the atoms \<open>r\<close> and bracketed expressions.  The
  first number is fuel; \<open>composite\<close> gives enough of it for its input.
\<close>

fun prefix_atom :: "(token list \<Rightarrow> 'r exprs parsed rule_result) \<Rightarrow> nat \<Rightarrow> token list
      \<Rightarrow> 'r exprs parsed rule_result"
  and climb :: "(token list \<Rightarrow> 'r exprs parsed rule_result) \<Rightarrow> nat \<Rightarrow> nat \<Rightarrow> token list
      \<Rightarrow> 'r exprs parsed rule_result"
  and climb_loop :: "(token list \<Rightarrow> 'r exprs parsed rule_result) \<Rightarrow> nat \<Rightarrow> nat \<Rightarrow> 'r exprs parsed
      \<Rightarrow> token list \<Rightarrow> 'r exprs parsed rule_result" where
  "prefix_atom r 0 ts = OutOfFuel"
| "prefix_atom r (Suc n) ts =
     rule_or (rule_bind (ikeyword ''not'' ts) (\<lambda>_ ts. rule_map (chain_unary Not) (climb r n 1 ts)))
       (rule_or (r ts) (bracketed (\<lambda>ts. climb r n 0 ts) ts))"
| "climb r 0 min_prec ts = OutOfFuel"
| "climb r (Suc n) min_prec ts =
     rule_bind (prefix_atom r n ts) (\<lambda>x ts. climb_loop r n min_prec x ts)"
| "climb_loop r 0 min_prec x ts = OutOfFuel"
| "climb_loop r (Suc n) min_prec x ts =
     (if 0 < min_prec then Matched x ts
      else rule_or
        (rule_bind (ikeyword ''and'' ts) (\<lambda>_ ts.
           rule_bind (climb r n 1 ts) (\<lambda>y ts. climb_loop r n min_prec (chain_binary And x y) ts)))
        (rule_or
          (rule_bind (ikeyword ''or'' ts) (\<lambda>_ ts.
             rule_bind (climb r n 1 ts) (\<lambda>y ts. climb_loop r n min_prec (chain_binary Or x y) ts)))
          (Matched x ts)))"

definition composite ::
    "(token list \<Rightarrow> 'r exprs parsed rule_result) \<Rightarrow> token list \<Rightarrow> 'r exprs parsed rule_result" where
  "composite r ts = climb r (3 * length ts + 2) 0 ts"

definition bracketed_composite_or_atomic ::
    "(token list \<Rightarrow> 'r exprs parsed rule_result) \<Rightarrow> token list \<Rightarrow> 'r exprs parsed rule_result" where
  "bracketed_composite_or_atomic r ts = rule_or (bracketed (composite r) ts) (r ts)"

definition possible_negative_expr ::
    "(token list \<Rightarrow> 'r exprs parsed rule_result) \<Rightarrow> token list \<Rightarrow> 'r exprs parsed rule_result" where
  "possible_negative_expr r ts =
     rule_or (rule_bind (ikeyword ''not'' ts) (\<lambda>_ ts. rule_map (chain_unary Not) (r ts))) (r ts)"

definition header_atom ::
    "('r, 'q :: finite) engine \<Rightarrow> token list \<Rightarrow> 'r exprs parsed rule_result" where
  "header_atom E ts = rule_map (ok_map (\<lambda>kv. [Expr (Header kv)])) (header_pattern_rule E ts)"

definition query_atom ::
    "('r, 'q :: finite) engine \<Rightarrow> token list \<Rightarrow> 'r exprs parsed rule_result" where
  "query_atom E ts = rule_map (ok_map (\<lambda>kv. [Expr (Query kv)])) (query_pattern_rule E ts)"

definition method_atom ::
    "('r, 'q :: finite) engine \<Rightarrow> token list \<Rightarrow> 'r exprs parsed rule_result" where
  "method_atom E ts = rule_map (ok_map (\<lambda>p. [Expr (Method p)])) (method_pattern_rule E ts)"

definition location_patterns ::
    "('r, 'q :: finite) engine \<Rightarrow> token list \<Rightarrow> 'r exprs parsed rule_result" where
  "location_patterns E ts =
     rule_or
       (rule_bind (ikeyword ''header'' ts) (\<lambda>_ ts. bracketed_composite_or_atomic (header_atom E) ts))
       (rule_or
         (rule_bind (ikeyword ''query'' ts) (\<lambda>_ ts. bracketed_composite_or_atomic (query_atom E) ts))
         (rule_bind (ikeyword ''method'' ts) (\<lambda>_ ts.
            bracketed_composite_or_atomic (possible_negative_expr (method_atom E)) ts)))"

definition with_rule ::
    "(token list \<Rightarrow> 'r exprs parsed rule_result) \<Rightarrow> token list \<Rightarrow> 'r exprs parsed rule_result" where
  "with_rule r ts =
     rule_or (rule_bind (ikeyword ''with'' ts) (\<lambda>_ ts. r ts))
       (rule_bind (ikeyword ''without'' ts) (\<lambda>_ ts. rule_map (chain_unary Not) (r ts)))"

definition location_profile ::
    "('r, 'q :: finite) engine \<Rightarrow> token list \<Rightarrow> 'r atomic parsed rule_result" where
  "location_profile E ts =
     rule_or (rule_map (\<lambda>_. Inr Any) (any_rule ts)) (rule_map (ok_map ClientName) (client_name_rule E ts))"

definition infix_location_rule_exprs ::
    "('r, 'q :: finite) engine \<Rightarrow> token list \<Rightarrow> 'r exprs parsed rule_result" where
  "infix_location_rule_exprs E ts =
     rule_bind (location_profile E ts) (\<lambda>profile ts.
       let profile = ok_map (\<lambda>a. [Expr a]) profile in
       rule_or
         (rule_map (chain_binary And profile) (with_rule (composite (location_patterns E)) ts))
         (Matched profile ts))"

record 'r location_rule_exprs =
  infix_text :: string
  polish_parts :: "'r exprs"

datatype parse_exprs_error = ParsePattern invalid_pattern_expr | Incomplete string | ParseNoFuel

definition exprs_from_str ::
    "('r, 'q :: finite) engine \<Rightarrow> string \<Rightarrow> parse_exprs_error + 'r location_rule_exprs" where
  "exprs_from_str E input =
     (case lexer_tokens input of
        None \<Rightarrow> Inl (Incomplete input)
      | Some ts \<Rightarrow>
          (case whole_input (infix_location_rule_exprs E ts) of
             None \<Rightarrow> Inl ParseNoFuel
           | Some None \<Rightarrow> Inl (Incomplete input)
           | Some (Some r) \<Rightarrow>
               and_then (map_err ParsePattern r) (\<lambda>parts.
                 Inr \<lparr>infix_text = input, polish_parts = parts\<rparr>)))"

definition show_exprs :: "'r location_rule_exprs \<Rightarrow> string" where
  "show_exprs e =
     (case polish_parts e of
        [Expr (ClientName p)] \<Rightarrow>
          (case strip_suffix DHTTP_SUFFIX (p_text p) of
             Some prefix \<Rightarrow> if prefix \<noteq> [] then prefix @ ''~'' else p_text p
           | None \<Rightarrow> p_text p)
      | _ \<Rightarrow> infix_text e)"

text \<open>A rule given as the words of a command line: the words joined by one space; the error is reported by \<open>clap\<close>.\<close>

fun join_words :: "string list \<Rightarrow> string" where
  "join_words [] = []"
| "join_words [w] = w"
| "join_words (w # ws) = w @ CHR '' '' # join_words ws"

definition exprs_from_words ::
    "('r, 'q :: finite) engine \<Rightarrow> string list \<Rightarrow> parse_exprs_error + 'r location_rule_exprs" where
  "exprs_from_words E ws = exprs_from_str E (join_words ws)"

text \<open>\<open>update_from_arg_matches\<close>: the rule is kept if the words are refused.\<close>

definition update_from_words ::
    "('r, 'q :: finite) engine \<Rightarrow> string list \<Rightarrow> 'r location_rule_exprs
      \<Rightarrow> (parse_exprs_error + unit) \<times> 'r location_rule_exprs" where
  "update_from_words E ws rule =
     (case exprs_from_words E ws of Inl e \<Rightarrow> (Inl e, rule) | Inr replacement \<Rightarrow> (Inr (), replacement))"

text \<open>A shell splits at spaces what the command joins again.\<close>

lemma join_words_split: "join_words (split_on (CHR '' '') s) = s"
proof (induction s)
  case (Cons c s)
  then show ?case by (cases "split_on (CHR '' '') s"; cases "tl (split_on (CHR '' '') s)") auto
qed simp

lemma split_words_same_rule: "exprs_from_words E (split_on (CHR '' '') s) = exprs_from_str E s"
  by (simp add: exprs_from_words_def join_words_split)

text \<open>\<open>AtomicLocationRuleExpr::from_str\<close>.\<close>

definition atomic_from_str ::
    "('r, 'q :: finite) engine \<Rightarrow> string \<Rightarrow> parse_exprs_error + 'r atomic" where
  "atomic_from_str E input =
     (case lexer_tokens input of
        None \<Rightarrow> Inl (Incomplete input)
      | Some ts \<Rightarrow>
          (case whole_input (atomic_rule E ts) of
             None \<Rightarrow> Inl ParseNoFuel
           | Some None \<Rightarrow> Inl (Incomplete input)
           | Some (Some r) \<Rightarrow> map_err ParsePattern r))"

section \<open>Lexing a serialised expression\<close>

lemma trim_start_solid: "s \<noteq> [] \<Longrightarrow> solid (hd s) \<Longrightarrow> trim_start s = s"
  by (subst trim_start.simps) (simp add: leading_space_solid)

lemma leading_space_blank: "leading_space (CHR '' '' # s) = Some '' ''"
  by (simp add: leading_space_def white_space_def starts_with_def)

lemma trim_start_blank: "trim_start (CHR '' '' # s) = trim_start s"
  by (subst trim_start.simps) (simp add: leading_space_blank)

lemma lexer_blank: "lexer_tokens (CHR '' '' # s) = lexer_tokens s"
  by (subst (1 2) lexer_tokens.simps) (simp add: trim_start_blank)

lemma lexer_nil [simp]: "lexer_tokens [] = Some []"
  by (subst lexer_tokens.simps) (subst trim_start.simps, simp add: leading_space_solid)

lemma escape_simps [simp]:
  "escape_text [] = []"
  "escape_text (c # t) =
     (if c = BACKSLASH then BACKSLASH # BACKSLASH # escape_text t
      else if c = QUOTE then BACKSLASH # QUOTE # escape_text t
      else c # escape_text t)"
  by (simp_all add: escape_text_def BACKSLASH_def QUOTE_def)

lemma quoted_chars_escape: "quoted_chars (escape_text t @ QUOTE # s) = (t, QUOTE # s)"
proof (induction t)
  case Nil
  show ?case by (simp add: QUOTE_def BACKSLASH_def)
next
  case (Cons c t)
  have "c \<noteq> BACKSLASH \<Longrightarrow> c \<noteq> QUOTE \<Longrightarrow> ?case" using Cons by simp
  moreover have "BACKSLASH \<noteq> QUOTE" by (simp add: QUOTE_def BACKSLASH_def)
  ultimately show ?case using Cons by auto
qed

lemma solid_QUOTE: "solid QUOTE" "solid CHR '':''"
  by (rule solid_graphic; simp add: QUOTE_def code_def)+

lemma lexer_quoted:
  "lexer_tokens (quoted t @ s) = map_option (Cons (Quoted t)) (lexer_tokens s)"
proof -
  have "lex_token (QUOTE # escape_text t @ QUOTE # s) = Some (Quoted t, s)"
    by (simp add: lex_token_def quoted_string_def quoted_chars_escape)
  then show ?thesis
    by (subst lexer_tokens.simps) (simp add: quoted_def trim_start_solid solid_QUOTE)
qed

lemma lexer_colon: "lexer_tokens (CHR '':'' # s) = map_option (Cons (Symbol CHR '':'')) (lexer_tokens s)"
proof -
  have "lex_token (CHR '':'' # s) = Some (Symbol CHR '':'', s)"
    by (simp add: lex_token_def quoted_string_def QUOTE_def is_symbol_def)
  then show ?thesis
    by (subst lexer_tokens.simps) (simp add: trim_start_solid solid_QUOTE)
qed

definition word_char :: "char \<Rightarrow> bool" where
  "word_char c \<longleftrightarrow> solid c \<and> \<not> is_symbol c \<and> c \<noteq> QUOTE"

lemma unquoted_word:
  "(\<And>c. c \<in> set w \<Longrightarrow> word_char c) \<Longrightarrow> unquoted_chars (w @ CHR '' '' # s) = (w, CHR '' '' # s)"
proof (induction w)
  case Nil
  show ?case by (simp add: leading_space_blank)
next
  case (Cons c w)
  then have "word_char c" by simp
  then have "leading_space (c # w @ CHR '' '' # s) = None" "\<not> is_symbol c" "c \<noteq> QUOTE"
    by (simp_all add: word_char_def leading_space_solid)
  with Cons show ?case by simp
qed

lemma lexer_word:
  assumes "w \<noteq> []" and "\<And>c. c \<in> set w \<Longrightarrow> word_char c"
  shows "lexer_tokens (w @ CHR '' '' # s) = map_option (Cons (Unquoted w)) (lexer_tokens s)"
proof -
  obtain c w' where w: "w = c # w'" using assms(1) by (cases w) auto
  then have c: "solid c" "c \<noteq> QUOTE" using assms(2) [of c] by (auto simp: word_char_def)
  have "unquoted_chars (w @ CHR '' '' # s) = (w, CHR '' '' # s)"
    using assms(2) by (rule unquoted_word)
  moreover have "quoted_string (w @ CHR '' '' # s) = None"
    using w c by (simp add: quoted_string_def)
  ultimately have "lex_token (w @ CHR '' '' # s) = Some (Unquoted w, CHR '' '' # s)"
    using assms(1) by (simp add: lex_token_def)
  moreover have "trim_start (w @ CHR '' '' # s) = w @ CHR '' '' # s"
    using w c by (simp add: trim_start_solid)
  ultimately show ?thesis
    using w by (subst lexer_tokens.simps) (simp add: lexer_blank)
qed

lemma word_chars:
  "c \<in> set ''ANDORTWithMethodHeaderQuery*?'' \<Longrightarrow> word_char c"
proof -
  assume "c \<in> set ''ANDORTWithMethodHeaderQuery*?''"
  then have "33 \<le> code c \<and> code c < 128 \<and> \<not> is_symbol c \<and> c \<noteq> QUOTE"
    by (auto simp: code_def is_symbol_def QUOTE_def)
  then show ?thesis by (simp add: word_char_def solid_graphic)
qed

fun kv_tokens :: "'r kv_pattern \<Rightarrow> token list" where
  "kv_tokens kv = [Quoted (p_text (kv_key kv)), Symbol CHR '':'', Quoted (p_text (kv_value kv))]"

fun part_tokens :: "(boolean_operator, 'r atomic) part \<Rightarrow> token list" where
  "part_tokens (Operator op) = [Unquoted (show_operator op)]"
| "part_tokens (Expr Any) = [Unquoted ''*?'']"
| "part_tokens (Expr (ClientName p)) = [Quoted (p_text p)]"
| "part_tokens (Expr (Method p)) = [Unquoted ''With'', Unquoted ''Method'', Quoted (p_text p)]"
| "part_tokens (Expr (Header kv)) = [Unquoted ''With'', Unquoted ''Header''] @ kv_tokens kv"
| "part_tokens (Expr (Query kv)) = [Unquoted ''With'', Unquoted ''Query''] @ kv_tokens kv"

lemma lexer_word':
  "w \<noteq> [] \<Longrightarrow> set w \<subseteq> set ''ANDORTWithMethodHeaderQuery*?'' \<Longrightarrow>
     lexer_tokens (w @ CHR '' '' # s) = map_option (Cons (Unquoted w)) (lexer_tokens s)"
  using word_chars by (intro lexer_word) blast+

lemma lexer_words:
  "lexer_tokens (CHR ''W'' # CHR ''i'' # CHR ''t'' # CHR ''h'' # CHR '' '' # s)
     = map_option (Cons (Unquoted ''With'')) (lexer_tokens s)"
  "lexer_tokens (CHR ''M'' # CHR ''e'' # CHR ''t'' # CHR ''h'' # CHR ''o'' # CHR ''d'' # CHR '' '' # s)
     = map_option (Cons (Unquoted ''Method'')) (lexer_tokens s)"
  "lexer_tokens (CHR ''H'' # CHR ''e'' # CHR ''a'' # CHR ''d'' # CHR ''e'' # CHR ''r'' # CHR '' '' # s)
     = map_option (Cons (Unquoted ''Header'')) (lexer_tokens s)"
  "lexer_tokens (CHR ''Q'' # CHR ''u'' # CHR ''e'' # CHR ''r'' # CHR ''y'' # CHR '' '' # s)
     = map_option (Cons (Unquoted ''Query'')) (lexer_tokens s)"
  "lexer_tokens (CHR ''*'' # CHR ''?'' # CHR '' '' # s)
     = map_option (Cons (Unquoted ''*?'')) (lexer_tokens s)"
  using lexer_word' [of "''With''" s] lexer_word' [of "''Method''" s] lexer_word' [of "''Header''" s]
    lexer_word' [of "''Query''" s] lexer_word' [of "''*?''" s]
  by simp_all

lemma lexer_operator:
  "lexer_tokens (show_operator op @ CHR '' '' # s)
     = map_option (Cons (Unquoted (show_operator op))) (lexer_tokens s)"
  by (cases op; rule lexer_word'; simp)

lemma lexer_part:
  "lexer_tokens (show_part p @ CHR '' '' # s) = map_option ((@) (part_tokens p)) (lexer_tokens s)"
proof (cases p)
  case (Operator op)
  have "(@) [t] = Cons t" for t :: token by (auto simp: fun_eq_iff)
  with Operator show ?thesis by (simp add: lexer_operator)
next
  case (Expr a)
  show ?thesis
    by (cases a; cases "lexer_tokens s")
       (simp_all add: Expr lexer_words lexer_quoted lexer_colon lexer_blank quoted_kv_def)
qed

lemma lexer_serialize: "lexer_tokens (serialize_exprs parts) = Some (concat (map part_tokens parts))"
  by (induction parts) (simp_all add: serialize_exprs_def lexer_part)

section \<open>Parsing a serialised expression\<close>

text \<open>An atom as the constructors of the source make it.\<close>

fun atom_ok :: "('r, 'q :: finite) engine \<Rightarrow> 'r atomic \<Rightarrow> bool" where
  "atom_ok E Any \<longleftrightarrow> True"
| "atom_ok E (ClientName p) \<longleftrightarrow>
     client_name_pattern_from_str E (p_text p) = Inr p \<and> client_name_new E p = Inr p"
| "atom_ok E (Method p) \<longleftrightarrow> normal_pattern_from_str E (p_text p) = Inr p \<and> method_new E p = Inr p"
| "atom_ok E (Header kv) \<longleftrightarrow> normal_pattern_from_str E (p_text (kv_key kv)) = Inr (kv_key kv)
     \<and> normal_pattern_from_str E (p_text (kv_value kv)) = Inr (kv_value kv)
     \<and> new_header E (kv_key kv) (kv_value kv) = Inr kv"
| "atom_ok E (Query kv) \<longleftrightarrow> normal_pattern_from_str E (p_text (kv_key kv)) = Inr (kv_key kv)
     \<and> normal_pattern_from_str E (p_text (kv_value kv)) = Inr (kv_value kv)
     \<and> new_query E (kv_key kv) (kv_value kv) = Inr kv"

fun part_ok :: "('r, 'q :: finite) engine \<Rightarrow> (boolean_operator, 'r atomic) part \<Rightarrow> bool" where
  "part_ok E (Operator op) = True"
| "part_ok E (Expr a) = atom_ok E a"

lemma keyword_simps [simp]:
  "ikeyword k [] = Failed" "ikeyword k (Quoted l # ts) = Failed" "ikeyword k (Symbol c # ts) = Failed"
  "ikeyword k (Unquoted l # ts) = (if eq_ignore_ascii_case l k then Matched () ts else Failed)"
  "i_rule k [] = Failed" "i_rule k (Symbol c # ts) = Failed"
  "i_rule k (Unquoted l # ts) = (if eq_ignore_ascii_case l k then Matched () ts else Failed)"
  "i_rule k (Quoted l # ts) = (if eq_ignore_ascii_case l k then Matched () ts else Failed)"
  by (simp_all add: ikeyword_def i_rule_def token_rule_def)

lemma pattern_expr_simps [simp]:
  "pattern_expr E x [] = Failed" "pattern_expr E x (Symbol c # ts) = Failed"
  "pattern_expr E x (Quoted l # ts) = Matched (map_err (PatternExpr x) (normal_pattern_from_str E l)) ts"
  "pattern_expr E x (Unquoted l # ts) = Matched (map_err (PatternExpr x) (normal_pattern_from_str E l)) ts"
  by (simp_all add: pattern_expr_def token_rule_def)

lemma keyword_table [simp]:
  "eq_ignore_ascii_case ''With'' ''with''" "eq_ignore_ascii_case ''Method'' ''method''"
  "eq_ignore_ascii_case ''Header'' ''header''" "eq_ignore_ascii_case ''Query'' ''query''"
  "eq_ignore_ascii_case ''*?'' ''*?''" "eq_ignore_ascii_case ''NOT'' ''not''"
  "eq_ignore_ascii_case ''AND'' ''and''" "eq_ignore_ascii_case ''OR'' ''or''"
  "\<not> eq_ignore_ascii_case ''With'' ''not''" "\<not> eq_ignore_ascii_case ''With'' ''and''"
  "\<not> eq_ignore_ascii_case ''With'' ''or''" "\<not> eq_ignore_ascii_case ''With'' ''*?''"
  "\<not> eq_ignore_ascii_case ''*?'' ''not''" "\<not> eq_ignore_ascii_case ''*?'' ''and''"
  "\<not> eq_ignore_ascii_case ''*?'' ''or''" "\<not> eq_ignore_ascii_case ''AND'' ''not''"
  "\<not> eq_ignore_ascii_case ''OR'' ''not''" "\<not> eq_ignore_ascii_case ''OR'' ''and''"
  "\<not> eq_ignore_ascii_case ''Method'' ''header''" "\<not> eq_ignore_ascii_case ''Method'' ''query''"
  "\<not> eq_ignore_ascii_case ''Query'' ''header''"
  by code_simp+

lemma literal_colon [simp]: "literal_rule '':'' (Symbol CHR '':'' # ts) = Matched () ts"
  by (simp add: literal_rule_def token_rule_def)

lemma kv_pattern_tokens:
  assumes "normal_pattern_from_str E (p_text (kv_key kv)) = Inr (kv_key kv)"
    and "normal_pattern_from_str E (p_text (kv_value kv)) = Inr (kv_value kv)"
  shows "kv_pattern_expr E x y (kv_tokens kv @ ts) = Matched (Inr kv) ts"
  using assms by (cases kv) (simp add: kv_pattern_expr_def)

lemma part_rule_tokens:
  assumes "part_ok E p"
  shows "part_rule E (part_tokens p @ ts) = Matched (Inr p) ts"
proof (cases p)
  case (Operator op)
  then show ?thesis by (cases op) (simp_all add: part_rule_def)
next
  case (Expr a)
  show ?thesis
  proof (cases a)
    case Any
    with Expr show ?thesis by (simp add: part_rule_def atomic_rule_def any_rule_def ok_map_def)
  next
    case (ClientName q)
    with Expr assms have q: "client_name_pattern_from_str E (p_text q) = Inr q" by simp
    then have "canonicalize_name_pattern (p_text q) = p_text q"
      using client_name_from_str_text by metis
    with q obtain n where n: "normal_pattern_from_str E (p_text q) = Inr n" "p_text n = p_text q"
      by (auto simp: client_name_pattern_from_str_def and_then_eq_Inr dest: normal_from_str_text)
    with q Expr ClientName assms show ?thesis
      by (simp add: part_rule_def atomic_rule_def any_rule_def ok_map_def client_name_rule_def
          client_name_pattern_rule_def)
  next
    case (Method q)
    with Expr assms show ?thesis
      by (simp add: part_rule_def atomic_rule_def any_rule_def ok_map_def method_rule_def
          method_pattern_rule_def header_rule_def query_rule_def)
  next
    case (Header kv)
    with Expr assms kv_pattern_tokens [of E kv] show ?thesis
      by (simp add: part_rule_def atomic_rule_def any_rule_def ok_map_def header_rule_def
          header_pattern_rule_def)
  next
    case (Query kv)
    with Expr assms kv_pattern_tokens [of E kv] show ?thesis
      by (simp add: part_rule_def atomic_rule_def any_rule_def ok_map_def header_rule_def query_rule_def
          query_pattern_rule_def)
  qed
qed

lemma parts_rule_tokens:
  assumes "\<forall>p \<in> set parts. part_ok E p" and "length parts \<le> n"
  shows "parts_rule E n (concat (map part_tokens parts)) = Matched (map Inr parts) []"
  using assms
proof (induction parts arbitrary: n)
  case Nil
  have "part_rule E [] = Failed"
    by (simp add: part_rule_def atomic_rule_def any_rule_def client_name_rule_def client_name_pattern_rule_def)
  then show ?case by (cases n) simp_all
next
  case (Cons p parts)
  then obtain m where "n = Suc m" by (cases n) auto
  with Cons show ?case by (simp add: part_rule_tokens)
qed

lemma collect_results_Inr [simp]: "collect_results (map Inr xs) = Inr xs"
  by (induction xs) simp_all

lemma part_tokens_nonempty: "1 \<le> length (part_tokens p)"
  by (cases p rule: part_tokens.cases) simp_all

lemma length_parts_tokens: "length parts \<le> length (concat (map part_tokens parts))"
  by (induction parts) (use part_tokens_nonempty in \<open>auto intro: add_le_mono [of 1, simplified]\<close>)

lemma deserialize_serialize:
  assumes "\<forall>p \<in> set parts. part_ok E p" and "validate_arity parts = Inr ()"
  shows "deserialize_exprs E (serialize_exprs parts) = Inr parts"
  using assms parts_rule_tokens [OF assms(1) length_parts_tokens]
  by (simp add: deserialize_exprs_def lexer_serialize whole_input_def)

section \<open>The infix grammar produces Polish notation\<close>

fun leaves :: "('op, 'e) tree \<Rightarrow> 'e set" where
  "leaves (Leaf a) = {a}"
| "leaves (Unary op t) = leaves t"
| "leaves (Binary op l r) = leaves l \<union> leaves r"

definition good :: "('r, 'q :: finite) engine \<Rightarrow> 'r exprs \<Rightarrow> bool" where
  "good E e \<longleftrightarrow>
     (\<exists>t. e = polish t \<and> well_arity boolean_operand t \<and> (\<forall>a \<in> leaves t. atom_ok E a))"

definition fits :: "('r, 'q :: finite) engine \<Rightarrow> nat \<Rightarrow> 'r exprs parsed rule_result \<Rightarrow> bool" where
  "fits E n R \<longleftrightarrow>
     (case R of Matched x ts \<Rightarrow> length ts < n \<and> (\<forall>e. x = Inr e \<longrightarrow> good E e)
              | Failed \<Rightarrow> True | OutOfFuel \<Rightarrow> False)"

definition sound :: "('r, 'q :: finite) engine \<Rightarrow> (token list \<Rightarrow> 'r exprs parsed rule_result) \<Rightarrow> bool" where
  "sound E r \<longleftrightarrow> (\<forall>ts. fits E (length ts) (r ts))"

lemma fits_simps [simp]:
  "fits E n Failed" "\<not> fits E n OutOfFuel"
  "fits E n (Matched x ts) \<longleftrightarrow> length ts < n \<and> (\<forall>e. x = Inr e \<longrightarrow> good E e)"
  by (simp_all add: fits_def)

lemma fits_mono: "fits E m R \<Longrightarrow> m \<le> n \<Longrightarrow> fits E n R"
  by (cases R) auto

lemma fits_or: "fits E n R \<Longrightarrow> fits E n Q \<Longrightarrow> fits E n (rule_or R Q)"
  by (cases R) auto

lemma good_unary: "good E e \<Longrightarrow> good E (Operator Not # e)"
  unfolding good_def by (elim exE conjE, rule_tac x = "Unary Not t" in exI) simp

lemma good_binary:
  assumes "good E x" and "good E y" and "op = And \<or> op = Or"
  shows "good E (Operator op # x @ y)"
proof -
  obtain t u where "x = polish t" "well_arity boolean_operand t" "\<forall>a \<in> leaves t. atom_ok E a"
    "y = polish u" "well_arity boolean_operand u" "\<forall>a \<in> leaves u. atom_ok E a"
    using assms unfolding good_def by blast
  with assms(3) show ?thesis
    unfolding good_def by (intro exI [of _ "Binary op t u"]) auto
qed

lemma good_atom: "atom_ok E a \<Longrightarrow> good E [Expr a]"
  unfolding good_def by (intro exI [of _ "Leaf a"]) simp

lemma chain_unary_Inr: "chain_unary op x = Inr e \<longleftrightarrow> (\<exists>y. x = Inr y \<and> e = Operator op # y)"
  by (cases x) (auto simp: chain_unary_def ok_map_def)

lemma chain_binary_Inr:
  "chain_binary op x y = Inr e \<longleftrightarrow> (\<exists>a b. x = Inr a \<and> y = Inr b \<and> e = Operator op # a @ b)"
  by (cases x; cases y) (auto simp: chain_binary_def)

lemma fits_not: "fits E n R \<Longrightarrow> fits E n (rule_map (chain_unary Not) R)"
  by (cases R) (auto simp: chain_unary_Inr intro: good_unary)

lemma ikeyword_shorter: "ikeyword k ts = Matched u ts' \<Longrightarrow> length ts' < length ts"
  by (auto simp: ikeyword_def token_rule_def split: list.splits option.splits)

lemma ikeyword_fuel [simp]: "ikeyword k ts \<noteq> OutOfFuel"
  by (auto simp: ikeyword_def token_rule_def split: list.splits option.splits)

lemma s_rule_shorter: "s_rule k ts = Matched u ts' \<Longrightarrow> length ts' < length ts"
  by (auto simp: s_rule_def token_rule_def split: list.splits option.splits)

lemma s_rule_fuel [simp]: "s_rule k ts \<noteq> OutOfFuel"
  by (auto simp: s_rule_def token_rule_def split: list.splits option.splits)

lemma fits_keyword:
  assumes "\<And>ts'. length ts' < length ts \<Longrightarrow> fits E n (f () ts')"
  shows "fits E n (rule_bind (ikeyword k ts) f)"
  using assms ikeyword_shorter [of k ts] ikeyword_fuel [of k ts]
  by (cases "ikeyword k ts") auto

lemma fits_bracketed:
  assumes "\<And>ts'. length ts' < length ts \<Longrightarrow> fits E (length ts') (r ts')"
  shows "fits E (length ts) (bracketed r ts)"
proof (cases "s_rule ''('' ts")
  case (Matched u ts1)
  then have ts1: "length ts1 < length ts" by (rule s_rule_shorter)
  show ?thesis
  proof (cases "r ts1")
    case r: (Matched x ts2)
    with assms [OF ts1] have x: "length ts2 < length ts1" "\<forall>e. x = Inr e \<longrightarrow> good E e" by auto
    show ?thesis
      using Matched r x ts1 s_rule_shorter [of "'')''" ts2] s_rule_fuel [of "'')''" ts2]
      by (cases "s_rule '')'' ts2") (auto simp: bracketed_def)
  qed (use Matched assms [OF ts1] in \<open>auto simp: bracketed_def\<close>)
qed (auto simp: bracketed_def)

lemma climb_fits:
  assumes r: "sound E r"
  shows "(\<forall>ts. 3 * length ts + 1 \<le> n \<longrightarrow> fits E (length ts) (prefix_atom r n ts))
    \<and> (\<forall>m ts. 3 * length ts + 2 \<le> n \<longrightarrow> fits E (length ts) (climb r n m ts))
    \<and> (\<forall>m x ts. 3 * length ts + 1 \<le> n \<longrightarrow> (\<forall>e. x = Inr e \<longrightarrow> good E e) \<longrightarrow>
          fits E (Suc (length ts)) (climb_loop r n m x ts))"
proof (induction n)
  case (Suc n)
  have climb: "fits E k (climb r n m ts)" if "length ts < l" "3 * l \<le> n" "length ts \<le> k" for k l m ts
  proof (rule fits_mono)
    show "fits E (length ts) (climb r n m ts)" using Suc that by simp
  qed (rule that)
  show ?case
  proof (intro conjI allI impI)
    fix ts :: "token list"
    assume n: "3 * length ts + 1 \<le> Suc n"
    have "fits E (length ts) (rule_bind (ikeyword ''not'' ts)
        (\<lambda>_ ts. rule_map (chain_unary Not) (climb r n 1 ts)))"
      using n by (intro fits_keyword fits_not climb [of _ "length ts"]) auto
    moreover have "fits E (length ts) (r ts)" using r by (simp add: sound_def)
    moreover have "fits E (length ts) (bracketed (\<lambda>ts. climb r n 0 ts) ts)"
      using n by (intro fits_bracketed climb [of _ "length ts"]) auto
    ultimately show "fits E (length ts) (prefix_atom r (Suc n) ts)"
      by (auto intro!: fits_or)
  next
    fix m and ts :: "token list"
    assume n: "3 * length ts + 2 \<le> Suc n"
    then have "fits E (length ts) (prefix_atom r n ts)" using Suc by simp
    then show "fits E (length ts) (climb r (Suc n) m ts)"
    proof (cases "prefix_atom r n ts")
      case (Matched x ts')
      with \<open>fits E (length ts) (prefix_atom r n ts)\<close>
      have "length ts' < length ts" "\<forall>e. x = Inr e \<longrightarrow> good E e" by auto
      moreover from this have "fits E (Suc (length ts')) (climb_loop r n m x ts')"
        using Suc n by simp
      ultimately show ?thesis using Matched by (auto intro: fits_mono)
    qed simp_all
  next
    fix m and x :: "'a exprs parsed" and ts :: "token list"
    assume n: "3 * length ts + 1 \<le> Suc n" and x: "\<forall>e. x = Inr e \<longrightarrow> good E e"
    have op: "fits E (Suc (length ts)) (rule_bind (ikeyword k ts) (\<lambda>_ ts.
        rule_bind (climb r n 1 ts) (\<lambda>y ts. climb_loop r n m (chain_binary op x y) ts)))"
      if op: "op = And \<or> op = Or" for k op
    proof (rule fits_keyword)
      fix ts1 :: "token list"
      assume ts1: "length ts1 < length ts"
      have y: "fits E (length ts1) (climb r n 1 ts1)"
        using ts1 n by (intro climb [of _ "length ts"]) auto
      show "fits E (Suc (length ts)) (rule_bind (climb r n 1 ts1)
          (\<lambda>y ts. climb_loop r n m (chain_binary op x y) ts))"
      proof (cases "climb r n 1 ts1")
        case (Matched y ts2)
        with y have y: "length ts2 < length ts1" "\<forall>e. y = Inr e \<longrightarrow> good E e" by auto
        with x op have "\<forall>e. chain_binary op x y = Inr e \<longrightarrow> good E e"
          by (auto simp: chain_binary_Inr intro: good_binary)
        with Suc y ts1 n have "fits E (Suc (length ts2)) (climb_loop r n m (chain_binary op x y) ts2)"
          by simp
        with Matched y ts1 show ?thesis by (auto intro: fits_mono)
      qed (use y in simp_all)
    qed
    show "fits E (Suc (length ts)) (climb_loop r (Suc n) m x ts)"
      using x op by (auto intro!: fits_or)
  qed
qed simp

lemma sound_composite: "sound E r \<Longrightarrow> sound E (composite r)"
  unfolding sound_def [of _ "composite r"] composite_def
  using climb_fits [of E r] by (intro allI) (blast intro: order_refl)

lemma sound_bracketed_or_atomic:
  assumes "sound E r" shows "sound E (bracketed_composite_or_atomic r)"
  using assms sound_composite [OF assms]
  by (auto simp: sound_def bracketed_composite_or_atomic_def intro!: fits_or fits_bracketed)

lemma sound_possible_negative:
  assumes "sound E r" shows "sound E (possible_negative_expr r)"
  using assms unfolding sound_def possible_negative_expr_def
  by (auto intro!: fits_or fits_keyword fits_not intro: fits_mono)

lemma pattern_expr_cases:
  assumes "pattern_expr E x ts = Matched r ts'"
  shows "length ts' < length ts"
    and "r = Inr p \<Longrightarrow> normal_pattern_from_str E (p_text p) = Inr p"
  using assms normal_from_str_text [of E _ p]
  by (auto simp: pattern_expr_def token_rule_def split: list.splits option.splits token.splits)

lemma pattern_expr_fuel [simp]: "pattern_expr E x ts \<noteq> OutOfFuel"
  by (auto simp: pattern_expr_def token_rule_def split: list.splits option.splits)

lemma literal_rule_cases:
  "literal_rule k ts = Matched u ts' \<Longrightarrow> length ts' < length ts" "literal_rule k ts \<noteq> OutOfFuel"
  by (auto simp: literal_rule_def token_rule_def split: list.splits option.splits)

lemma fits_method: "fits E (length ts) (method_atom E ts)"
  using pattern_expr_cases [of E "''method_pattern''" ts]
    pattern_expr_fuel [of E "''method_pattern''" ts]
  by (cases "pattern_expr E ''method_pattern'' ts")
     (auto simp: method_atom_def method_pattern_rule_def ok_map_def and_then_eq_Inr method_new_def
        intro!: good_atom)

definition kv_source :: "('r, 'q) engine \<Rightarrow> 'r kv_pattern \<Rightarrow> bool" where
  "kv_source E kv \<longleftrightarrow> normal_pattern_from_str E (p_text (kv_key kv)) = Inr (kv_key kv)
     \<and> normal_pattern_from_str E (p_text (kv_value kv)) = Inr (kv_value kv)"

lemma kv_default:
  "normal_pattern_from_str E t = Inr v \<Longrightarrow> normal_pattern_from_str E (p_text v) = Inr v"
  using normal_from_str_text by metis

lemma kv_pattern_expr_cases:
  "case kv_pattern_expr E x y ts of Matched r ts' \<Rightarrow> length ts' < length ts \<and> (\<forall>kv. r = Inr kv \<longrightarrow> kv_source E kv)
     | Failed \<Rightarrow> True | OutOfFuel \<Rightarrow> False"
proof (cases "pattern_expr E x ts")
  case (Matched key ts1)
  have key: "length ts1 < length ts" "\<And>k. key = Inr k \<Longrightarrow> normal_pattern_from_str E (p_text k) = Inr k"
    using pattern_expr_cases [OF Matched] by auto
  have default: "case rule_map (\<lambda>key.
            and_then (map_err (PatternExpr y) (normal_pattern_from_str E ''*'')) (\<lambda>value.
              and_then key (\<lambda>key. Inr \<lparr>kv_key = key, kv_value = value\<rparr>)))
          (pattern_expr E x ts) of Matched r ts' \<Rightarrow> length ts' < length ts \<and> (\<forall>kv. r = Inr kv \<longrightarrow> kv_source E kv)
     | Failed \<Rightarrow> True | OutOfFuel \<Rightarrow> False"
    using Matched key by (auto simp: and_then_eq_Inr kv_source_def intro: kv_default)
  show ?thesis
  proof (cases "literal_rule '':'' ts1")
    case colon: (Matched u ts2)
    then have ts2: "length ts2 < length ts1" by (rule literal_rule_cases)
    show ?thesis
    proof (cases "pattern_expr E y ts2")
      case (Matched val ts3)
      then have val: "length ts3 < length ts2"
        "\<And>v. val = Inr v \<Longrightarrow> normal_pattern_from_str E (p_text v) = Inr v"
        using pattern_expr_cases [OF Matched] by auto
      with key ts2 colon \<open>pattern_expr E x ts = _\<close> Matched show ?thesis
        by (auto simp: kv_pattern_expr_def and_then_eq_Inr kv_source_def)
    qed (use default colon \<open>pattern_expr E x ts = _\<close> in \<open>auto simp: kv_pattern_expr_def\<close>)
  qed (use default \<open>pattern_expr E x ts = _\<close> literal_rule_cases in \<open>auto simp: kv_pattern_expr_def\<close>)
qed (auto simp: kv_pattern_expr_def)

lemma new_kv_same:
  "new_header E k v = Inr kv \<Longrightarrow> kv = \<lparr>kv_key = k, kv_value = v\<rparr>"
  "new_query E k v = Inr kv \<Longrightarrow> kv = \<lparr>kv_key = k, kv_value = v\<rparr>"
  by (auto simp: new_header_def new_query_def kv_pattern_new_def and_then_eq_Inr)

lemma kv_atom_ok:
  assumes "kv_source E kv0"
  shows "new_header E (kv_key kv0) (kv_value kv0) = Inr kv \<Longrightarrow> atom_ok E (Header kv)"
    and "new_query E (kv_key kv0) (kv_value kv0) = Inr kv \<Longrightarrow> atom_ok E (Query kv)"
proof -
  assume h: "new_header E (kv_key kv0) (kv_value kv0) = Inr kv"
  from new_kv_same(1) [OF h] h assms show "atom_ok E (Header kv)" by (auto simp: kv_source_def)
next
  assume q: "new_query E (kv_key kv0) (kv_value kv0) = Inr kv"
  from new_kv_same(2) [OF q] q assms show "atom_ok E (Query kv)" by (auto simp: kv_source_def)
qed

lemma fits_header: "fits E (length ts) (header_atom E ts)"
  using kv_pattern_expr_cases [where E = E and x = "''header_key''" and y = "''header_value''" and ts = ts]
  by (cases "kv_pattern_expr E ''header_key'' ''header_value'' ts")
     (auto simp: header_atom_def header_pattern_rule_def ok_map_def and_then_eq_Inr
        intro!: good_atom kv_atom_ok)

lemma fits_query: "fits E (length ts) (query_atom E ts)"
  using kv_pattern_expr_cases [where E = E and x = "''query_key''" and y = "''query_value''" and ts = ts]
  by (cases "kv_pattern_expr E ''query_key'' ''query_value'' ts")
     (auto simp: query_atom_def query_pattern_rule_def ok_map_def and_then_eq_Inr
        intro!: good_atom kv_atom_ok)

lemma client_name_roundtrip:
  "client_name_pattern_from_str E s = Inr p \<Longrightarrow> client_name_pattern_from_str E (p_text p) = Inr p"
  using client_name_from_str_text [of E s p] by (simp add: client_name_pattern_from_str_def canonicalize_idem)

lemma location_profile_cases:
  "case location_profile E ts of Matched r ts' \<Rightarrow> length ts' < length ts \<and> (\<forall>a. r = Inr a \<longrightarrow> atom_ok E a)
     | Failed \<Rightarrow> True | OutOfFuel \<Rightarrow> False"
proof (cases "any_rule ts")
  case (Matched u ts')
  then show ?thesis
    using ikeyword_shorter [of "''*?''" ts] by (auto simp: location_profile_def any_rule_def)
next
  case Failed
  show ?thesis
    using Failed pattern_expr_cases(1) [of E "''client_name_pattern''" ts]
    by (cases "pattern_expr E ''client_name_pattern'' ts")
       (auto simp: location_profile_def client_name_rule_def client_name_pattern_rule_def ok_map_def
          and_then_eq_Inr client_name_new_def intro: client_name_roundtrip)
qed (simp add: any_rule_def)

lemma sound_location_patterns: "sound E (location_patterns E)"
proof -
  have "sound E (bracketed_composite_or_atomic (header_atom E))"
    "sound E (bracketed_composite_or_atomic (query_atom E))"
    "sound E (bracketed_composite_or_atomic (possible_negative_expr (method_atom E)))"
    by (intro sound_bracketed_or_atomic sound_possible_negative;
        simp add: sound_def fits_header fits_query fits_method)+
  then have "fits E (length ts) (bracketed_composite_or_atomic (header_atom E) ts')"
    "fits E (length ts) (bracketed_composite_or_atomic (query_atom E) ts')"
    "fits E (length ts) (bracketed_composite_or_atomic (possible_negative_expr (method_atom E)) ts')"
    if "length ts' < length ts" for ts ts'
    using that by (auto simp: sound_def intro: fits_mono)
  then show ?thesis
    unfolding sound_def location_patterns_def by (intro allI fits_or fits_keyword)
qed

lemma fits_infix: "fits E (length ts) (infix_location_rule_exprs E ts)"
proof (cases "location_profile E ts")
  case (Matched profile ts1)
  with location_profile_cases [where E = E and ts = ts]
  have ts1: "length ts1 < length ts" and a: "\<And>a. profile = Inr a \<Longrightarrow> atom_ok E a" by auto
  let ?profile = "ok_map (\<lambda>a. [Expr a]) profile"
  have profile: "\<forall>e. ?profile = Inr e \<longrightarrow> good E e"
    using a by (auto simp: ok_map_def and_then_eq_Inr intro: good_atom)
  have "fits E (length ts1) (composite (location_patterns E) ts')" if "length ts' < length ts1" for ts'
  proof (rule fits_mono)
    show "fits E (length ts') (composite (location_patterns E) ts')"
      using sound_composite [OF sound_location_patterns, of E] by (simp only: sound_def)
  qed (use that in simp)
  then have "fits E (length ts1) (with_rule (composite (location_patterns E)) ts1)"
    unfolding with_rule_def by (intro fits_or fits_keyword fits_not)
  then have "fits E (length ts) (rule_map (chain_binary And ?profile)
      (with_rule (composite (location_patterns E)) ts1))"
    using ts1 profile
    by (cases "with_rule (composite (location_patterns E)) ts1")
       (auto simp: chain_binary_Inr intro: good_binary)
  with Matched ts1 profile show ?thesis
    by (auto simp: infix_location_rule_exprs_def Let_def intro!: fits_or)
qed (use location_profile_cases [where E = E and ts = ts] in \<open>auto simp: infix_location_rule_exprs_def\<close>)

lemma polish_parts_ok: "\<forall>a \<in> leaves t. atom_ok E a \<Longrightarrow> \<forall>p \<in> set (polish t). part_ok E p"
  by (induction t) auto

lemma validate_arity_polish:
  assumes "well_arity boolean_operand t"
  shows "validate_arity (polish t) = Inr ()"
proof -
  have "error_of (validate_arity (polish t)) = None"
    using unit_ops.run_error [of "map (eval_part (\<lambda>_. ())) (polish t)"] assms
    by (simp add: validate_arity_def arity_error_polish)
  then show ?thesis by (cases "validate_arity (polish t)") (auto simp: error_of_def)
qed

lemma from_str_good:
  assumes "exprs_from_str E s = Inr e"
  shows "good E (polish_parts e) \<and> infix_text e = s"
proof -
  obtain ts where ts: "lexer_tokens s = Some ts"
    using assms by (cases "lexer_tokens s") (auto simp: exprs_from_str_def)
  with assms show ?thesis
    using fits_infix [of E ts]
    by (cases "infix_location_rule_exprs E ts")
       (auto simp: exprs_from_str_def whole_input_def and_then_eq_Inr split: list.splits)
qed

section \<open>Properties\<close>

text \<open>C6: every rule expression the infix parser accepts is the Polish form of an expression tree:
  it passes the arity check, and its stored form is read back as the same parts.  The parser
  always ends with a result or a syntax error.\<close>
theorem parsed_exprs_stored:
  fixes E :: "('r, 'q :: finite) engine"
  shows "exprs_from_str E s \<noteq> Inl ParseNoFuel
    \<and> (\<forall>e. exprs_from_str E s = Inr e \<longrightarrow>
         infix_text e = s
         \<and> (\<exists>t. polish_parts e = polish t \<and> well_arity boolean_operand t)
         \<and> validate_arity (polish_parts e) = Inr ()
         \<and> deserialize_exprs E (serialize_exprs (polish_parts e)) = Inr (polish_parts e))"
proof (intro conjI allI impI)
  show "exprs_from_str E s \<noteq> Inl ParseNoFuel"
  proof (cases "lexer_tokens s")
    case (Some ts)
    then show ?thesis
      using fits_infix [of E ts]
      by (cases "infix_location_rule_exprs E ts")
         (auto simp: exprs_from_str_def whole_input_def map_err_def and_then_def
            split: list.splits sum.splits)
  qed (simp add: exprs_from_str_def)
next
  fix e :: "'r location_rule_exprs"
  assume "exprs_from_str E s = Inr e"
  then have e: "good E (polish_parts e)" and "infix_text e = s" by (auto dest: from_str_good)
  then show "infix_text e = s" by simp
  from e obtain t where t: "polish_parts e = polish t" "well_arity boolean_operand t"
    "\<forall>a \<in> leaves t. atom_ok E a" by (auto simp: good_def)
  then show "\<exists>t. polish_parts e = polish t \<and> well_arity boolean_operand t" by blast
  from t show arity: "validate_arity (polish_parts e) = Inr ()" by (simp add: validate_arity_polish)
  with t polish_parts_ok [OF t(3)]
  show "deserialize_exprs E (serialize_exprs (polish_parts e)) = Inr (polish_parts e)"
    by (simp add: deserialize_serialize)
qed

theorem parsed_exprs_stored_witness:
  "exprs_from_str toy_engine ''*? '' = Inr \<lparr>infix_text = ''*? '', polish_parts = [Expr Any]\<rparr>
   \<and> deserialize_exprs toy_engine (serialize_exprs ([Expr Any] :: string exprs)) = Inr [Expr Any]"
proof -
  have "lexer_tokens ''*? '' = Some [Unquoted ''*?'']" by (simp add: lexer_words)
  moreover have "location_profile E [Unquoted ''*?''] = Matched (Inr Any) []" for E :: "(string, bool) engine"
    by (simp add: location_profile_def any_rule_def)
  then have "infix_location_rule_exprs E [Unquoted ''*?''] = Matched (Inr [Expr Any]) []"
    for E :: "(string, bool) engine"
    by (simp add: infix_location_rule_exprs_def ok_map_def with_rule_def)
  ultimately have e: "exprs_from_str toy_engine ''*? '' = Inr \<lparr>infix_text = ''*? '', polish_parts = [Expr Any]\<rparr>"
    by (simp add: exprs_from_str_def whole_input_def)
  from parsed_exprs_stored [THEN conjunct2, rule_format, OF e]
  have "deserialize_exprs toy_engine (serialize_exprs ([Expr Any] :: string exprs)) = Inr [Expr Any]"
    by (elim conjE) (simp only: location_rule_exprs.select_convs)
  from conjI [OF e this] show ?thesis .
qed

end
