(* ===== verification/Matcher.thy ===== *)
theory Matcher
  imports RuleParser
begin

text \<open>
  The crate \<open>dhttp-access\<close>, files \<open>access/src/matcher.rs\<close>, \<open>policy.rs\<close>, \<open>error.rs\<close>: the choice of
  a rule set by path and of a rule within it.  A \<open>BTreeMap\<close> is the list of its entries in
  iteration order; \<open>collect\<close> builds it as the standard library does, by a stable sort that keeps the
  last of a run of equal keys.
\<close>

section \<open>Ordered maps built from a sequence\<close>

fun insert_sorted :: "('k \<Rightarrow> 'k \<Rightarrow> ordering) \<Rightarrow> 'k \<times> 'v \<Rightarrow> ('k \<times> 'v) list \<Rightarrow> ('k \<times> 'v) list" where
  "insert_sorted c x [] = [x]"
| "insert_sorted c x (y # ys) =
     (if c (fst x) (fst y) = Greater then y # insert_sorted c x ys else x # y # ys)"

definition stable_sort :: "('k \<Rightarrow> 'k \<Rightarrow> ordering) \<Rightarrow> ('k \<times> 'v) list \<Rightarrow> ('k \<times> 'v) list" where
  "stable_sort c xs = foldr (insert_sorted c) xs []"

fun dedup_sorted :: "('k \<Rightarrow> 'k \<Rightarrow> bool) \<Rightarrow> ('k \<times> 'v) list \<Rightarrow> ('k \<times> 'v) list" where
  "dedup_sorted eq (x # y # xs) =
     (if eq (fst x) (fst y) then dedup_sorted eq (y # xs) else x # dedup_sorted eq (y # xs))"
| "dedup_sorted eq xs = xs"

definition btree_collect ::
    "('k \<Rightarrow> 'k \<Rightarrow> ordering) \<Rightarrow> ('k \<Rightarrow> 'k \<Rightarrow> bool) \<Rightarrow> ('k \<times> 'v) list \<Rightarrow> ('k \<times> 'v) list" where
  "btree_collect c eq xs = dedup_sorted eq (stable_sort c xs)"

fun find_map :: "('a \<Rightarrow> 'b option) \<Rightarrow> 'a list \<Rightarrow> 'b option" where
  "find_map f [] = None"
| "find_map f (x # xs) = (case f x of Some y \<Rightarrow> Some y | None \<Rightarrow> find_map f xs)"

section \<open>Rule sets by path\<close>

text \<open>\<open>LocationPatternMatcher\<close>: the map of a list of patterns, and its lookup by path.\<close>

type_synonym ('r, 'i) location_pattern_matcher = "('r location_pattern \<times> 'i) list"

definition pattern_matcher_from_iter ::
    "('r location_pattern \<times> 'i) list \<Rightarrow> ('r, 'i) location_pattern_matcher" where
  "pattern_matcher_from_iter xs = btree_collect pattern_cmp pattern_eq xs"

definition pattern_matcher_match ::
    "('r, 'q) engine \<Rightarrow> ('r, 'i) location_pattern_matcher \<Rightarrow> string
      \<Rightarrow> ('i \<times> 'r location_pattern \<times> string) option" where
  "pattern_matcher_match E m s =
     find_map (\<lambda>(pattern, index). map_option (\<lambda>t. (index, pattern, t)) (pattern_match E pattern s)) m"

record 'r pattern_with_time =
  pt_timestamp :: int
  pt_pattern :: "'r location_pattern"

definition reverse_ordering :: "ordering \<Rightarrow> ordering" where
  "reverse_ordering ord = (case ord of Less \<Rightarrow> Greater | Equal \<Rightarrow> Equal | Greater \<Rightarrow> Less)"

definition time_cmp :: "'r pattern_with_time \<Rightarrow> 'r pattern_with_time \<Rightarrow> ordering" where
  "time_cmp a b =
     then_with
       (cmp (location_priority (p_kind (pt_pattern a))) (location_priority (p_kind (pt_pattern b))))
       (reverse_ordering (cmp (pt_timestamp a) (pt_timestamp b)))"

definition time_eq :: "'r pattern_with_time \<Rightarrow> 'r pattern_with_time \<Rightarrow> bool" where
  "time_eq a b \<longleftrightarrow> pt_timestamp a = pt_timestamp b \<and> pattern_eq (pt_pattern a) (pt_pattern b)"

datatype 'r match_location_failed = NoMatchedLocation "'r location_pattern" | NoMatchedPath string

datatype 'r locate_location_failed = LocationNotExist "'r location_pattern"

datatype 'r match_rule_failed = MatchSet "'r match_location_failed" | MatchRuleInSet

record 'r location_rule_decision =
  dec_location :: "'r location_pattern"
  dec_action :: request_action

datatype 'r location_rule_decision_error = NoRuleSet string | NoRuleInSet "'r location_pattern"
  | Backend

type_synonym 'r rules = "('r location_rule_exprs \<times> request_action) list"
type_synonym 'r location_rules_matcher = "('r pattern_with_time \<times> 'r rules) list"

definition match_rules ::
    "('r, 'q) engine \<Rightarrow> 'r location_rules_matcher \<Rightarrow> string
      \<Rightarrow> 'r match_location_failed + ('r location_pattern \<times> 'r rules)" where
  "match_rules E m path =
     ok_or (NoMatchedPath path)
       (map_option (\<lambda>(pt, rules). (pt_pattern pt, rules))
         (find (\<lambda>(pt, _). pattern_is_match E (pt_pattern pt) path) m))"

text \<open>\<open>decide\<close> evaluates one rule, \<open>Rule::new(exprs.polish(), action).eval(request)\<close>.\<close>

definition match_rule ::
    "('r, 'q) engine \<Rightarrow> ('r exprs \<Rightarrow> request_action \<Rightarrow> request_action option)
      \<Rightarrow> 'r location_rules_matcher \<Rightarrow> string
      \<Rightarrow> 'r match_rule_failed + ('r location_pattern \<times> request_action)" where
  "match_rule E decide m path =
     and_then (map_err MatchSet (match_rules E m path)) (\<lambda>(location_pattern, rules).
       ok_or MatchRuleInSet
         (map_option (Pair location_pattern)
           (find_map (\<lambda>(exprs, action). decide (polish_parts exprs) action) (rev rules))))"

definition evaluate_rules ::
    "('r, 'q) engine \<Rightarrow> ('r exprs \<Rightarrow> request_action \<Rightarrow> request_action option)
      \<Rightarrow> 'r location_rules_matcher \<Rightarrow> string
      \<Rightarrow> 'r location_rule_decision_error + 'r location_rule_decision" where
  "evaluate_rules E decide m path =
     (case match_rule E decide m path of
        Inr (location, action) \<Rightarrow> Inr \<lparr>dec_location = location, dec_action = action\<rparr>
      | Inl (MatchSet (NoMatchedPath p)) \<Rightarrow> Inl (NoRuleSet p)
      | Inl (MatchSet (NoMatchedLocation location)) \<Rightarrow> Inl (NoRuleSet (p_text location))
      | Inl MatchRuleInSet \<Rightarrow>
          and_then (map_err (\<lambda>_. NoRuleSet path) (match_rules E m path)) (\<lambda>(location, _).
            Inl (NoRuleInSet location)))"

section \<open>Sorting by a comparison\<close>

locale comparison =
  fixes c :: "'k \<Rightarrow> 'k \<Rightarrow> ordering"
  assumes flip: "c a b = Greater \<longleftrightarrow> c b a = Less"
    and trans: "c x y \<noteq> Greater \<Longrightarrow> c y z \<noteq> Greater \<Longrightarrow> c x z \<noteq> Greater"
begin

definition ascending :: "('k \<times> 'v) list \<Rightarrow> bool" where
  "ascending xs \<longleftrightarrow> sorted_wrt (\<lambda>x y. c (fst x) (fst y) \<noteq> Greater) xs"

lemma set_insert_sorted [simp]: "set (insert_sorted c x xs) = insert x (set xs)"
  by (induction xs) auto

lemma set_stable_sort [simp]: "set (stable_sort c xs) = set xs"
  by (induction xs) (simp_all add: stable_sort_def)

lemma insert_ascending: "ascending xs \<Longrightarrow> ascending (insert_sorted c x xs)"
proof (induction xs)
  case (Cons y ys)
  show ?case
  proof (cases "c (fst x) (fst y) = Greater")
    case True
    then have "c (fst y) (fst x) \<noteq> Greater" using flip by force
    with True Cons show ?thesis by (auto simp: ascending_def)
  next
    case False
    with Cons.prems show ?thesis
      using trans [of "fst x" "fst y"] by (auto simp: ascending_def)
  qed
qed (simp add: ascending_def)

lemma stable_sort_ascending: "ascending (stable_sort c xs)"
  by (induction xs) (simp add: stable_sort_def ascending_def, simp add: stable_sort_def insert_ascending)

lemma length_insert_sorted [simp]: "length (insert_sorted c x xs) = Suc (length xs)"
  by (induction xs) auto

lemma mset_insert_sorted: "\<exists>us vs. xs = us @ vs \<and> insert_sorted c x xs = us @ x # vs"
proof (induction xs)
  case (Cons y ys)
  then obtain us vs where "ys = us @ vs" "insert_sorted c x ys = us @ x # vs" by blast
  then show ?case
    by (cases "c (fst x) (fst y) = Greater")
       (auto intro: exI [of _ "y # us"] exI [of _ "[] :: ('k \<times> 'a) list"])
qed simp

lemma distinct_stable_sort: "distinct (map f (stable_sort c xs)) = distinct (map f xs)"
proof (induction xs)
  case (Cons x xs)
  obtain us vs where "stable_sort c xs = us @ vs" "insert_sorted c x (stable_sort c xs) = us @ x # vs"
    using mset_insert_sorted [of "stable_sort c xs" x] by blast
  moreover have "f ` set us \<union> f ` set vs = f ` set xs"
    using set_stable_sort [of xs] calculation(1) by (metis image_Un set_append)
  ultimately show ?case using Cons by (auto simp: stable_sort_def)
qed (simp add: stable_sort_def)

lemma find_first:
  assumes "ascending xs" and "find P xs = Some x"
  shows "x \<in> set xs \<and> P x \<and> (\<forall>y \<in> set xs. P y \<longrightarrow> c (fst x) (fst y) \<noteq> Greater)"
  using assms
proof (induction xs)
  case (Cons y ys)
  have "c k k \<noteq> Greater" for k using flip [of k k] by auto
  with Cons show ?case by (cases "P y") (auto simp: ascending_def)
qed simp

end

lemma dedup_distinct:
  assumes "\<And>x y. eq x y \<Longrightarrow> f x = f y" and "distinct (map (f \<circ> fst) xs)"
  shows "dedup_sorted eq xs = xs"
  using assms(2)
proof (induction xs rule: induct_list012)
  case (3 x y xs)
  then have "\<not> eq (fst x) (fst y)" using assms(1) by auto
  with 3 show ?case by simp
qed simp_all

lemma cmp_simps:
  "cmp a b = Greater \<longleftrightarrow> b < a" "cmp a b = Less \<longleftrightarrow> a < b" "cmp a b = Equal \<longleftrightarrow> a = b"
  by (auto simp: cmp_def)

lemma time_cmp_Greater:
  "time_cmp a b = Greater \<longleftrightarrow>
     location_priority (p_kind (pt_pattern b)) < location_priority (p_kind (pt_pattern a))
     \<or> (p_kind (pt_pattern a) = p_kind (pt_pattern b) \<and> pt_timestamp a < pt_timestamp b)"
proof -
  have "location_priority k = location_priority l \<longleftrightarrow> k = l" for k l by (cases k; cases l; simp)
  then show ?thesis
    by (auto simp: time_cmp_def then_with_def reverse_ordering_def cmp_def split: ordering.splits if_splits)
       (metis linorder_neqE_nat)
qed

interpretation time_order: comparison time_cmp
proof
  have inj: "location_priority k = location_priority l \<longleftrightarrow> k = l" for k l by (cases k; cases l; simp)
  show "time_cmp a b = Greater \<longleftrightarrow> time_cmp b a = Less" for a b :: "'a pattern_with_time"
    by (auto simp: time_cmp_def then_with_def reverse_ordering_def cmp_def split: ordering.splits if_splits)
  show "time_cmp x z \<noteq> Greater" if "time_cmp x y \<noteq> Greater" "time_cmp y z \<noteq> Greater"
    for x y z :: "'a pattern_with_time"
    using that inj unfolding time_cmp_Greater by (smt (verit) linorder_neqE_nat order.strict_trans)
qed

interpretation pattern_order: comparison "pattern_cmp :: 'r location_pattern \<Rightarrow> 'r location_pattern \<Rightarrow> ordering"
proof
  fix a b x y z :: "'r location_pattern"
  show "pattern_cmp a b = Greater \<longleftrightarrow> pattern_cmp b a = Less"
    by (auto simp: pattern_cmp_def then_with_def cmp_def)
  show "pattern_cmp x z \<noteq> Greater" if "pattern_cmp x y \<noteq> Greater" "pattern_cmp y z \<noteq> Greater"
    using that by (auto simp: pattern_cmp_def then_with_def cmp_def split: if_splits)
qed

section \<open>Choice of a rule\<close>

lemma find_map_None: "find_map f xs = None \<longleftrightarrow> (\<forall>x \<in> set xs. f x = None)"
  by (induction xs) (auto split: option.splits)

lemma find_map_Some:
  "find_map f xs = Some y \<longleftrightarrow> (\<exists>us x vs. xs = us @ x # vs \<and> f x = Some y \<and> (\<forall>u \<in> set us. f u = None))"
proof (induction xs)
  case (Cons x xs)
  show ?case
  proof (cases "f x")
    case None
    have "(\<exists>us z vs. x # xs = us @ z # vs \<and> f z = Some y \<and> (\<forall>u \<in> set us. f u = None))
        \<longleftrightarrow> (\<exists>us z vs. xs = us @ z # vs \<and> f z = Some y \<and> (\<forall>u \<in> set us. f u = None))"
    proof
      assume "\<exists>us z vs. x # xs = us @ z # vs \<and> f z = Some y \<and> (\<forall>u \<in> set us. f u = None)"
      then obtain us z vs where "x # xs = us @ z # vs" "f z = Some y" "\<forall>u \<in> set us. f u = None" by blast
      with None show "\<exists>us z vs. xs = us @ z # vs \<and> f z = Some y \<and> (\<forall>u \<in> set us. f u = None)"
        by (cases us) auto
    next
      assume "\<exists>us z vs. xs = us @ z # vs \<and> f z = Some y \<and> (\<forall>u \<in> set us. f u = None)"
      then obtain us z vs where "xs = us @ z # vs" "f z = Some y" "\<forall>u \<in> set us. f u = None" by blast
      with None show "\<exists>us z vs. x # xs = us @ z # vs \<and> f z = Some y \<and> (\<forall>u \<in> set us. f u = None)"
        by (intro exI [of _ "x # us"]) auto
    qed
    with None Cons show ?thesis by simp
  next
    case (Some z)
    then show ?thesis by (auto simp: Cons_eq_append_conv intro: exI [of _ "[]"])
  qed
qed simp

text \<open>
  The best row for a path: its pattern matches, and no matching row has a pattern kind of smaller
  priority number, or the same kind and a later creation time.
\<close>

definition best_row ::
    "('r, 'q) engine \<Rightarrow> string \<Rightarrow> ('r pattern_with_time \<times> 'v) list \<Rightarrow> 'r pattern_with_time \<times> 'v \<Rightarrow> bool" where
  "best_row E path rows row \<longleftrightarrow>
     row \<in> set rows \<and> pattern_is_match E (pt_pattern (fst row)) path
     \<and> (\<forall>other \<in> set rows. pattern_is_match E (pt_pattern (fst other)) path
          \<longrightarrow> time_cmp (fst row) (fst other) \<noteq> Greater)"

lemma collect_distinct:
  assumes "distinct (map (\<lambda>row. p_text (pt_pattern (fst row))) rows)"
  shows "btree_collect time_cmp time_eq rows = stable_sort time_cmp rows"
  unfolding btree_collect_def
proof (rule dedup_distinct)
  show "p_text (pt_pattern x) = p_text (pt_pattern y)" if "time_eq x y" for x y :: "'a pattern_with_time"
    using that by (simp add: time_eq_def pattern_eq_def)
  show "distinct (map ((\<lambda>pt. p_text (pt_pattern pt)) \<circ> fst) (stable_sort time_cmp rows))"
    using assms by (simp add: comp_def time_order.distinct_stable_sort)
qed

lemma find_best_row:
  assumes "distinct (map (\<lambda>row. p_text (pt_pattern (fst row))) rows)"
  shows "find (\<lambda>(pt, _). pattern_is_match E (pt_pattern pt) path) (btree_collect time_cmp time_eq rows) = Some row
      \<Longrightarrow> best_row E path rows row"
    and "find (\<lambda>(pt, _). pattern_is_match E (pt_pattern pt) path) (btree_collect time_cmp time_eq rows) = None
      \<longleftrightarrow> (\<forall>row \<in> set rows. \<not> pattern_is_match E (pt_pattern (fst row)) path)"
proof -
  let ?P = "\<lambda>(pt, _). pattern_is_match E (pt_pattern pt) path"
  show "best_row E path rows row" if "find ?P (btree_collect time_cmp time_eq rows) = Some row"
    using time_order.find_first [OF time_order.stable_sort_ascending, of ?P rows row] that
    by (auto simp: best_row_def collect_distinct [OF assms] case_prod_beta)
  show "find ?P (btree_collect time_cmp time_eq rows) = None
      \<longleftrightarrow> (\<forall>row \<in> set rows. \<not> pattern_is_match E (pt_pattern (fst row)) path)"
    by (auto simp: find_None_iff collect_distinct [OF assms] case_prod_beta)
qed

lemma find_map_latest:
  assumes "find_map f (rev rules) = Some y"
  shows "\<exists>older x newer. rules = older @ x # newer \<and> f x = Some y \<and> (\<forall>z \<in> set newer. f z = None)"
proof -
  from assms obtain us x vs where "rev rules = us @ x # vs" "f x = Some y" "\<forall>u \<in> set us. f u = None"
    by (auto simp: find_map_Some)
  then have "rules = rev vs @ x # rev us" by (metis append.assoc append_Cons append_Nil rev.simps(2) rev_append rev_rev_ident)
  with \<open>f x = Some y\<close> \<open>\<forall>u \<in> set us. f u = None\<close> show ?thesis
    by (intro exI [of _ "rev vs"] exI [of _ x] exI [of _ "rev us"]) simp
qed

section \<open>Properties\<close>

text \<open>C8: a decision comes from the best rule set for the path and, within it, from the latest rule
  that decides; the path has no rule set exactly if no pattern matches, and no rule in the set
  decides exactly if the error says so.  The patterns are those of the store, where they are
  unique.\<close>
theorem evaluate_rules_decides:
  assumes "distinct (map (\<lambda>row. p_text (pt_pattern (fst row))) rows)"
  shows "case evaluate_rules E decide (btree_collect time_cmp time_eq rows) path of
     Inr d \<Rightarrow> \<exists>pt older e a newer.
       best_row E path rows (pt, older @ (e, a) # newer) \<and> dec_location d = pt_pattern pt
       \<and> decide (polish_parts e) a = Some (dec_action d)
       \<and> (\<forall>(e', a') \<in> set newer. decide (polish_parts e') a' = None)
   | Inl (NoRuleSet p) \<Rightarrow> p = path \<and> (\<forall>row \<in> set rows. \<not> pattern_is_match E (pt_pattern (fst row)) path)
   | Inl (NoRuleInSet location) \<Rightarrow> \<exists>pt rules.
       best_row E path rows (pt, rules) \<and> location = pt_pattern pt
       \<and> (\<forall>(e, a) \<in> set rules. decide (polish_parts e) a = None)
   | Inl Backend \<Rightarrow> False"
proof (cases "find (\<lambda>(pt, _). pattern_is_match E (pt_pattern pt) path) (btree_collect time_cmp time_eq rows)")
  case None
  then show ?thesis
    using find_best_row(2) [OF assms, of E path]
    by (simp add: evaluate_rules_def match_rule_def match_rules_def)
next
  case (Some row)
  obtain pt rules where row: "row = (pt, rules)" by fastforce
  with find_best_row(1) [OF assms Some] have best: "best_row E path rows (pt, rules)" by simp
  let ?f = "\<lambda>(exprs, action). decide (polish_parts exprs) action"
  have outcome: "evaluate_rules E decide (btree_collect time_cmp time_eq rows) path =
      (case find_map ?f (rev rules) of
         Some action \<Rightarrow> Inr \<lparr>dec_location = pt_pattern pt, dec_action = action\<rparr>
       | None \<Rightarrow> Inl (NoRuleInSet (pt_pattern pt)))"
    by (simp add: evaluate_rules_def match_rule_def match_rules_def Some row split: option.split)
  show ?thesis
  proof (cases "find_map ?f (rev rules)")
    case f: None
    then have "\<forall>(e, a) \<in> set rules. decide (polish_parts e) a = None"
      by (auto simp: find_map_None)
    with best have "\<exists>pt' rules. best_row E path rows (pt', rules) \<and> pt_pattern pt = pt_pattern pt'
        \<and> (\<forall>(e, a) \<in> set rules. decide (polish_parts e) a = None)" by blast
    with outcome f show ?thesis by simp
  next
    case f: (Some action)
    from find_map_latest [OF f] obtain older x newer where
      x: "rules = older @ x # newer" "?f x = Some action" "\<forall>z \<in> set newer. ?f z = None" by blast
    obtain e a where "x = (e, a)" by fastforce
    with x best have "\<exists>pt' older e a newer. best_row E path rows (pt', older @ (e, a) # newer)
        \<and> pt_pattern pt = pt_pattern pt' \<and> decide (polish_parts e) a = Some action
        \<and> (\<forall>(e', a') \<in> set newer. decide (polish_parts e') a' = None)"
      by (intro exI [of _ pt] exI [of _ older] exI [of _ e] exI [of _ a] exI [of _ newer]) auto
    with outcome f show ?thesis by simp
  qed
qed

theorem evaluate_rules_decides_witness:
  "\<exists>d. evaluate_rules toy_engine (\<lambda>_ a. Some a)
      (btree_collect time_cmp time_eq
        [(\<lparr>pt_timestamp = 1, pt_pattern = \<lparr>p_kind = LCommon, p_regex = ''^/'', p_text = ''/''\<rparr>\<rparr>,
          [(\<lparr>infix_text = ''*?'', polish_parts = [Expr Any]\<rparr>, Allow)])]) ''/x''
     = Inr d \<and> dec_action d = Allow"
proof -
  let ?pt = "\<lparr>pt_timestamp = 1, pt_pattern = \<lparr>p_kind = LCommon, p_regex = ''^/'', p_text = ''/''\<rparr>\<rparr>"
  let ?rows = "[(?pt, [(\<lparr>infix_text = ''*?'', polish_parts = [Expr Any]\<rparr>, Allow)])]"
  let ?r = "evaluate_rules toy_engine (\<lambda>_ a. Some a) (btree_collect time_cmp time_eq ?rows) ''/x''"
  have match: "pattern_is_match toy_engine (pt_pattern ?pt) ''/x''"
    by (simp add: pattern_is_match_def toy_engine_def)
  have "distinct (map (\<lambda>row. p_text (pt_pattern (fst row))) ?rows)" by simp
  note d = evaluate_rules_decides [OF this, where E = toy_engine and decide = "\<lambda>_ a. Some a" and path = "''/x''"]
  show ?thesis
    using d match
    by (cases ?r) (auto simp: best_row_def append_eq_Cons_conv split: location_rule_decision_error.splits)
qed

text \<open>C9: a request is allowed only by an allow rule of a matching rule set whose expression was
  evaluated to true; an expression that cannot be evaluated for want of a client name, and a
  malformed one, never allow it.\<close>
theorem allow_only_by_true_rule:
  assumes "evaluate_rules E (rule_decision E request) m path = Inr d" and "dec_action d = Allow"
  shows "\<exists>(pt, rules) \<in> set m. \<exists>(e, a) \<in> set rules.
     pattern_is_match E (pt_pattern pt) path \<and> dec_location d = pt_pattern pt \<and> a = Allow
     \<and> exprs_try_eval result_operator (eval_atomic E request) (polish_parts e) = Inr (Inr True)"
proof -
  obtain pt rules where row: "find (\<lambda>(pt, _). pattern_is_match E (pt_pattern pt) path) m = Some (pt, rules)"
    and d: "dec_location d = pt_pattern pt"
      "find_map (\<lambda>(exprs, action). rule_decision E request (polish_parts exprs) action) (rev rules) = Some Allow"
    using assms
    by (auto simp: evaluate_rules_def match_rule_def match_rules_def and_then_def map_err_def ok_or_def
        split: sum.splits option.splits match_rule_failed.splits match_location_failed.splits prod.splits)
  from find_map_latest [OF d(2)] obtain e a where "(e, a) \<in> set rules"
    and ea: "rule_decision E request (polish_parts e) a = Some Allow" by fastforce
  moreover from ea have "a = Allow"
    "exprs_try_eval result_operator (eval_atomic E request) (polish_parts e) = Inr (Inr True)"
    by (auto simp: rule_decision_def rule_eval_def eval_error_fallback_def split: sum.splits if_splits)
  moreover from row have "(pt, rules) \<in> set m" "pattern_is_match E (pt_pattern pt) path"
    by (auto dest: find_SomeD)
  ultimately show ?thesis using d(1) by blast
qed

theorem allow_only_by_true_rule_witness:
  "\<exists>(pt, rules) \<in> set [(\<lparr>pt_timestamp = 1, pt_pattern = \<lparr>p_kind = LCommon, p_regex = ''^/'', p_text = ''/''\<rparr>\<rparr>,
       [(\<lparr>infix_text = ''*?'', polish_parts = [Expr Any]\<rparr>, Allow)])].
     \<exists>(e, a) \<in> set rules. exprs_try_eval result_operator
       (eval_atomic toy_engine (http_request_new None ''GET'' [] None)) (polish_parts e) = Inr (Inr True)"
proof -
  let ?req = "http_request_new None ''GET'' [] None"
  let ?loc = "\<lparr>p_kind = LCommon, p_regex = ''^/'', p_text = ''/''\<rparr>"
  let ?m = "[(\<lparr>pt_timestamp = 1, pt_pattern = ?loc\<rparr>,
      [(\<lparr>infix_text = ''*?'', polish_parts = [Expr Any]\<rparr>, Allow)])]"
  have "exprs_try_eval result_operator (eval_atomic toy_engine ?req) [Expr Any] = Inr (Inr True)"
    by (simp add: exprs_try_eval_def try_run_def vm_step_def new_vm_def vm_try_eval.simps vm_finish_def
        eval_atomic_def)
  then have "rule_decision toy_engine ?req [Expr Any] Allow = Some Allow"
    by (simp add: rule_decision_def rule_eval_def)
  moreover have "pattern_is_match toy_engine ?loc ''/x''"
    by (simp add: pattern_is_match_def toy_engine_def)
  ultimately have "evaluate_rules toy_engine (rule_decision toy_engine ?req) ?m ''/x''
      = Inr \<lparr>dec_location = ?loc, dec_action = Allow\<rparr>"
    by (simp add: evaluate_rules_def match_rule_def match_rules_def)
  from allow_only_by_true_rule [OF this] show ?thesis by auto
qed

end
