(* ===== verification/RuleStore.thy ===== *)
theory RuleStore
  imports Matcher "HOL-Library.Product_Lexorder"
begin

text \<open>
  The crate \<open>dhttp-access\<close>, files \<open>access/src/db/service/location_service.rs\<close>,
  \<open>access/src/db/evaluator.rs\<close>, \<open>access/src/db/entities\<close> and the migrations: the stored rule sets.
  A table is the list of its rows; \<open>ORDER BY\<close> is a stable sort and a query without it returns the
  rows in table order.  An operation runs in a transaction: it returns the new state only when it
  commits, so an error leaves the state as it was.  Each database statement may fail, which the
  argument \<open>fails\<close> decides by the statement's place in the code.
\<close>

section \<open>Tables\<close>

record 'r location_row =
  loc_id :: int
  loc_pattern :: "'r location_pattern"
  loc_created :: int
  loc_updated :: int

record 'r rule_row =
  rule_id :: int
  rule_location :: int
  rule_action :: request_action
  rule_exprs :: "'r location_rule_exprs"
  rule_created :: int
  rule_updated :: int

record 'r store =
  locations :: "'r location_row list"
  rule_rows :: "'r rule_row list"
  next_location_id :: int
  next_rule_id :: int

datatype statement = QueryStore | QueryRuleSets | BeginTransaction | QueryExactLocation
  | QueryLocations | LoadLocations | LoadRules | DeleteRuleSet | DeleteRules | InsertLocation
  | LoadExistingRules | RefreshExistingRule | InsertRule | LoadInsertedRule | LoadRule | UpdateRule
  | Commit

datatype 'r store_error = DbErr statement
  | NoLocation "'r match_location_failed"
  | SetNotExist "'r locate_location_failed"
  | RuleNotExist nat
  | RuleIdNotExist int
  | LocationMissing
  | InsertedRuleMissing int
  | ConflictingRuleMissing

definition db :: "(statement \<Rightarrow> bool) \<Rightarrow> statement \<Rightarrow> 'a \<Rightarrow> 'r store_error + 'a" where
  "db fails s x = (if fails s then Inl (DbErr s) else Inr x)"

text \<open>Timestamps are nanoseconds; \<open>timestamp_micros\<close> of \<open>chrono\<close>.\<close>

definition timestamp_micros :: "int \<Rightarrow> int" where
  "timestamp_micros t = t div 1000"

section \<open>Logical equality of rules\<close>

fun part_same :: "(boolean_operator, 'r atomic) part \<Rightarrow> (boolean_operator, 'r atomic) part \<Rightarrow> bool" where
  "part_same (Operator a) (Operator b) = (a = b)"
| "part_same (Expr a) (Expr b) = atomic_eq a b"
| "part_same _ _ = False"

definition polish_same :: "'r exprs \<Rightarrow> 'r exprs \<Rightarrow> bool" where
  "polish_same a b = list_all2 part_same a b"

definition same_logical_rule :: "'r rule_row \<Rightarrow> 'r rule_row \<Rightarrow> bool" where
  "same_logical_rule a b \<longleftrightarrow> rule_action a = rule_action b
     \<and> polish_same (polish_parts (rule_exprs a)) (polish_parts (rule_exprs b))"

fun deduplicate_from :: "'r rule_row list \<Rightarrow> 'r rule_row list \<Rightarrow> 'r rule_row list" where
  "deduplicate_from unique [] = unique"
| "deduplicate_from unique (candidate # rules) =
     (if list_ex (\<lambda>existing. same_logical_rule existing candidate) unique
      then deduplicate_from unique rules
      else deduplicate_from (unique @ [candidate]) rules)"

definition deduplicate_rules :: "'r rule_row list \<Rightarrow> 'r rule_row list" where
  "deduplicate_rules rules = deduplicate_from [] rules"

text \<open>The columns of the unique index on rules.\<close>

definition index_key :: "'r rule_row \<Rightarrow> int \<times> request_action \<times> string" where
  "index_key r = (rule_location r, rule_action r, serialize_exprs (polish_parts (rule_exprs r)))"

section \<open>Queries\<close>

definition order_by_creation :: "'r rule_row list \<Rightarrow> 'r rule_row list" where
  "order_by_creation rules = sort_key (\<lambda>r. (rule_created r, rule_id r)) rules"

definition rules_of_location :: "'r store \<Rightarrow> int \<Rightarrow> 'r rule_row list" where
  "rules_of_location st lid =
     order_by_creation (filter (\<lambda>r. rule_location r = lid) (rule_rows st))"

definition exact_location :: "'r store \<Rightarrow> 'r location_pattern \<Rightarrow> 'r location_row option" where
  "exact_location st location = find (\<lambda>l. p_text (loc_pattern l) = p_text location) (locations st)"

definition match_location_internal ::
    "('r, 'q) engine \<Rightarrow> (statement \<Rightarrow> bool) \<Rightarrow> 'r store \<Rightarrow> 'r location_pattern \<Rightarrow> bool
      \<Rightarrow> 'r store_error + (int \<times> 'r location_pattern) option" where
  "match_location_internal E fails st location strict =
     and_then (db fails QueryExactLocation (exact_location st location)) (\<lambda>strict_matched.
       case strict_matched of
         Some l \<Rightarrow> Inr (Some (loc_id l, loc_pattern l))
       | None \<Rightarrow>
           if strict then Inr None
           else
             and_then (db fails QueryLocations (map (\<lambda>l. (loc_pattern l, loc_id l)) (locations st)))
               (\<lambda>ls. Inr (map_option (\<lambda>(lid, pattern, _). (lid, pattern))
                   (pattern_matcher_match E (pattern_matcher_from_iter ls) (p_text location)))))"

definition ensure_store :: "(statement \<Rightarrow> bool) \<Rightarrow> 'r store \<Rightarrow> 'r store_error + unit" where
  "ensure_store fails st = and_then (db fails QueryStore (take 1 (locations st))) (\<lambda>_. Inr ())"

definition list_rule_sets :: "(statement \<Rightarrow> bool) \<Rightarrow> 'r store \<Rightarrow> 'r store_error + 'r location_row list" where
  "list_rule_sets fails st =
     db fails QueryRuleSets (sort_key (\<lambda>l. p_text (loc_pattern l)) (locations st))"

definition list_rules ::
    "('r, 'q) engine \<Rightarrow> (statement \<Rightarrow> bool) \<Rightarrow> 'r store \<Rightarrow> 'r location_pattern
      \<Rightarrow> 'r store_error + ('r location_pattern \<times> 'r rule_row list)" where
  "list_rules E fails st location =
     and_then (db fails BeginTransaction ()) (\<lambda>_.
     and_then (match_location_internal E fails st location False) (\<lambda>matched.
     and_then (ok_or (NoLocation (NoMatchedLocation location)) matched) (\<lambda>(lid, pattern).
     and_then (db fails LoadRules (rules_of_location st lid)) (\<lambda>rules.
     and_then (db fails Commit ()) (\<lambda>_. Inr (pattern, deduplicate_rules rules))))))"

definition list_rules_by_pattern ::
    "('r, 'q) engine \<Rightarrow> (statement \<Rightarrow> bool) \<Rightarrow> 'r store \<Rightarrow> 'r location_pattern
      \<Rightarrow> 'r store_error + ('r location_pattern \<times> 'r rule_row list)" where
  "list_rules_by_pattern E fails st location =
     and_then (db fails BeginTransaction ()) (\<lambda>_.
     and_then (match_location_internal E fails st location True) (\<lambda>matched.
     and_then (ok_or (SetNotExist (LocationNotExist location)) matched) (\<lambda>(lid, pattern).
     and_then (db fails LoadRules (rules_of_location st lid)) (\<lambda>rules.
     and_then (db fails Commit ()) (\<lambda>_. Inr (pattern, deduplicate_rules rules))))))"

type_synonym 'r all_location_rules =
  "('r pattern_with_time \<times> 'r location_row \<times> 'r rule_row list) list"

definition pattern_time :: "'r location_row \<Rightarrow> 'r pattern_with_time" where
  "pattern_time l = \<lparr>pt_timestamp = timestamp_micros (loc_created l), pt_pattern = loc_pattern l\<rparr>"

definition list_all_rules ::
    "(statement \<Rightarrow> bool) \<Rightarrow> 'r store \<Rightarrow> 'r store_error + 'r all_location_rules" where
  "list_all_rules fails st =
     and_then (db fails BeginTransaction ()) (\<lambda>_.
     and_then (db fails LoadLocations (locations st)) (\<lambda>ls.
     and_then (db fails LoadRules
         (map (\<lambda>l. filter (\<lambda>r. rule_location r = loc_id l) (rule_rows st)) ls)) (\<lambda>rules.
     let m = btree_collect time_cmp time_eq
           (map (\<lambda>(l, rules). (pattern_time l, l, order_by_creation (deduplicate_rules rules)))
             (zip ls rules)) in
     and_then (db fails Commit ()) (\<lambda>_. Inr m))))"

definition matcher_from_rules :: "'r all_location_rules \<Rightarrow> 'r location_rules_matcher" where
  "matcher_from_rules m =
     btree_collect time_cmp time_eq
       (map (\<lambda>(pt, _, rules). (pt, map (\<lambda>r. (rule_exprs r, rule_action r)) rules)) m)"

section \<open>Changes\<close>

definition remove_rule_set ::
    "('r, 'q) engine \<Rightarrow> (statement \<Rightarrow> bool) \<Rightarrow> 'r store \<Rightarrow> 'r location_pattern
      \<Rightarrow> 'r store_error + 'r store" where
  "remove_rule_set E fails st location =
     and_then (db fails BeginTransaction ()) (\<lambda>_.
     and_then (match_location_internal E fails st location True) (\<lambda>matched.
     and_then (ok_or (SetNotExist (LocationNotExist location)) matched) (\<lambda>(lid, _).
     and_then (db fails DeleteRuleSet
         (st\<lparr>locations := filter (\<lambda>l. loc_id l \<noteq> lid) (locations st),
             rule_rows := filter (\<lambda>r. rule_location r \<noteq> lid) (rule_rows st)\<rparr>)) (\<lambda>st'.
     and_then (db fails Commit ()) (\<lambda>_. Inr st')))))"

definition delete_rules :: "'r store \<Rightarrow> int list \<Rightarrow> 'r store" where
  "delete_rules st ids = st\<lparr>rule_rows := filter (\<lambda>r. rule_id r \<notin> set ids) (rule_rows st)\<rparr>"

fun select_rules :: "'r rule_row list \<Rightarrow> nat list \<Rightarrow> 'r store_error + 'r rule_row list" where
  "select_rules visible [] = Inr []"
| "select_rules visible (seq # sequence) =
     (if seq < length visible then
        and_then (select_rules visible sequence) (\<lambda>rules. Inr (visible ! seq # rules))
      else Inl (RuleNotExist seq))"

definition logically_selected :: "'r rule_row list \<Rightarrow> 'r rule_row list \<Rightarrow> int list" where
  "logically_selected selected rules =
     map rule_id (filter (\<lambda>candidate. list_ex (same_logical_rule candidate) selected) rules)"

definition remove_rules ::
    "('r, 'q) engine \<Rightarrow> (statement \<Rightarrow> bool) \<Rightarrow> 'r store \<Rightarrow> 'r location_pattern \<Rightarrow> nat list
      \<Rightarrow> 'r store_error + 'r store" where
  "remove_rules E fails st location sequence =
     and_then (db fails BeginTransaction ()) (\<lambda>_.
     and_then (match_location_internal E fails st location True) (\<lambda>matched.
     and_then (ok_or (SetNotExist (LocationNotExist location)) matched) (\<lambda>(lid, _).
     and_then (db fails LoadRules (rules_of_location st lid)) (\<lambda>rules.
     and_then (select_rules (deduplicate_rules rules) sequence) (\<lambda>selected.
     and_then (db fails DeleteRules (delete_rules st (logically_selected selected rules))) (\<lambda>st'.
     and_then (db fails Commit ()) (\<lambda>_. Inr st')))))))"

definition remove_rules_by_ids ::
    "('r, 'q) engine \<Rightarrow> (statement \<Rightarrow> bool) \<Rightarrow> 'r store \<Rightarrow> 'r location_pattern \<Rightarrow> int list
      \<Rightarrow> 'r store_error + 'r store" where
  "remove_rules_by_ids E fails st location ids =
     and_then (db fails BeginTransaction ()) (\<lambda>_.
     and_then (match_location_internal E fails st location True) (\<lambda>matched.
     and_then (ok_or (SetNotExist (LocationNotExist location)) matched) (\<lambda>(lid, _).
     let requested_set = sort (remdups ids) in
     and_then (db fails LoadRules (filter (\<lambda>r. rule_id r \<in> set requested_set) (rule_rows st))) (\<lambda>matched_rules.
     if length matched_rules \<noteq> length requested_set then
       (case find (\<lambda>i. i \<notin> rule_id ` set matched_rules) requested_set of
          Some missing \<Rightarrow> Inl (RuleIdNotExist missing) | None \<Rightarrow> Inl (RuleIdNotExist 0))
     else
       (case find (\<lambda>r. rule_location r \<noteq> lid) matched_rules of
          Some r \<Rightarrow> Inl (RuleIdNotExist (rule_id r))
        | None \<Rightarrow>
            and_then (db fails DeleteRules
                (delete_rules st (logically_selected matched_rules
                  (filter (\<lambda>r. rule_location r = lid) (rule_rows st))))) (\<lambda>st'.
            and_then (db fails Commit ()) (\<lambda>_. Inr st')))))))"

text \<open>\<open>now\<close> is the reading of the clock; an insert that violates the unique pattern does nothing.\<close>

definition match_or_create_location_internal ::
    "('r, 'q) engine \<Rightarrow> (statement \<Rightarrow> bool) \<Rightarrow> int \<Rightarrow> 'r store \<Rightarrow> 'r location_pattern
      \<Rightarrow> 'r store_error + (int \<times> 'r store)" where
  "match_or_create_location_internal E fails now st location =
     and_then (match_location_internal E fails st location True) (\<lambda>matched.
       case matched of
         Some (lid, _) \<Rightarrow> Inr (lid, st)
       | None \<Rightarrow>
           and_then (db fails InsertLocation (exact_location st location)) (\<lambda>conflict.
             case conflict of
               None \<Rightarrow>
                 (let lid = next_location_id st in
                  Inr (lid, st\<lparr>next_location_id := lid + 1,
                     locations := locations st @ [\<lparr>loc_id = lid, loc_pattern = location,
                       loc_created = now, loc_updated = now\<rparr>]\<rparr>))
             | Some _ \<Rightarrow>
                 and_then (ok_or LocationMissing (exact_location st location)) (\<lambda>l.
                   Inr (loc_id l, st))))"

definition update_rule :: "'r store \<Rightarrow> 'r rule_row \<Rightarrow> 'r store" where
  "update_rule st row =
     st\<lparr>rule_rows := map (\<lambda>r. if rule_id r = rule_id row then row else r) (rule_rows st)\<rparr>"

definition refresh_rule_priority ::
    "(statement \<Rightarrow> bool) \<Rightarrow> int \<Rightarrow> 'r store \<Rightarrow> 'r rule_row \<Rightarrow> 'r store_error + ('r rule_row \<times> 'r store)" where
  "refresh_rule_priority fails now st existing =
     (let row = existing\<lparr>rule_created := now, rule_updated := now\<rparr> in
      db fails RefreshExistingRule (row, update_rule st row))"

definition append_rule_internal ::
    "('r, 'q) engine \<Rightarrow> (statement \<Rightarrow> bool) \<Rightarrow> int \<Rightarrow> 'r store \<Rightarrow> 'r location_pattern
      \<Rightarrow> request_action \<Rightarrow> 'r location_rule_exprs \<Rightarrow> 'r store_error + ('r rule_row \<times> 'r store)" where
  "append_rule_internal E fails now st location action expr =
     and_then (db fails BeginTransaction ()) (\<lambda>_.
     and_then (match_or_create_location_internal E fails now st location) (\<lambda>(lid, st).
     let candidates = filter (\<lambda>r. rule_action r = action) (rules_of_location st lid);
         same = (\<lambda>r. polish_same (polish_parts (rule_exprs r)) (polish_parts expr)) in
     and_then (db fails LoadExistingRules (find same candidates)) (\<lambda>existing.
     case existing of
       Some row \<Rightarrow>
         and_then (refresh_rule_priority fails now st row) (\<lambda>(row, st').
         and_then (db fails Commit ()) (\<lambda>_. Inr (row, st')))
     | None \<Rightarrow>
         let new_rule = \<lparr>rule_id = next_rule_id st, rule_location = lid, rule_action = action,
               rule_exprs = expr, rule_created = now, rule_updated = now\<rparr> in
         and_then
           (if fails InsertRule then Inl (DbErr InsertRule)
            else if list_ex (\<lambda>r. index_key r = index_key new_rule) (rule_rows st) then
              and_then (ok_or ConflictingRuleMissing (find same candidates)) (\<lambda>row.
                refresh_rule_priority fails now st row)
            else
              (let st' = st\<lparr>rule_rows := rule_rows st @ [new_rule], next_rule_id := next_rule_id st + 1\<rparr> in
               and_then (db fails LoadInsertedRule
                   (find (\<lambda>r. rule_id r = rule_id new_rule) (rule_rows st'))) (\<lambda>loaded.
                 and_then (ok_or (InsertedRuleMissing (rule_id new_rule)) loaded) (\<lambda>row.
                   Inr (row, st')))))
           (\<lambda>(row, st'). and_then (db fails Commit ()) (\<lambda>_. Inr (row, st'))))))"

text \<open>An update that violates the unique index fails.\<close>

definition replace_rule_by_id ::
    "('r, 'q) engine \<Rightarrow> (statement \<Rightarrow> bool) \<Rightarrow> int \<Rightarrow> 'r store \<Rightarrow> 'r location_pattern \<Rightarrow> int
      \<Rightarrow> request_action \<Rightarrow> 'r location_rule_exprs \<Rightarrow> 'r store_error + ('r rule_row \<times> 'r store)" where
  "replace_rule_by_id E fails now st location rid action expr =
     and_then (db fails BeginTransaction ()) (\<lambda>_.
     and_then (match_location_internal E fails st location True) (\<lambda>matched.
     and_then (ok_or (SetNotExist (LocationNotExist location)) matched) (\<lambda>(lid, _).
     and_then (db fails LoadRule (find (\<lambda>r. rule_id r = rid) (rule_rows st))) (\<lambda>loaded.
     and_then (ok_or (RuleIdNotExist rid) loaded) (\<lambda>current.
     if rule_location current \<noteq> lid then Inl (RuleIdNotExist rid)
     else
       let row = current\<lparr>rule_action := action, rule_exprs := expr, rule_updated := now\<rparr> in
       and_then
         (if fails UpdateRule
             \<or> list_ex (\<lambda>r. rule_id r \<noteq> rid \<and> index_key r = index_key row) (rule_rows st)
          then Inl (DbErr UpdateRule) else Inr (update_rule st row)) (\<lambda>st'.
       and_then (db fails Commit ()) (\<lambda>_. Inr (row, st'))))))))"

section \<open>The evaluator on the database\<close>

definition serving_location ::
    "('r, 'q) engine \<Rightarrow> 'r store \<Rightarrow> string \<Rightarrow> ('r pattern_with_time \<times> int) option" where
  "serving_location E st path =
     find (\<lambda>(pt, _). pattern_is_match E (pt_pattern pt) path)
       (btree_collect time_cmp time_eq (map (\<lambda>l. (pattern_time l, loc_id l)) (locations st)))"

definition evaluate_database ::
    "('r, 'q) engine \<Rightarrow> (statement \<Rightarrow> bool) \<Rightarrow> ('r exprs \<Rightarrow> request_action \<Rightarrow> request_action option)
      \<Rightarrow> 'r store \<Rightarrow> string \<Rightarrow> 'r location_rule_decision_error + 'r location_rule_decision" where
  "evaluate_database E fails decide st path =
     (if fails LoadLocations then Inl Backend
      else
        case serving_location E st path of
          None \<Rightarrow> Inl (NoRuleSet path)
        | Some (pt, lid) \<Rightarrow>
            if fails LoadRules then Inl Backend
            else
              (case find_map (\<lambda>r. decide (polish_parts (rule_exprs r)) (rule_action r))
                  (rev (rules_of_location st lid)) of
                 Some action \<Rightarrow> Inr \<lparr>dec_location = pt_pattern pt, dec_action = action\<rparr>
               | None \<Rightarrow> Inl (NoRuleInSet (pt_pattern pt))))"

section \<open>The migration to unique rules\<close>

definition newer_duplicate :: "'r rule_row \<Rightarrow> 'r rule_row \<Rightarrow> bool" where
  "newer_duplicate older newer \<longleftrightarrow> index_key newer = index_key older
     \<and> (rule_created older < rule_created newer
        \<or> (rule_created newer = rule_created older \<and> rule_id older < rule_id newer))"

definition collapse_duplicates :: "'r store \<Rightarrow> 'r store" where
  "collapse_duplicates st =
     st\<lparr>rule_rows := filter (\<lambda>older. \<not> list_ex (newer_duplicate older) (rule_rows st)) (rule_rows st)\<rparr>"

section \<open>The invariant of the store\<close>

definition store_ok :: "'r store \<Rightarrow> bool" where
  "store_ok st \<longleftrightarrow>
     distinct (map loc_id (locations st)) \<and> (\<forall>l \<in> set (locations st). loc_id l < next_location_id st)
     \<and> distinct (map (\<lambda>l. p_text (loc_pattern l)) (locations st))
     \<and> distinct (map rule_id (rule_rows st)) \<and> (\<forall>r \<in> set (rule_rows st). rule_id r < next_rule_id st)
     \<and> (\<forall>r \<in> set (rule_rows st). rule_location r \<in> loc_id ` set (locations st))
     \<and> distinct (map index_key (rule_rows st))"

lemma db_Inr [simp]: "db fails s x = Inr y \<longleftrightarrow> \<not> fails s \<and> y = x"
  by (auto simp: db_def)

lemma match_strict_Inr:
  "match_location_internal E fails st location True = Inr v \<longleftrightarrow>
     \<not> fails QueryExactLocation \<and> v = map_option (\<lambda>l. (loc_id l, loc_pattern l)) (exact_location st location)"
  by (auto simp: match_location_internal_def and_then_eq_Inr split: option.splits)

lemma store_ok_filter_rules:
  "store_ok st \<Longrightarrow> store_ok (st\<lparr>rule_rows := filter P (rule_rows st)\<rparr>)"
  by (simp add: store_ok_def distinct_map_filter)

lemma store_ok_delete: "store_ok st \<Longrightarrow> store_ok (delete_rules st ids)"
  by (simp add: delete_rules_def store_ok_filter_rules)

lemma store_ok_drop_location:
  "store_ok st \<Longrightarrow> store_ok (st\<lparr>locations := filter (\<lambda>l. loc_id l \<noteq> lid) (locations st),
     rule_rows := filter (\<lambda>r. rule_location r \<noteq> lid) (rule_rows st)\<rparr>)"
  by (auto simp: store_ok_def distinct_map_filter)

lemma update_rule_rows:
  "set (rule_rows (update_rule st row)) =
     (if rule_id row \<in> rule_id ` set (rule_rows st) then insert row {r \<in> set (rule_rows st). rule_id r \<noteq> rule_id row}
      else set (rule_rows st))"
proof (cases "rule_id row \<in> rule_id ` set (rule_rows st)")
  case True
  then show ?thesis by (auto simp: update_rule_def)
next
  case False
  then have "map (\<lambda>r. if rule_id r = rule_id row then row else r) (rule_rows st) = rule_rows st"
    by (intro map_idI) (auto simp: image_iff)
  with False show ?thesis by (simp add: update_rule_def)
qed

lemma store_ok_update:
  assumes "store_ok st" and "r0 \<in> set (rule_rows st)" and "rule_id row = rule_id r0"
    and "rule_location row = rule_location r0"
    and "\<forall>r \<in> set (rule_rows st). rule_id r \<noteq> rule_id row \<longrightarrow> index_key r \<noteq> index_key row"
  shows "store_ok (update_rule st row)"
proof -
  have ids: "map rule_id (rule_rows (update_rule st row)) = map rule_id (rule_rows st)"
    by (simp add: update_rule_def)
  have "distinct (map index_key (rule_rows (update_rule st row)))"
    unfolding distinct_map
  proof
    show "distinct (rule_rows (update_rule st row))"
      using assms(1) ids by (metis distinct_map store_ok_def)
    have inj: "inj_on index_key (set (rule_rows st))" using assms(1) by (simp add: store_ok_def distinct_map)
    show "inj_on index_key (set (rule_rows (update_rule st row)))"
      unfolding update_rule_rows using assms(2-5) inj
      by (auto simp: inj_on_def split: if_splits)
  qed
  moreover have "\<forall>r \<in> set (rule_rows (update_rule st row)). rule_id r < next_rule_id st
      \<and> rule_location r \<in> loc_id ` set (locations st)"
    using assms unfolding update_rule_rows store_ok_def by (auto split: if_splits)
  ultimately show ?thesis
    using assms(1) ids by (simp add: store_ok_def) (simp add: update_rule_def)
qed

lemma refresh_ok:
  assumes "store_ok st" and "r0 \<in> set (rule_rows st)"
    and "refresh_rule_priority fails now st r0 = Inr (row, st')"
  shows "store_ok st' \<and> st' = update_rule st row \<and> row = r0\<lparr>rule_created := now, rule_updated := now\<rparr>"
proof -
  have row: "row = r0\<lparr>rule_created := now, rule_updated := now\<rparr>" "st' = update_rule st row"
    using assms(3) by (auto simp: refresh_rule_priority_def Let_def)
  moreover have "index_key row = index_key r0" by (simp add: row index_key_def)
  moreover have "inj_on index_key (set (rule_rows st))" using assms(1) by (simp add: store_ok_def distinct_map)
  ultimately show ?thesis
    using assms by (auto intro!: store_ok_update [of st r0] simp: inj_on_def)
qed

lemma match_or_create_ok:
  assumes "store_ok st" and "match_or_create_location_internal E fails now st location = Inr (lid, st')"
  shows "store_ok st' \<and> rule_rows st' = rule_rows st \<and> next_rule_id st' = next_rule_id st
    \<and> (\<exists>l \<in> set (locations st'). loc_id l = lid \<and> p_text (loc_pattern l) = p_text location)"
proof (cases "exact_location st location")
  case (Some l)
  then have "l \<in> set (locations st)" "p_text (loc_pattern l) = p_text location"
    by (auto simp: exact_location_def dest: find_SomeD)
  with Some assms show ?thesis
    by (auto simp: match_or_create_location_internal_def and_then_eq_Inr match_strict_Inr)
next
  case None
  then have fresh: "p_text location \<notin> (\<lambda>l. p_text (loc_pattern l)) ` set (locations st)"
    by (auto simp: exact_location_def find_None_iff)
  have ids: "next_location_id st \<notin> loc_id ` set (locations st)"
    "\<forall>l \<in> set (locations st). loc_id l < next_location_id st + 1"
    using assms(1) by (force simp: store_ok_def)+
  have "lid = next_location_id st" "st' = st\<lparr>next_location_id := next_location_id st + 1,
      locations := locations st @ [\<lparr>loc_id = next_location_id st, loc_pattern = location,
        loc_created = now, loc_updated = now\<rparr>]\<rparr>"
    using None assms(2)
    by (auto simp: match_or_create_location_internal_def and_then_eq_Inr match_strict_Inr Let_def)
  then show ?thesis
    using assms(1) fresh ids by (simp add: store_ok_def)
qed

lemma find_append: "find P (xs @ ys) = (case find P xs of None \<Rightarrow> find P ys | Some x \<Rightarrow> Some x)"
  by (induction xs) auto

lemma rules_of_location_set:
  "set (rules_of_location st lid) = {r \<in> set (rule_rows st). rule_location r = lid}"
  by (auto simp: rules_of_location_def order_by_creation_def)

text \<open>The two ways an append ends: an existing rule was refreshed, or a new one inserted.\<close>

lemma append_cases:
  assumes "store_ok st" and "append_rule_internal E fails now st location action expr = Inr (row, st')"
  obtains (refreshed) lid st1 r0
    where "match_or_create_location_internal E fails now st location = Inr (lid, st1)"
      and "r0 \<in> set (rule_rows st1)" "rule_location r0 = lid" "rule_action r0 = action"
      and "polish_same (polish_parts (rule_exprs r0)) (polish_parts expr)"
      and "refresh_rule_priority fails now st1 r0 = Inr (row, st')"
  | (inserted) lid st1
    where "match_or_create_location_internal E fails now st location = Inr (lid, st1)"
      and "row = \<lparr>rule_id = next_rule_id st1, rule_location = lid, rule_action = action,
             rule_exprs = expr, rule_created = now, rule_updated = now\<rparr>"
      and "\<forall>r \<in> set (rule_rows st1). index_key r \<noteq> index_key row"
      and "st' = st1\<lparr>rule_rows := rule_rows st1 @ [row], next_rule_id := next_rule_id st1 + 1\<rparr>"
proof -
  obtain lid st1 where m: "match_or_create_location_internal E fails now st location = Inr (lid, st1)"
    using assms(2) by (auto simp: append_rule_internal_def and_then_eq_Inr)
  have st1: "store_ok st1" using match_or_create_ok [OF assms(1) m] by simp
  let ?same = "\<lambda>r. polish_same (polish_parts (rule_exprs r)) (polish_parts expr)"
  let ?candidates = "filter (\<lambda>r. rule_action r = action) (rules_of_location st1 lid)"
  let ?new = "\<lparr>rule_id = next_rule_id st1, rule_location = lid, rule_action = action,
             rule_exprs = expr, rule_created = now, rule_updated = now\<rparr>"
  have found: "r0 \<in> set (rule_rows st1) \<and> rule_location r0 = lid \<and> rule_action r0 = action \<and> ?same r0"
    if "find ?same ?candidates = Some r0" for r0
    using that by (auto dest!: find_SomeD simp: rules_of_location_set)
  show thesis
  proof (cases "find ?same ?candidates")
    case (Some r0)
    with assms(2) m have "refresh_rule_priority fails now st1 r0 = Inr (row, st')"
      by (auto simp: append_rule_internal_def and_then_eq_Inr Let_def)
    with found [OF Some] m show thesis by (intro refreshed) auto
  next
    case None
    show thesis
    proof (cases "list_ex (\<lambda>r. index_key r = index_key ?new) (rule_rows st1)")
      case True
      with None assms(2) m show thesis
        by (auto simp: append_rule_internal_def and_then_eq_Inr Let_def split: if_splits)
    next
      case False
      then have fresh: "\<forall>r \<in> set (rule_rows st1). index_key r \<noteq> index_key ?new"
        by (auto simp: list_ex_iff)
      have "find (\<lambda>r. rule_id r = next_rule_id st1) (rule_rows st1) = None"
        using st1 by (auto simp: find_None_iff store_ok_def)
      then have "find (\<lambda>r. rule_id r = next_rule_id st1) (rule_rows st1 @ [?new]) = Some ?new"
        by (simp add: find_append)
      with False None assms(2) m have "row = ?new"
        "st' = st1\<lparr>rule_rows := rule_rows st1 @ [?new], next_rule_id := next_rule_id st1 + 1\<rparr>"
        by (auto simp: append_rule_internal_def and_then_eq_Inr Let_def split: if_splits)
      with fresh m show thesis by (intro inserted) auto
    qed
  qed
qed

lemma append_ok:
  assumes "store_ok st" and "append_rule_internal E fails now st location action expr = Inr (row, st')"
  shows "store_ok st'"
  using assms
proof (cases rule: append_cases)
  case (refreshed lid st1 r0)
  from refreshed(2,6) match_or_create_ok [OF assms(1) refreshed(1)] show ?thesis
    using refresh_ok by blast
next
  case (inserted lid st1)
  with match_or_create_ok [OF assms(1) inserted(1)] show ?thesis
    by (fastforce simp: store_ok_def)
qed

lemma replace_ok:
  assumes "store_ok st" and "replace_rule_by_id E fails now st location rid action expr = Inr (row, st')"
  shows "store_ok st'"
proof -
  obtain r0 where r0: "find (\<lambda>r. rule_id r = rid) (rule_rows st) = Some r0"
    and row: "row = r0\<lparr>rule_action := action, rule_exprs := expr, rule_updated := now\<rparr>"
      "st' = update_rule st row"
    and unique: "\<not> list_ex (\<lambda>r. rule_id r \<noteq> rid \<and> index_key r = index_key row) (rule_rows st)"
    using assms(2) by (auto simp: replace_rule_by_id_def and_then_eq_Inr Let_def split: if_splits)
  from find_SomeD [OF r0] have "r0 \<in> set (rule_rows st)" "rule_id r0 = rid" by auto
  with row unique show ?thesis
    using assms(1) by (auto intro!: store_ok_update [of st r0] simp: list_ex_iff)
qed

lemma remove_ok:
  assumes "store_ok st"
  shows "remove_rule_set E fails st location = Inr st' \<Longrightarrow> store_ok st'"
    and "remove_rules E fails st location sequence = Inr st' \<Longrightarrow> store_ok st'"
    and "remove_rules_by_ids E fails st location ids = Inr st' \<Longrightarrow> store_ok st'"
  using assms
  by (auto simp: remove_rule_set_def remove_rules_def remove_rules_by_ids_def and_then_eq_Inr Let_def
      store_ok_drop_location store_ok_delete split: if_splits option.splits)

lemma polish_same_refl: "polish_same p p"
proof -
  have "atomic_eq a a" for a :: "'r atomic" by (cases a) (simp_all add: pattern_eq_def kv_eq_def)
  then have "part_same p p" for p :: "(boolean_operator, 'r atomic) part" by (cases p) simp_all
  then show ?thesis by (auto simp: polish_same_def intro: list.rel_refl)
qed

lemma find_map_map: "find_map f (map g xs) = find_map (f \<circ> g) xs"
  by (induction xs) (auto split: option.splits)

section \<open>The newest rule comes last\<close>

lemma order_by_creation_last:
  assumes "row \<in> set rules" and "distinct rules"
    and "\<forall>r \<in> set rules. r \<noteq> row \<longrightarrow> rule_created r < rule_created row"
  shows "\<exists>older. order_by_creation rules = older @ [row]"
proof -
  let ?k = "\<lambda>r. (rule_created r, rule_id r)"
  have sorted: "sorted (map ?k (order_by_creation rules))"
    and set: "set (order_by_creation rules) = set rules"
    and distinct: "distinct (order_by_creation rules)"
    using assms(2) by (simp_all add: order_by_creation_def)
  obtain us vs where split: "order_by_creation rules = us @ row # vs"
    using assms(1) set by (metis split_list)
  have "vs = []"
  proof (rule ccontr)
    assume "vs \<noteq> []"
    then obtain r where r: "r \<in> set vs" by (cases vs) auto
    with sorted split have "?k row \<le> ?k r" by (auto simp: sorted_append)
    moreover have "r \<noteq> row" "r \<in> set rules" using r split distinct set by auto
    ultimately show False using assms(3) by fastforce
  qed
  with split show ?thesis by blast
qed

lemma store_ok_distinct: "store_ok st \<Longrightarrow> distinct (rule_rows st)"
  unfolding store_ok_def distinct_map by blast

lemma rules_of_location_last:
  assumes "store_ok st" and "row \<in> set (rule_rows st)"
    and "\<forall>r \<in> set (rule_rows st). r \<noteq> row \<longrightarrow> rule_created r < rule_created row"
  shows "\<exists>older. rules_of_location st (rule_location row) = older @ [row]"
  unfolding rules_of_location_def
  using assms store_ok_distinct [OF assms(1)] by (intro order_by_creation_last) auto

section \<open>Rows that are unique need no deduplication\<close>

lemma atomic_eq_show: "atomic_eq a b \<Longrightarrow> show_atomic a = show_atomic b"
  by (cases a; cases b) (auto simp: pattern_eq_def kv_eq_def quoted_kv_def)

lemma part_same_show: "part_same p q \<Longrightarrow> show_part p = show_part q"
  by (cases p; cases q) (auto simp: atomic_eq_show)

lemma polish_same_serialize: "polish_same a b \<Longrightarrow> serialize_exprs a = serialize_exprs b"
  unfolding polish_same_def
  by (induction rule: list_all2_induct) (simp_all add: serialize_exprs_def part_same_show)

lemma same_logical_index:
  "same_logical_rule a b \<Longrightarrow> rule_location a = rule_location b \<Longrightarrow> index_key a = index_key b"
  by (auto simp: same_logical_rule_def index_key_def polish_same_serialize)

lemma deduplicate_unique:
  assumes "distinct (map index_key (unique @ rules))"
    and "\<forall>r \<in> set (unique @ rules). rule_location r = lid"
  shows "deduplicate_from unique rules = unique @ rules"
  using assms
proof (induction rules arbitrary: unique)
  case (Cons r rules)
  have "\<not> same_logical_rule u r" if "u \<in> set unique" for u
  proof
    assume "same_logical_rule u r"
    moreover have "rule_location u = rule_location r" using Cons.prems(2) that by simp
    ultimately have "index_key u = index_key r" by (rule same_logical_index)
    then have "index_key r \<in> index_key ` set unique" using that by (metis image_eqI)
    with Cons.prems(1) show False by simp
  qed
  then have "\<not> list_ex (\<lambda>u. same_logical_rule u r) unique" by (auto simp: list_ex_iff)
  with Cons show ?case by simp
qed simp

lemma deduplicate_location:
  assumes "store_ok st"
  shows "deduplicate_rules (filter (\<lambda>r. rule_location r = lid) (rule_rows st))
    = filter (\<lambda>r. rule_location r = lid) (rule_rows st)"
  unfolding deduplicate_rules_def
  using assms by (subst deduplicate_unique [where lid = lid]) (auto simp: store_ok_def distinct_map_filter)

section \<open>The matcher built from the store\<close>

lemma stable_sort_map:
  "stable_sort c (map (\<lambda>(k, v). (k, f k v)) xs) = map (\<lambda>(k, v). (k, f k v)) (stable_sort c xs)"
proof -
  have ins: "insert_sorted c (k, f k v) (map (\<lambda>(k, v). (k, f k v)) ys)
      = map (\<lambda>(k, v). (k, f k v)) (insert_sorted c (k, v) ys)" for k v ys
    by (induction ys) auto
  show ?thesis by (induction xs) (auto simp: stable_sort_def ins)
qed

lemma stable_sort_sorted: "time_order.ascending xs \<Longrightarrow> stable_sort time_cmp xs = xs"
proof (induction xs)
  case (Cons x xs)
  then have "stable_sort time_cmp xs = xs" by (simp add: time_order.ascending_def)
  with Cons.prems show ?case
    by (cases xs) (auto simp: stable_sort_def time_order.ascending_def)
qed (simp add: stable_sort_def)

lemma find_map_key:
  "find (\<lambda>(k, _). P k) (map (\<lambda>(k, v). (k, f k v)) xs) = map_option (\<lambda>(k, v). (k, f k v)) (find (\<lambda>(k, _). P k) xs)"
  by (induction xs) auto

lemma distinct_pattern_times:
  "store_ok st \<Longrightarrow> distinct (map (\<lambda>row. p_text (pt_pattern (fst row)))
     (map (\<lambda>l. (pattern_time l, f l)) (locations st)))"
  by (simp add: store_ok_def comp_def pattern_time_def)

lemma list_all_rules_ok:
  assumes "store_ok st"
  shows "list_all_rules (\<lambda>_. False) st
    = Inr (map (\<lambda>(pt, l). (pt, l, rules_of_location st (loc_id l)))
        (stable_sort time_cmp (map (\<lambda>l. (pattern_time l, l)) (locations st))))"
proof -
  let ?f = "\<lambda>l. (l, rules_of_location st (loc_id l))"
  have zip: "zip xs (map f xs) = map (\<lambda>x. (x, f x)) xs" for f :: "'r location_row \<Rightarrow> 'b" and xs
    by (induction xs) auto
  have "map (\<lambda>(l, rules). (pattern_time l, l, order_by_creation (deduplicate_rules rules)))
      (zip (locations st) (map (\<lambda>l. filter (\<lambda>r. rule_location r = loc_id l) (rule_rows st)) (locations st)))
    = map (\<lambda>l. (pattern_time l, ?f l)) (locations st)"
    unfolding zip by (simp add: deduplicate_location [OF assms] rules_of_location_def)
  moreover have "btree_collect time_cmp time_eq (map (\<lambda>l. (pattern_time l, ?f l)) (locations st))
      = stable_sort time_cmp (map (\<lambda>l. (pattern_time l, ?f l)) (locations st))"
    using distinct_pattern_times [OF assms] by (rule collect_distinct)
  moreover have "stable_sort time_cmp (map (\<lambda>l. (pattern_time l, ?f l)) (locations st))
      = map (\<lambda>(pt, l). (pt, ?f l)) (stable_sort time_cmp (map (\<lambda>l. (pattern_time l, l)) (locations st)))"
    using stable_sort_map [of time_cmp "\<lambda>_. ?f" "map (\<lambda>l. (pattern_time l, l)) (locations st)"]
    by (simp add: comp_def)
  ultimately show ?thesis by (simp add: list_all_rules_def db_def Let_def)
qed

lemma matcher_from_rules_ok:
  assumes "store_ok st"
  shows "matcher_from_rules (map (\<lambda>(pt, l). (pt, l, rules_of_location st (loc_id l)))
        (stable_sort time_cmp (map (\<lambda>l. (pattern_time l, l)) (locations st))))
    = map (\<lambda>(pt, l). (pt, map (\<lambda>r. (rule_exprs r, rule_action r)) (rules_of_location st (loc_id l))))
        (stable_sort time_cmp (map (\<lambda>l. (pattern_time l, l)) (locations st)))"
    (is "matcher_from_rules ?m = ?r")
proof -
  let ?s = "stable_sort time_cmp (map (\<lambda>l. (pattern_time l, l)) (locations st))"
  have fst: "map fst ?r = map fst ?s" by (simp add: comp_def case_prod_beta)
  have "matcher_from_rules ?m = btree_collect time_cmp time_eq ?r"
    by (simp add: matcher_from_rules_def comp_def case_prod_unfold)
  also have "\<dots> = stable_sort time_cmp ?r"
  proof (rule collect_distinct)
    have "distinct (map (\<lambda>row. p_text (pt_pattern (fst row))) ?s)"
      using distinct_pattern_times [OF assms, of id] by (simp add: time_order.distinct_stable_sort)
    then show "distinct (map (\<lambda>row. p_text (pt_pattern (fst row))) ?r)"
      by (simp add: comp_def case_prod_beta)
  qed
  also have "\<dots> = ?r"
  proof (rule stable_sort_sorted)
    have "sorted_wrt (\<lambda>a b. time_cmp a b \<noteq> Greater) (map fst ?s)"
      using time_order.stable_sort_ascending [of "map (\<lambda>l. (pattern_time l, l)) (locations st)"]
      by (simp add: time_order.ascending_def sorted_wrt_map)
    then show "time_order.ascending ?r"
      unfolding fst [symmetric] by (simp add: time_order.ascending_def sorted_wrt_map)
  qed
  finally show ?thesis .
qed

section \<open>Collapsing duplicates\<close>

lemma find_map_filter:
  assumes "\<And>us x vs. xs = us @ x # vs \<Longrightarrow> \<not> P x \<Longrightarrow> \<exists>y \<in> set us. f y = f x"
  shows "find_map f (filter P xs) = find_map f xs"
  using assms
proof (induction xs rule: rev_induct)
  case (snoc x xs)
  have app: "find_map f (as @ bs) = (case find_map f as of None \<Rightarrow> find_map f bs | Some y \<Rightarrow> Some y)" for as bs
    by (induction as) (auto split: option.splits)
  have IH: "find_map f (filter P xs) = find_map f xs"
  proof (rule snoc.IH)
    fix us y vs
    assume "xs = us @ y # vs" "\<not> P y"
    then show "\<exists>z \<in> set us. f z = f y" using snoc.prems [of us y "vs @ [x]"] by simp
  qed
  show ?case
  proof (cases "P x")
    case True
    with IH show ?thesis by (simp add: app)
  next
    case False
    then obtain y where "y \<in> set xs" "f y = f x" using snoc.prems [of xs x "[]"] by auto
    then have "find_map f xs = None \<Longrightarrow> f x = None" by (metis find_map_None)
    with False IH show ?thesis by (auto simp: app split: option.splits)
  qed
qed simp

lemma newer_duplicate_earlier:
  assumes "rev (order_by_creation rules) = us @ x # vs" and "y \<in> set rules" and "newer_duplicate x y"
  shows "y \<in> set us"
proof (rule ccontr)
  let ?k = "\<lambda>r. (rule_created r, rule_id r)"
  assume "y \<notin> set us"
  have split: "order_by_creation rules = rev vs @ x # rev us"
    using assms(1) by (metis append.assoc append_Cons append_Nil rev.simps(2) rev_append rev_rev_ident)
  moreover have "set (order_by_creation rules) = set rules" by (simp add: order_by_creation_def)
  ultimately have "y \<in> set vs \<or> y = x" using assms(2) \<open>y \<notin> set us\<close> by auto
  moreover have "sorted (map ?k (order_by_creation rules))" by (simp add: order_by_creation_def)
  then have "\<forall>r \<in> set vs. ?k r \<le> ?k x" unfolding split by (auto simp: sorted_append)
  ultimately show False using assms(3) by (auto simp: newer_duplicate_def)
qed

lemma rules_of_location_collapse:
  "rules_of_location (collapse_duplicates st) lid
    = filter (\<lambda>older. \<not> list_ex (newer_duplicate older) (rule_rows st)) (rules_of_location st lid)"
proof -
  have swap: "filter P (filter Q xs) = filter Q (filter P xs)" for P Q and xs :: "'r rule_row list"
    by (induction xs) auto
  have upd: "rule_rows (st\<lparr>rule_rows := xs\<rparr>) = xs" for xs by simp
  show ?thesis
    unfolding rules_of_location_def order_by_creation_def collapse_duplicates_def filter_sort upd
    by (subst swap) (rule refl)
qed

section \<open>Properties\<close>

text \<open>C22: every operation keeps the store's invariant: identifiers and patterns are unique, every rule
  belongs to a stored rule set, and no two rules of a set have the same action and expression.\<close>
theorem store_invariant:
  assumes "store_ok st"
  shows "(remove_rule_set E fails st location = Inr st' \<longrightarrow> store_ok st')
    \<and> (remove_rules E fails st location sequence = Inr st' \<longrightarrow> store_ok st')
    \<and> (remove_rules_by_ids E fails st location ids = Inr st' \<longrightarrow> store_ok st')
    \<and> (append_rule_internal E fails now st location action expr = Inr (row, st') \<longrightarrow> store_ok st')
    \<and> (replace_rule_by_id E fails now st location rid action expr = Inr (row, st') \<longrightarrow> store_ok st')"
  using assms remove_ok append_ok replace_ok by (intro conjI impI) blast+

theorem store_invariant_witness:
  "\<exists>row st'. append_rule_internal toy_engine (\<lambda>_. False) 5
       \<lparr>locations = [], rule_rows = [], next_location_id = 1, next_rule_id = 1\<rparr>
       \<lparr>p_kind = LCommon, p_regex = ''^/'', p_text = ''/''\<rparr> Deny
       \<lparr>infix_text = ''*?'', polish_parts = [Expr Any]\<rparr> = Inr (row, st') \<and> store_ok st'"
proof -
  let ?st = "\<lparr>locations = [] :: string location_row list, rule_rows = [], next_location_id = 1, next_rule_id = 1\<rparr>"
  have ok: "store_ok ?st" by (simp add: store_ok_def)
  have "\<exists>row st'. append_rule_internal toy_engine (\<lambda>_. False) 5 ?st
       \<lparr>p_kind = LCommon, p_regex = ''^/'', p_text = ''/''\<rparr> Deny
       \<lparr>infix_text = ''*?'', polish_parts = [Expr Any]\<rparr> = Inr (row, st')"
    by (simp add: append_rule_internal_def match_or_create_location_internal_def
        match_location_internal_def exact_location_def db_def Let_def rules_of_location_def
        order_by_creation_def)
  with store_invariant [OF ok] show ?thesis by blast
qed

text \<open>C17: an appended rule takes effect: it is stored in the rule set of its pattern with the given
  action and an expression of the same parts, it comes last there, and when it decides a request
  whose path is served by that rule set, the database evaluator answers with its decision.  The
  clock reads later than every creation time in the store.\<close>
theorem append_takes_effect:
  assumes "store_ok st" and "\<forall>r \<in> set (rule_rows st). rule_created r < now"
    and "append_rule_internal E fails now st location action expr = Inr (row, st')"
  shows "rule_action row = action \<and> polish_same (polish_parts (rule_exprs row)) (polish_parts expr)
    \<and> (\<exists>l \<in> set (locations st'). loc_id l = rule_location row \<and> p_text (loc_pattern l) = p_text location)
    \<and> (\<exists>older. rules_of_location st' (rule_location row) = older @ [row])
    \<and> (\<forall>decide path pt a. serving_location E st' path = Some (pt, rule_location row)
          \<and> decide (polish_parts (rule_exprs row)) action = Some a \<longrightarrow>
        evaluate_database E (\<lambda>_. False) decide st' path = Inr \<lparr>dec_location = pt_pattern pt, dec_action = a\<rparr>)"
proof -
  have st': "store_ok st'" using assms by (blast intro: append_ok)
  have facts: "rule_action row = action \<and> polish_same (polish_parts (rule_exprs row)) (polish_parts expr)
    \<and> (\<exists>l \<in> set (locations st'). loc_id l = rule_location row \<and> p_text (loc_pattern l) = p_text location)
    \<and> row \<in> set (rule_rows st') \<and> rule_created row = now
    \<and> (\<forall>r \<in> set (rule_rows st'). r \<noteq> row \<longrightarrow> r \<in> set (rule_rows st))"
    using assms(1,3)
  proof (cases rule: append_cases)
    case (refreshed lid st1 r0)
    from match_or_create_ok [OF assms(1) refreshed(1)]
    have st1: "store_ok st1" "rule_rows st1 = rule_rows st"
      "\<exists>l \<in> set (locations st1). loc_id l = lid \<and> p_text (loc_pattern l) = p_text location" by auto
    from refresh_ok [OF st1(1) refreshed(2,6)]
    have row: "row = r0\<lparr>rule_created := now, rule_updated := now\<rparr>" "st' = update_rule st1 row" by auto
    moreover have "locations st' = locations st1" by (simp add: row update_rule_def)
    ultimately show ?thesis
      using refreshed st1 by (auto simp: update_rule_rows)
  next
    case (inserted lid st1)
    with match_or_create_ok [OF assms(1) inserted(1)] show ?thesis
      by (auto simp: polish_same_refl)
  qed
  with assms(2) st' obtain older where older: "rules_of_location st' (rule_location row) = older @ [row]"
    using rules_of_location_last [of st' row] by blast
  with facts show ?thesis by (auto simp: evaluate_database_def)
qed

text \<open>C24: the evaluator on the database and the in-memory matcher built from a full listing of the
  store give the same answer for every path and every way of evaluating rules.\<close>
theorem database_matcher_agree:
  assumes "store_ok st"
  shows "\<exists>m. list_all_rules (\<lambda>_. False) st = Inr m
    \<and> evaluate_rules E decide (matcher_from_rules m) path = evaluate_database E (\<lambda>_. False) decide st path"
proof -
  let ?s = "stable_sort time_cmp (map (\<lambda>l. (pattern_time l, l)) (locations st))"
  let ?P = "\<lambda>(pt, _). pattern_is_match E (pt_pattern pt) path"
  let ?rules = "\<lambda>l. map (\<lambda>r. (rule_exprs r, rule_action r)) (rules_of_location st (loc_id l))"
  have rev_rules: "find_map (\<lambda>(exprs, action). decide (polish_parts exprs) action) (rev (?rules l))
      = find_map (\<lambda>r. decide (polish_parts (rule_exprs r)) (rule_action r)) (rev (rules_of_location st (loc_id l)))"
    for l
    by (simp add: rev_map find_map_map comp_def)
  have "serving_location E st path = map_option (\<lambda>(pt, l). (pt, loc_id l)) (find ?P ?s)"
  proof -
    have "btree_collect time_cmp time_eq (map (\<lambda>l. (pattern_time l, loc_id l)) (locations st))
        = stable_sort time_cmp (map (\<lambda>l. (pattern_time l, loc_id l)) (locations st))"
      using distinct_pattern_times [OF assms] by (rule collect_distinct)
    also have "\<dots> = map (\<lambda>(pt, l). (pt, loc_id l)) ?s"
      using stable_sort_map [of time_cmp "\<lambda>_. loc_id" "map (\<lambda>l. (pattern_time l, l)) (locations st)"]
      by (simp add: comp_def)
    finally show ?thesis
      using find_map_key [of "\<lambda>pt. pattern_is_match E (pt_pattern pt) path" "\<lambda>_. loc_id" ?s]
      by (simp add: serving_location_def)
  qed
  then have "evaluate_rules E decide (map (\<lambda>(pt, l). (pt, ?rules l)) ?s) path
      = evaluate_database E (\<lambda>_. False) decide st path"
    using find_map_key [of "\<lambda>pt. pattern_is_match E (pt_pattern pt) path" "\<lambda>_. ?rules" ?s]
    by (cases "find ?P ?s")
       (auto simp: evaluate_rules_def match_rule_def match_rules_def evaluate_database_def rev_rules
          split: option.splits)
  with list_all_rules_ok [OF assms] matcher_from_rules_ok [OF assms] show ?thesis by auto
qed

theorem append_takes_effect_witness:
  "\<exists>row st' older. append_rule_internal toy_engine (\<lambda>_. False) 5
       \<lparr>locations = [], rule_rows = [], next_location_id = 1, next_rule_id = 1\<rparr>
       \<lparr>p_kind = LCommon, p_regex = ''^/'', p_text = ''/''\<rparr> Deny
       \<lparr>infix_text = ''*?'', polish_parts = [Expr Any]\<rparr> = Inr (row, st')
     \<and> rule_action row = Deny \<and> rules_of_location st' (rule_location row) = older @ [row]"
proof -
  let ?st = "\<lparr>locations = [] :: string location_row list, rule_rows = [], next_location_id = 1, next_rule_id = 1\<rparr>"
  have ok: "store_ok ?st" "\<forall>r \<in> set (rule_rows ?st). rule_created r < 5" by (simp_all add: store_ok_def)
  obtain row st' where r: "append_rule_internal toy_engine (\<lambda>_. False) 5 ?st
       \<lparr>p_kind = LCommon, p_regex = ''^/'', p_text = ''/''\<rparr> Deny
       \<lparr>infix_text = ''*?'', polish_parts = [Expr Any]\<rparr> = Inr (row, st')"
    by (simp add: append_rule_internal_def match_or_create_location_internal_def
        match_location_internal_def exact_location_def db_def Let_def rules_of_location_def
        order_by_creation_def)
  from append_takes_effect [OF ok r] r show ?thesis by blast
qed

theorem database_matcher_agree_witness:
  "\<exists>m. list_all_rules (\<lambda>_. False)
       \<lparr>locations = [\<lparr>loc_id = 1, loc_pattern = \<lparr>p_kind = LCommon, p_regex = ''^/'', p_text = ''/''\<rparr>,
          loc_created = 3, loc_updated = 3\<rparr>],
        rule_rows = [\<lparr>rule_id = 1, rule_location = 1, rule_action = Allow,
          rule_exprs = \<lparr>infix_text = ''*?'', polish_parts = [Expr Any]\<rparr>, rule_created = 4, rule_updated = 4\<rparr>],
        next_location_id = 2, next_rule_id = 2\<rparr> = Inr m
     \<and> evaluate_rules toy_engine (\<lambda>_ a. Some a) (matcher_from_rules m) ''/x''
       = Inr \<lparr>dec_location = \<lparr>p_kind = LCommon, p_regex = ''^/'', p_text = ''/''\<rparr>, dec_action = Allow\<rparr>"
proof -
  let ?l = "\<lparr>loc_id = 1, loc_pattern = \<lparr>p_kind = LCommon, p_regex = ''^/'', p_text = ''/''\<rparr>,
          loc_created = 3, loc_updated = 3\<rparr>"
  let ?r = "\<lparr>rule_id = 1, rule_location = 1, rule_action = Allow,
          rule_exprs = \<lparr>infix_text = ''*?'', polish_parts = [Expr Any]\<rparr>, rule_created = 4, rule_updated = 4\<rparr>"
  let ?st = "\<lparr>locations = [?l], rule_rows = [?r], next_location_id = 2, next_rule_id = 2\<rparr>"
  have ok: "store_ok ?st" by (simp add: store_ok_def)
  have "pattern_is_match toy_engine \<lparr>p_kind = LCommon, p_regex = ''^/'', p_text = ''/''\<rparr> ''/x''"
    by (simp add: pattern_is_match_def toy_engine_def)
  then have "evaluate_database toy_engine (\<lambda>_. False) (\<lambda>_ a. Some a) ?st ''/x''
      = Inr \<lparr>dec_location = \<lparr>p_kind = LCommon, p_regex = ''^/'', p_text = ''/''\<rparr>, dec_action = Allow\<rparr>"
    by (simp add: evaluate_database_def serving_location_def btree_collect_def stable_sort_def
        pattern_time_def rules_of_location_def order_by_creation_def)
  with database_matcher_agree [OF ok, of toy_engine "\<lambda>_ a. Some a" "''/x''"] show ?thesis by metis
qed

text \<open>C32: collapsing duplicate rules before the unique index is created keeps, of every group of rules
  with the same set, action and stored expression, the newest one: the index columns are unique
  afterwards, and the evaluator decides every request as before.  Stored expressions are readable.\<close>
theorem collapse_keeps_decisions:
  fixes E :: "('r, 'q :: finite) engine"
  assumes "distinct (map rule_id (rule_rows st))"
    and "\<forall>r \<in> set (rule_rows st).
      deserialize_exprs E (serialize_exprs (polish_parts (rule_exprs r))) = Inr (polish_parts (rule_exprs r))"
  shows "distinct (map index_key (rule_rows (collapse_duplicates st)))
    \<and> evaluate_database E fails decide (collapse_duplicates st) path = evaluate_database E fails decide st path"
proof
  let ?P = "\<lambda>older. \<not> list_ex (newer_duplicate older) (rule_rows st)"
  have "inj_on index_key {r \<in> set (rule_rows st). ?P r}"
  proof (rule inj_onI)
    fix a b
    assume "a \<in> {r \<in> set (rule_rows st). ?P r}" "b \<in> {r \<in> set (rule_rows st). ?P r}" "index_key a = index_key b"
    then have "\<not> newer_duplicate a b" "\<not> newer_duplicate b a" "rule_id a = rule_id b \<Longrightarrow> a = b"
      using assms(1) by (auto simp: list_ex_iff distinct_map inj_on_def)
    with \<open>index_key a = index_key b\<close> show "a = b" by (auto simp: newer_duplicate_def)
  qed
  moreover have "distinct (rule_rows st)" using assms(1) by (simp add: distinct_map)
  ultimately show "distinct (map index_key (rule_rows (collapse_duplicates st)))"
    by (simp add: collapse_duplicates_def distinct_map)
  let ?f = "\<lambda>r. decide (polish_parts (rule_exprs r)) (rule_action r)"
  have "find_map ?f (rev (rules_of_location (collapse_duplicates st) lid)) = find_map ?f (rev (rules_of_location st lid))"
    for lid
    unfolding rules_of_location_collapse rev_filter
  proof (rule find_map_filter)
    fix us x vs
    assume split: "rev (rules_of_location st lid) = us @ x # vs" and "\<not> ?P x"
    then obtain y where y: "y \<in> set (rule_rows st)" "newer_duplicate x y" by (auto simp: list_ex_iff)
    have x: "x \<in> set (rule_rows st)" "rule_location x = lid"
      using split rules_of_location_set [of st lid] by (metis (mono_tags, lifting) in_set_conv_decomp mem_Collect_eq set_rev)+
    from y(2) have same: "rule_location y = lid" "rule_action y = rule_action x"
      "serialize_exprs (polish_parts (rule_exprs y)) = serialize_exprs (polish_parts (rule_exprs x))"
      using x by (auto simp: newer_duplicate_def index_key_def)
    then have "y \<in> set us"
      using newer_duplicate_earlier [of "filter (\<lambda>r. rule_location r = lid) (rule_rows st)" us x vs y] split y
      by (simp add: rules_of_location_def)
    moreover have "polish_parts (rule_exprs y) = polish_parts (rule_exprs x)"
      using assms(2) x(1) y(1) same(3) by (metis sum.inject(2))
    ultimately show "\<exists>y \<in> set us. ?f y = ?f x" using same by (intro bexI [of _ y]) simp_all
  qed
  then show "evaluate_database E fails decide (collapse_duplicates st) path = evaluate_database E fails decide st path"
    by (simp add: evaluate_database_def serving_location_def collapse_duplicates_def split: option.splits)
qed

theorem collapse_keeps_decisions_witness:
  "distinct (map index_key (rule_rows (collapse_duplicates
     \<lparr>locations = [] :: string location_row list,
      rule_rows = [\<lparr>rule_id = 1, rule_location = 1, rule_action = Allow,
          rule_exprs = \<lparr>infix_text = ''*?'', polish_parts = [Expr Any]\<rparr>, rule_created = 4, rule_updated = 4\<rparr>,
        \<lparr>rule_id = 2, rule_location = 1, rule_action = Allow,
          rule_exprs = \<lparr>infix_text = ''*?'', polish_parts = [Expr Any]\<rparr>, rule_created = 4, rule_updated = 4\<rparr>],
      next_location_id = 2, next_rule_id = 3\<rparr>)))"
proof -
  have "validate_arity [Expr Any :: (boolean_operator, string atomic) part] = Inr ()"
    using validate_arity_polish [of "Leaf Any"] by simp
  then have "deserialize_exprs toy_engine (serialize_exprs ([Expr Any] :: string exprs)) = Inr [Expr Any]"
    by (intro deserialize_serialize) simp_all
  then show ?thesis
    by (intro collapse_keeps_decisions [where E = toy_engine, THEN conjunct1]) simp_all
qed

end
