(* ===== verification/Certificates.thy ===== *)
theory Certificates
  imports Prelude
begin

text \<open>
  The crate \<open>dhttp-home\<close>, files \<open>home/src/certificate.rs\<close>, \<open>home/src/certificate/rules.rs\<close> and
  \<open>home/src/ocsp.rs\<close>: certificate sequences, the DHTTP subject key identifier with its text form,
  its extraction from a certificate chain, the choice of the signature scheme, and the refresh of
  a stapled OCSP response.  X.509 and OCSP decoding, the signature algorithms and the HTTP client
  are parameters.
\<close>

section \<open>Certificate sequences\<close>

datatype certificate_sequence = CertificateSequence (sequence_get: "32 word")

definition SEQUENCE_MAX :: "32 word" where
  "SEQUENCE_MAX = 0x7FFFFFFF"

datatype invalid_certificate_sequence = Negative | OutOfRange "64 word"

definition sequence_from_u8 :: "8 word \<Rightarrow> certificate_sequence" where
  "sequence_from_u8 v = CertificateSequence (ucast v)"

definition sequence_from_u16 :: "16 word \<Rightarrow> certificate_sequence" where
  "sequence_from_u16 v = CertificateSequence (ucast v)"

definition sequence_from_u32 :: "32 word \<Rightarrow> invalid_certificate_sequence + certificate_sequence" where
  "sequence_from_u32 v =
     (if SEQUENCE_MAX < v then Inl (OutOfRange (ucast v)) else Inr (CertificateSequence v))"

text \<open>An \<open>i32\<close> is the 32 bits read as a signed number; the cast to \<open>u32\<close> keeps them.\<close>

definition sequence_from_i32 :: "32 word \<Rightarrow> invalid_certificate_sequence + certificate_sequence" where
  "sequence_from_i32 v = (if sint v < 0 then Inl Negative else sequence_from_u32 v)"

definition sequence_from_u64 :: "64 word \<Rightarrow> invalid_certificate_sequence + certificate_sequence" where
  "sequence_from_u64 v =
     (if ucast SEQUENCE_MAX < v then Inl (OutOfRange v) else Inr (CertificateSequence (ucast v)))"

section \<open>Usage and owner\<close>

datatype certificate_usage = ClientOnly | ClientAndServer

fun usage_as_str :: "certificate_usage \<Rightarrow> string" where
  "usage_as_str ClientOnly = ''client''"
| "usage_as_str ClientAndServer = ''client and server''"

fun usage_kind_flag :: "certificate_usage \<Rightarrow> string" where
  "usage_kind_flag ClientOnly = ''1''"
| "usage_kind_flag ClientAndServer = ''0''"

datatype owner_hash = OwnerHash (owner_hash_str: string)

datatype invalid_owner_hash = InvalidOwnerHash

definition owner_hash_byte :: "char \<Rightarrow> bool" where
  "owner_hash_byte c \<longleftrightarrow> is_ascii_digit c \<or> (97 \<le> code c \<and> code c \<le> 102)"

definition owner_hash_try_from :: "string \<Rightarrow> invalid_owner_hash + owner_hash" where
  "owner_hash_try_from v =
     (if length v = 64 \<and> list_all owner_hash_byte v then Inr (OwnerHash v) else Inl InvalidOwnerHash)"

record certificate_chain_key =
  chain_sequence :: certificate_sequence
  chain_usage :: certificate_usage

definition show_chain_key :: "certificate_chain_key \<Rightarrow> string" where
  "show_chain_key k =
     usage_as_str (chain_usage k) @ '':'' @ show_nat (unat (sequence_get (chain_sequence k)))"

section \<open>The subject key identifier\<close>

record dhttp_ski =
  ski_chain :: certificate_chain_key
  ski_owner_hash :: owner_hash

datatype invalid_dhttp_ski = Utf8 | FieldCount | Sequence parse_int_error
  | SequenceRange invalid_certificate_sequence | KindFlag | OwnerHashError invalid_owner_hash

definition usage_from_flag :: "string \<Rightarrow> invalid_dhttp_ski + certificate_usage" where
  "usage_from_flag flag =
     (if flag = ''0'' then Inr ClientAndServer else if flag = ''1'' then Inr ClientOnly
      else Inl KindFlag)"

definition ski_from_str :: "string \<Rightarrow> invalid_dhttp_ski + dhttp_ski" where
  "ski_from_str v =
     (case split_on CHR '':'' v of
        [seq, flag, hash] \<Rightarrow>
          and_then (map_err Sequence (parse_uint (2 ^ 64 - 1) seq)) (\<lambda>n.
          and_then (map_err SequenceRange (sequence_from_u64 (of_nat n))) (\<lambda>seq.
          and_then (usage_from_flag flag) (\<lambda>usage.
          and_then (map_err OwnerHashError (owner_hash_try_from hash)) (\<lambda>owner.
            Inr \<lparr>ski_chain = \<lparr>chain_sequence = seq, chain_usage = usage\<rparr>, ski_owner_hash = owner\<rparr>))))
      | _ \<Rightarrow> Inl FieldCount)"

definition ski_from_bytes :: "string \<Rightarrow> invalid_dhttp_ski + dhttp_ski" where
  "ski_from_bytes bytes = (if valid_utf8 bytes then ski_from_str bytes else Inl Utf8)"

definition show_ski :: "dhttp_ski \<Rightarrow> string" where
  "show_ski x =
     show_nat (unat (sequence_get (chain_sequence (ski_chain x)))) @ '':''
     @ usage_kind_flag (chain_usage (ski_chain x)) @ '':'' @ owner_hash_str (ski_owner_hash x)"

section \<open>Extraction from a certificate chain\<close>

text \<open>
  What \<open>x509_parser\<close> yields for an extension: the key identifier if it is a parsed one, and whether
  its object identifier is that of the subject key identifier.
\<close>

record extension =
  ext_key_identifier :: "string option"
  ext_is_ski :: bool

datatype extract_ski_error = EmptyCertificateChain | ParseCertificate | ParseExtension

fun first_ski :: "extension list \<Rightarrow> extract_ski_error + string option" where
  "first_ski [] = Inr None"
| "first_ski (e # es) =
     (case ext_key_identifier e of
        Some identifier \<Rightarrow> Inr (Some identifier)
      | None \<Rightarrow> if ext_is_ski e then Inl ParseExtension else first_ski es)"

definition extract_ski :: "('c \<Rightarrow> extension list option) \<Rightarrow> 'c list \<Rightarrow> extract_ski_error + string option" where
  "extract_ski parse chain =
     (case chain of
        [] \<Rightarrow> Inl EmptyCertificateChain
      | leaf # _ \<Rightarrow> (case parse leaf of None \<Rightarrow> Inl ParseCertificate | Some es \<Rightarrow> first_ski es))"

datatype extract_dhttp_ski_error = ExtractSki extract_ski_error | MissingSubjectKeyIdentifier
  | InvalidDhttpSki invalid_dhttp_ski

definition extract_dhttp_ski ::
    "('c \<Rightarrow> extension list option) \<Rightarrow> 'c list \<Rightarrow> extract_dhttp_ski_error + dhttp_ski" where
  "extract_dhttp_ski parse chain =
     and_then (map_err ExtractSki (extract_ski parse chain)) (\<lambda>ski.
     and_then (ok_or MissingSubjectKeyIdentifier ski) (\<lambda>ski.
       map_err InvalidDhttpSki (ski_from_bytes ski)))"

section \<open>Signature verification\<close>

datatype oid = OID_SIG_ED25519 | OID_PKCS1_RSAENCRYPTION | OID_KEY_TYPE_EC_PUBLIC_KEY
  | OID_EC_P256 | OID_NIST_EC_P384 | OtherOid string

datatype signature_scheme = ED25519 | RSA_PSS_SHA512 | ECDSA_NISTP256_SHA256 | ECDSA_NISTP384_SHA384

datatype verify_error = UnsupportedKey

text \<open>A decoded public key info: the parameters as an object identifier, where they are one.\<close>

record spki =
  spki_algorithm :: oid
  spki_parameters :: "oid option"
  spki_key :: string

definition canonical_verification_scheme ::
    "(string \<Rightarrow> spki option) \<Rightarrow> string \<Rightarrow> verify_error + signature_scheme" where
  "canonical_verification_scheme decode bytes =
     (case decode bytes of
        None \<Rightarrow> Inl UnsupportedKey
      | Some spki \<Rightarrow>
          if spki_algorithm spki = OID_SIG_ED25519 then Inr ED25519
          else if spki_algorithm spki = OID_PKCS1_RSAENCRYPTION then Inr RSA_PSS_SHA512
          else if spki_algorithm spki \<noteq> OID_KEY_TYPE_EC_PUBLIC_KEY then Inl UnsupportedKey
          else
            (case spki_parameters spki of
               None \<Rightarrow> Inl UnsupportedKey
             | Some curve \<Rightarrow>
                 if curve = OID_EC_P256 then Inr ECDSA_NISTP256_SHA256
                 else if curve = OID_NIST_EC_P384 then Inr ECDSA_NISTP384_SHA384
                 else Inl UnsupportedKey))"

datatype ring_algorithm = ECDSA_P384_SHA384_ASN1 | ECDSA_P256_SHA256_ASN1 | Ed25519
  | RSA_PSS_2048_8192_SHA512

fun ring_algorithm_of :: "signature_scheme \<Rightarrow> ring_algorithm" where
  "ring_algorithm_of ECDSA_NISTP384_SHA384 = ECDSA_P384_SHA384_ASN1"
| "ring_algorithm_of ECDSA_NISTP256_SHA256 = ECDSA_P256_SHA256_ASN1"
| "ring_algorithm_of ED25519 = Ed25519"
| "ring_algorithm_of RSA_PSS_SHA512 = RSA_PSS_2048_8192_SHA512"

text \<open>\<open>verify\<close> is the verification of \<open>ring\<close> under an algorithm: key, data, signature.\<close>

definition verify_signature ::
    "(string \<Rightarrow> spki option) \<Rightarrow> (ring_algorithm \<Rightarrow> string \<Rightarrow> string \<Rightarrow> string \<Rightarrow> bool)
      \<Rightarrow> string \<Rightarrow> string \<Rightarrow> string \<Rightarrow> verify_error + bool" where
  "verify_signature decode verify bytes data signature =
     and_then (canonical_verification_scheme decode bytes) (\<lambda>scheme.
       case decode bytes of
         None \<Rightarrow> Inl UnsupportedKey
       | Some spki \<Rightarrow> Inr (verify (ring_algorithm_of scheme) (spki_key spki) data signature))"

section \<open>Stapled OCSP responses\<close>

datatype ocsp_error = MissingCertificate | MissingIssuer | ParseLeaf | OutsideValidity
  | NoResponderUri | BuildRequest | ClientSetup | UnsupportedScheme | SendFailed | ResponderStatus
  | ChunkFailed | ResponseTooLarge | InvalidResponse | TimedOut | StoreFailed

text \<open>An access description: its method and, where the location is a URI, that URI.\<close>

record parsed_leaf =
  leaf_valid_now :: bool
  leaf_access :: "(string \<times> string option) list option list"

text \<open>What the request needs of a certificate as \<open>x509_cert\<close> decodes it.\<close>

record tbs_certificate =
  tbs_serial_number :: string
  tbs_subject_der :: "string option"
  tbs_public_key :: string

record cert_id =
  hash_algorithm :: string
  issuer_name_hash :: string
  issuer_key_hash :: string
  serial_number :: string

text \<open>What the decoders, the digest, the HTTP client and the file system answer.\<close>

record ocsp_world =
  w_cached :: "string option"
  w_valid :: "string \<Rightarrow> string list \<Rightarrow> bool"
  w_leaf :: "string \<Rightarrow> parsed_leaf option"
  w_x509 :: "string \<Rightarrow> tbs_certificate option"
  w_sha1 :: "string \<Rightarrow> string"
  w_to_der :: "cert_id \<Rightarrow> string option"
  w_client_ok :: "string \<Rightarrow> bool"
  w_scheme :: "string \<Rightarrow> string option"
  w_send :: "string \<Rightarrow> string \<Rightarrow> (bool \<times> string option list) option"
  w_timed_out :: bool
  w_store_ok :: bool

definition OCSP_METHOD :: string where
  "OCSP_METHOD = ''1.3.6.1.5.5.7.48.1''"

fun first_some :: "('a \<Rightarrow> 'b option) \<Rightarrow> 'a list \<Rightarrow> 'b option" where
  "first_some f [] = None"
| "first_some f (x # xs) = (case f x of Some y \<Rightarrow> Some y | None \<Rightarrow> first_some f xs)"

definition responder_uri :: "parsed_leaf \<Rightarrow> string option" where
  "responder_uri leaf =
     first_some
       (\<lambda>extension. case extension of
          None \<Rightarrow> None
        | Some accessdescs \<Rightarrow>
            first_some (\<lambda>(meth, uri). if meth = OCSP_METHOD then uri else None) accessdescs)
       (leaf_access leaf)"

text \<open>The body is read chunk by chunk; a chunk that cannot be read is \<open>None\<close>.\<close>

fun read_body :: "string \<Rightarrow> string option list \<Rightarrow> ocsp_error + string" where
  "read_body body [] = Inr body"
| "read_body body (None # chunks) = Inl ChunkFailed"
| "read_body body (Some chunk # chunks) =
     (if 64 * 1024 < length body + length chunk then Inl ResponseTooLarge
      else read_body (body @ chunk) chunks)"

definition request_id :: "ocsp_world \<Rightarrow> string \<Rightarrow> string \<Rightarrow> cert_id option" where
  "request_id w leaf issuer =
     (case (w_x509 w leaf, w_x509 w issuer) of
        (Some leaf, Some issuer) \<Rightarrow>
          (case tbs_subject_der issuer of
             None \<Rightarrow> None
           | Some subject \<Rightarrow>
               Some \<lparr>hash_algorithm = ''1.3.14.3.2.26'', issuer_name_hash = w_sha1 w subject,
                     issuer_key_hash = w_sha1 w (tbs_public_key issuer),
                     serial_number = tbs_serial_number leaf\<rparr>)
      | _ \<Rightarrow> None)"

definition build_request :: "ocsp_world \<Rightarrow> string \<Rightarrow> string \<Rightarrow> string option" where
  "build_request w leaf issuer =
     (case request_id w leaf issuer of None \<Rightarrow> None | Some i \<Rightarrow> w_to_der w i)"

definition exchange :: "ocsp_world \<Rightarrow> string list \<Rightarrow> string \<Rightarrow> string \<Rightarrow> string \<Rightarrow> ocsp_error + string" where
  "exchange w certificates root_ca_der url request =
     (if w_timed_out w then Inl TimedOut
      else if \<not> w_client_ok w root_ca_der then Inl ClientSetup
      else
        and_then (ok_or ClientSetup (w_scheme w url)) (\<lambda>scheme.
        if scheme \<notin> {''http'', ''https''} then Inl UnsupportedScheme
        else
          and_then (ok_or SendFailed (w_send w url request)) (\<lambda>(success, chunks).
          if \<not> success then Inl ResponderStatus
          else
            and_then (read_body [] chunks) (\<lambda>body.
            if w_valid w body certificates then Inr body else Inl InvalidResponse))))"

definition fetch_ocsp :: "ocsp_world \<Rightarrow> string list \<Rightarrow> string \<Rightarrow> ocsp_error + string" where
  "fetch_ocsp w certificates root_ca_der =
     (case certificates of
        [] \<Rightarrow> Inl MissingCertificate
      | [leaf] \<Rightarrow> Inl MissingIssuer
      | leaf # issuer # _ \<Rightarrow>
          and_then (ok_or ParseLeaf (w_leaf w leaf)) (\<lambda>parsed.
          if \<not> leaf_valid_now parsed then Inl OutsideValidity
          else
            and_then (ok_or NoResponderUri (responder_uri parsed)) (\<lambda>url.
            and_then (ok_or BuildRequest (build_request w leaf issuer)) (\<lambda>request.
              exchange w certificates root_ca_der url request))))"

text \<open>The response, with the stored one afterwards.\<close>

definition refresh :: "ocsp_world \<Rightarrow> string list \<Rightarrow> string \<Rightarrow> (ocsp_error + string) \<times> string option" where
  "refresh w certificates root_ca_der =
     (case fetch_ocsp w certificates root_ca_der of
        Inl e \<Rightarrow> (Inl e, w_cached w)
      | Inr response \<Rightarrow>
          if w_store_ok w then (Inr response, Some response) else (Inl StoreFailed, w_cached w))"

definition load_or_refresh ::
    "ocsp_world \<Rightarrow> string list \<Rightarrow> string \<Rightarrow> (ocsp_error + string) \<times> string option" where
  "load_or_refresh w certificates root_ca_der =
     (case w_cached w of
        Some response \<Rightarrow>
          if w_valid w response certificates then (Inr response, w_cached w)
          else refresh w certificates root_ca_der
      | None \<Rightarrow> refresh w certificates root_ca_der)"

section \<open>Facts\<close>

definition sequence_ok :: "certificate_sequence \<Rightarrow> bool" where
  "sequence_ok s \<longleftrightarrow> unat (sequence_get s) < 2 ^ 31"

definition ski_ok :: "dhttp_ski \<Rightarrow> bool" where
  "ski_ok x \<longleftrightarrow> sequence_ok (chain_sequence (ski_chain x))
     \<and> length (owner_hash_str (ski_owner_hash x)) = 64
     \<and> list_all owner_hash_byte (owner_hash_str (ski_owner_hash x))"

lemma sequence_max_less:
  "SEQUENCE_MAX < v \<longleftrightarrow> 2 ^ 31 \<le> unat v"
  "ucast SEQUENCE_MAX < (w :: 64 word) \<longleftrightarrow> 2 ^ 31 \<le> unat w"
  by (auto simp: SEQUENCE_MAX_def word_less_nat_alt)

lemma sequence_from_u64_ok:
  "sequence_from_u64 w = Inr s \<longleftrightarrow> unat w < 2 ^ 31 \<and> s = CertificateSequence (ucast w)"
  by (auto simp: sequence_from_u64_def sequence_max_less)

lemma owner_hash_try_from_ok:
  "owner_hash_try_from v = Inr h \<longleftrightarrow> length v = 64 \<and> list_all owner_hash_byte v \<and> h = OwnerHash v"
  by (auto simp: owner_hash_try_from_def)

lemma usage_from_flag_ok: "usage_from_flag f = Inr u \<longleftrightarrow> f = usage_kind_flag u"
  by (cases u) (auto simp: usage_from_flag_def)

lemma split_on_three:
  "split_on d v = [a, b, c] \<longleftrightarrow> v = a @ d # b @ d # c \<and> d \<notin> set a \<and> d \<notin> set b \<and> d \<notin> set c"
proof
  assume eq: "split_on d v = [a, b, c]"
  have "d \<in> set v"
  proof (rule ccontr)
    assume "d \<notin> set v"
    with eq show False by (simp add: split_on_free)
  qed
  then obtain p r where v: "v = p @ d # r" and p: "d \<notin> set p" by (metis split_list_first)
  with eq have r: "split_on d r = [b, c]" and a: "p = a" by (simp_all add: split_on_sep split_on_free)
  have "d \<in> set r"
  proof (rule ccontr)
    assume "d \<notin> set r"
    with r show False by (simp add: split_on_free)
  qed
  then obtain q t where t: "r = q @ d # t" and q: "d \<notin> set q" by (metis split_list_first)
  with r have c: "split_on d t = [c]" and b: "q = b" by (simp_all add: split_on_sep split_on_free)
  have "d \<notin> set t"
  proof
    assume "d \<in> set t"
    then obtain x y where "t = x @ d # y" "d \<notin> set x" by (metis split_list_first)
    with c show False by (simp add: split_on_sep split_on_free)
  qed
  with c have "t = c" by (simp add: split_on_free)
  with v p t q a b \<open>d \<notin> set t\<close> show "v = a @ d # b @ d # c \<and> d \<notin> set a \<and> d \<notin> set b \<and> d \<notin> set c"
    by simp
qed (simp add: split_on_sep split_on_free)

lemma owner_hash_no_colon: "list_all owner_hash_byte h \<Longrightarrow> CHR '':'' \<notin> set h"
  by (auto simp: list_all_iff owner_hash_byte_def is_ascii_digit_def code_def)

lemma usage_flag_no_colon: "CHR '':'' \<notin> set (usage_kind_flag u)"
  by (cases u) simp_all

lemma show_nat_no_colon: "CHR '':'' \<notin> set (show_nat n)"
  by (auto dest!: show_nat_digits simp: is_ascii_digit_def code_def)

lemma sequence_word:
  "n < 2 ^ 31 \<Longrightarrow> unat (of_nat n :: 64 word) = n"
  "n < 2 ^ 31 \<Longrightarrow> unat (ucast (of_nat n :: 64 word) :: 32 word) = n"
  by (simp_all add: unsigned_of_nat unsigned_ucast_eq take_bit_nat_eq_self)

lemma sequence_ok_word:
  "n < 2 ^ 31 \<Longrightarrow> n = unat (sequence_get s) \<Longrightarrow> CertificateSequence (ucast (of_nat n :: 64 word)) = s"
  by (metis certificate_sequence.collapse sequence_word(2) word_unat_eq_iff)

lemma ski_from_str_Inr:
  "ski_from_str v = Inr x \<longleftrightarrow>
     (\<exists>seq n u h. split_on CHR '':'' v = [seq, usage_kind_flag u, h]
        \<and> parse_uint (2 ^ 64 - 1) seq = Inr n \<and> n < 2 ^ 31
        \<and> length h = 64 \<and> list_all owner_hash_byte h
        \<and> x = \<lparr>ski_chain = \<lparr>chain_sequence = CertificateSequence (ucast (of_nat n :: 64 word)),
                            chain_usage = u\<rparr>, ski_owner_hash = OwnerHash h\<rparr>)"
proof -
  have w: "n < 2147483648" if "parse_uint 18446744073709551615 seq = Inr n" "unat (of_nat n :: 64 word) < 2147483648"
    for seq n
    using parse_uint_bound [OF that(1)] that(2) by (simp add: unsigned_of_nat take_bit_nat_eq_self)
  show ?thesis
    unfolding ski_from_str_def
    by (auto simp: and_then_eq_Inr sequence_from_u64_ok usage_from_flag_ok owner_hash_try_from_ok
        sequence_word split: list.splits dest: w)
qed

lemma length_split_on: "length (split_on d v) = Suc (count_list v d)"
  by (induction v) (auto split: list.splits)

lemma ski_field_count: "ski_from_str v = Inl FieldCount \<longleftrightarrow> length (split_on CHR '':'' v) \<noteq> 3"
  unfolding ski_from_str_def
  by (auto simp: and_then_def map_err_def sequence_from_u64_def usage_from_flag_def
      owner_hash_try_from_def split: list.splits sum.splits if_splits)

lemma read_body_Inr:
  "length b \<le> 64 * 1024 \<Longrightarrow>
   read_body b chunks = Inr r \<longleftrightarrow> (\<exists>cs. chunks = map Some cs \<and> r = b @ concat cs \<and> length r \<le> 64 * 1024)"
proof (induction b chunks rule: read_body.induct)
  case (1 body)
  then show ?case by auto
next
  case (2 body chunks)
  then show ?case by (auto simp: map_eq_Cons_conv Cons_eq_map_conv)
next
  case (3 body chunk chunks)
  then show ?case by (auto simp: Cons_eq_map_conv)
qed

lemma first_some_Some:
  "first_some f xs = Some y \<Longrightarrow> \<exists>x \<in> set xs. f x = Some y"
  by (induction xs) (auto split: option.splits)

definition fetched :: "ocsp_world \<Rightarrow> string list \<Rightarrow> string \<Rightarrow> bool" where
  "fetched w certificates r \<longleftrightarrow>
     (\<exists>leaf issuer rest parsed url i request chunks.
        certificates = leaf # issuer # rest
        \<and> w_leaf w leaf = Some parsed \<and> leaf_valid_now parsed \<and> responder_uri parsed = Some url
        \<and> request_id w leaf issuer = Some i \<and> w_to_der w i = Some request
        \<and> w_send w url request = Some (True, map Some chunks) \<and> r = concat chunks)
     \<and> length r \<le> 64 * 1024 \<and> w_valid w r certificates"

lemma exchange_Inr:
  "exchange w certificates root_ca url request = Inr r \<Longrightarrow>
     (\<exists>chunks. w_send w url request = Some (True, map Some chunks) \<and> r = concat chunks)
     \<and> length r \<le> 64 * 1024 \<and> w_valid w r certificates"
  by (auto simp: exchange_def and_then_eq_Inr read_body_Inr split: if_splits prod.splits)

lemma fetch_ocsp_Inr: "fetch_ocsp w certificates root_ca = Inr r \<Longrightarrow> fetched w certificates r"
  by (fastforce simp: fetch_ocsp_def fetched_def build_request_def and_then_eq_Inr
      split: list.splits if_splits option.splits dest!: exchange_Inr)

lemma first_ski_Some:
  "first_ski es = Inr (Some bytes) \<longleftrightarrow>
     (\<exists>pre e post. es = pre @ e # post \<and> ext_key_identifier e = Some bytes
        \<and> list_all (\<lambda>e. ext_key_identifier e = None \<and> \<not> ext_is_ski e) pre)"
  (is "_ \<longleftrightarrow> ?R es")
proof (induction es)
  case (Cons e es)
  have "?R (e # es) \<longleftrightarrow> ext_key_identifier e = Some bytes
      \<or> ext_key_identifier e = None \<and> \<not> ext_is_ski e \<and> ?R es" (is "_ \<longleftrightarrow> ?L")
  proof
    assume "?R (e # es)"
    then obtain pre e' post where r: "e # es = pre @ e' # post" "ext_key_identifier e' = Some bytes"
      "list_all (\<lambda>e. ext_key_identifier e = None \<and> \<not> ext_is_ski e) pre" by blast
    then show ?L by (cases pre) auto
  next
    assume ?L
    then show "?R (e # es)"
    proof (elim disjE conjE exE)
      assume "ext_key_identifier e = Some bytes"
      then show ?thesis by (intro exI [of _ "[]"] exI [of _ e] exI [of _ es]) simp
    next
      fix pre e' post
      assume "ext_key_identifier e = None" "\<not> ext_is_ski e" "es = pre @ e' # post"
        "ext_key_identifier e' = Some bytes"
        "list_all (\<lambda>e. ext_key_identifier e = None \<and> \<not> ext_is_ski e) pre"
      then show ?thesis by (intro exI [of _ "e # pre"] exI [of _ e'] exI [of _ post]) simp
    qed
  qed
  with Cons show ?case by (auto split: option.splits)
qed simp

section \<open>Properties\<close>

text \<open>A text parses as a DHTTP subject key identifier exactly if it is three fields separated
  by colons, the first a decimal number below \<open>2\<^sup>3\<^sup>1\<close> that is the sequence, the second the
  flag of the usage, the third the owner hash of 64 lowercase hexadecimal digits; the error for a
  wrong number of fields is reported exactly if the text does not have two colons.\<close>
theorem ski_parse_exact:
  "(ski_from_str v = Inr x \<longleftrightarrow>
      ski_ok x \<and>
      (\<exists>seq. v = seq @ '':'' @ usage_kind_flag (chain_usage (ski_chain x)) @ '':''
                  @ owner_hash_str (ski_owner_hash x)
         \<and> CHR '':'' \<notin> set seq
         \<and> parse_uint (2 ^ 64 - 1) seq = Inr (unat (sequence_get (chain_sequence (ski_chain x))))))
   \<and> (ski_from_str v = Inl FieldCount \<longleftrightarrow> count_list v CHR '':'' \<noteq> 2)"
proof
  let ?n = "unat (sequence_get (chain_sequence (ski_chain x)))"
  let ?u = "chain_usage (ski_chain x)" and ?h = "owner_hash_str (ski_owner_hash x)"
  show "ski_from_str v = Inr x \<longleftrightarrow> ski_ok x \<and> (\<exists>seq. v = seq @ '':'' @ usage_kind_flag ?u @ '':'' @ ?h
      \<and> CHR '':'' \<notin> set seq \<and> parse_uint (2 ^ 64 - 1) seq = Inr ?n)"
  proof
    assume "ski_from_str v = Inr x"
    then show "ski_ok x \<and> (\<exists>seq. v = seq @ '':'' @ usage_kind_flag ?u @ '':'' @ ?h
      \<and> CHR '':'' \<notin> set seq \<and> parse_uint (2 ^ 64 - 1) seq = Inr ?n)"
      by (auto simp: ski_from_str_Inr split_on_three ski_ok_def sequence_ok_def sequence_word)
  next
    assume ok: "ski_ok x \<and> (\<exists>seq. v = seq @ '':'' @ usage_kind_flag ?u @ '':'' @ ?h
      \<and> CHR '':'' \<notin> set seq \<and> parse_uint (2 ^ 64 - 1) seq = Inr ?n)"
    then obtain seq where "split_on CHR '':'' v = [seq, usage_kind_flag ?u, ?h]"
        "parse_uint (2 ^ 64 - 1) seq = Inr ?n"
      by (auto simp: split_on_three usage_flag_no_colon owner_hash_no_colon ski_ok_def)
    moreover from ok have "x = \<lparr>ski_chain = \<lparr>chain_sequence =
        CertificateSequence (ucast (of_nat ?n :: 64 word)), chain_usage = ?u\<rparr>, ski_owner_hash = OwnerHash ?h\<rparr>"
      by (simp only: ski_ok_def sequence_ok_def sequence_ok_word) simp
    ultimately show "ski_from_str v = Inr x"
      using ok unfolding ski_from_str_Inr ski_ok_def sequence_ok_def by blast
  qed
qed (auto simp: ski_field_count length_split_on)

text \<open>Every valid subject key identifier, written as text and read from the bytes of an
  extension, gives the same identifier.\<close>
theorem ski_text_roundtrip:
  assumes "ski_ok x"
  shows "ski_from_bytes (show_ski x) = Inr x"
proof -
  have ascii: "code c < 128" if "c \<in> set (show_ski x)" for c
    using that assms show_nat_digits
    by (cases "chain_usage (ski_chain x)")
       (fastforce simp: show_ski_def ski_ok_def list_all_iff owner_hash_byte_def is_ascii_digit_def
         code_def)+
  let ?n = "unat (sequence_get (chain_sequence (ski_chain x)))"
  have "parse_uint (2 ^ 64 - 1) (show_nat ?n) = Inr ?n"
    by (rule parse_uint_show_nat) (use assms in \<open>simp add: ski_ok_def sequence_ok_def\<close>)
  moreover have "split_on CHR '':'' (show_ski x) =
      [show_nat ?n, usage_kind_flag (chain_usage (ski_chain x)), owner_hash_str (ski_owner_hash x)]"
    using assms by (auto simp: split_on_three show_ski_def show_nat_no_colon usage_flag_no_colon
        owner_hash_no_colon ski_ok_def)
  moreover have "x = \<lparr>ski_chain = \<lparr>chain_sequence = CertificateSequence (ucast (of_nat ?n :: 64 word)),
      chain_usage = chain_usage (ski_chain x)\<rparr>, ski_owner_hash = OwnerHash (owner_hash_str (ski_owner_hash x))\<rparr>"
    using assms by (simp only: ski_ok_def sequence_ok_def sequence_ok_word) simp
  ultimately have "ski_from_str (show_ski x) = Inr x"
    using assms unfolding ski_from_str_Inr ski_ok_def sequence_ok_def by blast
  then show ?thesis by (simp add: ski_from_bytes_def valid_utf8_ascii ascii)
qed

lemma ski_text_roundtrip_witness:
  "ski_from_bytes (show_ski \<lparr>ski_chain = \<lparr>chain_sequence = CertificateSequence 7, chain_usage = ClientOnly\<rparr>,
      ski_owner_hash = OwnerHash (replicate 64 CHR ''a'')\<rparr>)
   = Inr \<lparr>ski_chain = \<lparr>chain_sequence = CertificateSequence 7, chain_usage = ClientOnly\<rparr>,
      ski_owner_hash = OwnerHash (replicate 64 CHR ''a'')\<rparr>"
  by (rule ski_text_roundtrip)
     (simp add: ski_ok_def sequence_ok_def list_all_iff owner_hash_byte_def code_def)


text \<open>A certificate chain yields a DHTTP identifier exactly if its first certificate decodes and
  its first subject key identifier extension could be decoded and holds the text of that identifier;
  an undecodable such extension before it, or one in a later certificate, never counts.\<close>
theorem chain_identifier_exact:
  "extract_dhttp_ski parse chain = Inr x \<longleftrightarrow>
     (\<exists>leaf rest pre e post bytes.
        chain = leaf # rest \<and> parse leaf = Some (pre @ e # post)
        \<and> list_all (\<lambda>e. ext_key_identifier e = None \<and> \<not> ext_is_ski e) pre
        \<and> ext_key_identifier e = Some bytes \<and> ski_from_bytes bytes = Inr x)"
proof -
  have "extract_dhttp_ski parse chain = Inr x \<longleftrightarrow>
      (\<exists>leaf rest es bytes. chain = leaf # rest \<and> parse leaf = Some es
         \<and> first_ski es = Inr (Some bytes) \<and> ski_from_bytes bytes = Inr x)"
    by (auto simp: extract_dhttp_ski_def extract_ski_def and_then_eq_Inr split: list.splits option.splits)
  then show ?thesis unfolding first_ski_Some by blast
qed

end
