(* ===== verification/Profiles.thy ===== *)
theory Profiles
  imports Names
begin

text \<open>
  The crate \<open>dhttp-home\<close>, files \<open>home/src/identity.rs\<close>, \<open>home/src/identity/ssl.rs\<close> and the listing
  part of \<open>home/src/identity/management.rs\<close>: the profile directory of an identity, the discovery of
  the profiles of a home, and the resolution of a name to its exact or wildcard profile.  The file
  system is seen through \<open>fs_view\<close>: the answers of \<open>metadata\<close>, \<open>symlink_metadata\<close> and \<open>read_dir\<close>.
  A function that may panic (\<open>unwrap\<close>, \<open>expect\<close>) returns an option, \<open>None\<close> being the panic.
\<close>

section \<open>The file system as seen\<close>

datatype io_error = NotFoundKind | AlreadyExists | NotADirectory | IsADirectory | DirectoryNotEmpty
  | InvalidInput | InvalidFilename | OtherIo nat

datatype file_type = FtFile | FtDir | FtSymlink

record fs_view =
  stat :: "path \<Rightarrow> io_error + file_type"
  lstat :: "path \<Rightarrow> io_error + file_type"
  read_dir :: "path \<Rightarrow> io_error + (io_error + string) list"

text \<open>
  The normal components of a relative text, and \<open>PathBuf::join\<close>, for which an absolute text
  replaces the base.
\<close>

definition components :: "string \<Rightarrow> string list" where
  "components s = filter (\<lambda>c. c \<noteq> [] \<and> c \<noteq> ''.'') (split_on CHR ''/'' s)"

definition path_join :: "path \<Rightarrow> string \<Rightarrow> path" where
  "path_join base sub =
     (if starts_with ''/'' sub then ''/'' # components sub else base @ components sub)"

text \<open>\<open>Path::file_name\<close>\<close>

definition file_name :: "path \<Rightarrow> string option" where
  "file_name p = (if p = [] \<or> last p = ''..'' \<or> last p = ''/'' then None else Some (last p))"

section \<open>Profile names and paths\<close>

definition normalize_profile_name :: "string \<Rightarrow> string option" where
  "normalize_profile_name input =
     (case strip_prefix ''*.'' input of
        Some rest \<Rightarrow>
          (case normalize_name rest of None \<Rightarrow> None | Some n \<Rightarrow> Some (''*.'' @ n))
      | None \<Rightarrow> normalize_name input)"

record identity_profile =
  profile_path :: path
  profile_name :: string

datatype profile_from_path_error = MissingFileName path | NonUtf8FileName path | InvalidProfileName string

definition SERVER_CONF_FILE :: string where "SERVER_CONF_FILE = ''server.conf''"
definition CONFIG_DB_FILE :: string where "CONFIG_DB_FILE = ''config.db''"
definition DB_DIR :: string where "DB_DIR = ''db''"
definition ACCESS_DB_FILE :: string where "ACCESS_DB_FILE = ''access.db''"
definition APPS_DIR :: string where "APPS_DIR = ''apps''"
definition PUBLIC_DIR :: string where "PUBLIC_DIR = ''public''"
definition LOGS_DIR :: string where "LOGS_DIR = ''logs''"
definition CERT_LOG_FILE :: string where "CERT_LOG_FILE = ''cert.log''"
definition ACCESS_LOG_FILE :: string where "ACCESS_LOG_FILE = ''access.log''"
definition SSL_DIR_NAME :: string where "SSL_DIR_NAME = ''ssl''"
definition CERT_FILE_NAME :: string where "CERT_FILE_NAME = ''fullchain.crt''"
definition KEY_FILE_NAME :: string where "KEY_FILE_NAME = ''privkey.pem''"
definition OCSP_FILE_NAME :: string where "OCSP_FILE_NAME = ''stapling.ocsp''"

definition server_conf_path :: "identity_profile \<Rightarrow> path" where
  "server_conf_path p = path_join (profile_path p) SERVER_CONF_FILE"

definition db_dir :: "identity_profile \<Rightarrow> path" where
  "db_dir p = path_join (profile_path p) DB_DIR"

definition config_db_path :: "identity_profile \<Rightarrow> path" where
  "config_db_path p = path_join (db_dir p) CONFIG_DB_FILE"

definition access_db_path :: "identity_profile \<Rightarrow> path" where
  "access_db_path p = path_join (db_dir p) ACCESS_DB_FILE"

definition apps_dir :: "identity_profile \<Rightarrow> path" where
  "apps_dir p = path_join (profile_path p) APPS_DIR"

definition public_dir :: "identity_profile \<Rightarrow> path" where
  "public_dir p = path_join (profile_path p) PUBLIC_DIR"

definition logs_dir :: "identity_profile \<Rightarrow> path" where
  "logs_dir p = path_join (profile_path p) LOGS_DIR"

definition access_log_path :: "identity_profile \<Rightarrow> path" where
  "access_log_path p = path_join (logs_dir p) ACCESS_LOG_FILE"

definition cert_log_path :: "identity_profile \<Rightarrow> path" where
  "cert_log_path p = path_join (logs_dir p) CERT_LOG_FILE"

definition ssl_dir :: "identity_profile \<Rightarrow> path" where
  "ssl_dir p = path_join (profile_path p) SSL_DIR_NAME"

definition cert_path :: "identity_profile \<Rightarrow> path" where
  "cert_path p = path_join (ssl_dir p) CERT_FILE_NAME"

definition key_path :: "identity_profile \<Rightarrow> path" where
  "key_path p = path_join (ssl_dir p) KEY_FILE_NAME"

definition ocsp_path :: "identity_profile \<Rightarrow> path" where
  "ocsp_path p = path_join (ssl_dir p) OCSP_FILE_NAME"

definition try_from_path :: "path \<Rightarrow> profile_from_path_error + identity_profile" where
  "try_from_path path =
     and_then (ok_or (MissingFileName path) (file_name path)) (\<lambda>file_name.
     if \<not> valid_utf8 file_name then Inl (NonUtf8FileName path)
     else
       and_then (ok_or (InvalidProfileName file_name) (normalize_profile_name file_name)) (\<lambda>name.
         Inr \<lparr>profile_path = path, profile_name = name\<rparr>))"

definition join_identity_name :: "path \<Rightarrow> string \<Rightarrow> (invalid_name + path) option" where
  "join_identity_name home name =
     (case normalize_profile_name name of
        None \<Rightarrow> Some (Inl InvalidName)
      | Some full \<Rightarrow>
          (case strip_suffix DHTTP_SUFFIX full of
             None \<Rightarrow> None
           | Some dir \<Rightarrow> Some (Inr (path_join home dir))))"

definition identity_profile_of :: "path \<Rightarrow> string \<Rightarrow> (invalid_name + identity_profile) option" where
  "identity_profile_of home name =
     (case join_identity_name home name of
        None \<Rightarrow> None
      | Some (Inl e) \<Rightarrow> Some (Inl e)
      | Some (Inr path) \<Rightarrow>
          Some (and_then (ok_or InvalidName (normalize_profile_name name)) (\<lambda>full.
            Inr \<lparr>profile_path = path, profile_name = full\<rparr>)))"

section \<open>Discovery\<close>

text \<open>The test both listings make of a directory entry: a directory whose name is the short form of a
  profile name and which has an \<open>ssl\<close> directory.\<close>

definition ssl_is_dir :: "fs_view \<Rightarrow> path \<Rightarrow> bool" where
  "ssl_is_dir v path = (lstat v (path_join path SSL_DIR_NAME) = Inr FtDir)"

fun collect_profiles ::
    "fs_view \<Rightarrow> path \<Rightarrow> identity_profile list \<Rightarrow> (io_error + string) list
      \<Rightarrow> (io_error + identity_profile list) option" where
  "collect_profiles v home profiles [] = Some (Inr profiles)"
| "collect_profiles v home profiles (Inl e # entries) = Some (Inl e)"
| "collect_profiles v home profiles (Inr directory_name # entries) =
     (let path = home @ [directory_name] in
      case lstat v path of
        Inl e \<Rightarrow> Some (Inl e)
      | Inr ft \<Rightarrow>
          if ft \<noteq> FtDir then collect_profiles v home profiles entries
          else
            (case try_from_path path of
               Inl _ \<Rightarrow> collect_profiles v home profiles entries
             | Inr profile \<Rightarrow>
                 if \<not> valid_utf8 directory_name then collect_profiles v home profiles entries
                 else if normalize_profile_name directory_name \<noteq> Some (profile_name profile)
                 then collect_profiles v home profiles entries
                 else
                   (case strip_suffix DHTTP_SUFFIX (profile_name profile) of
                      None \<Rightarrow> None
                    | Some dir \<Rightarrow>
                        if directory_name \<noteq> dir then collect_profiles v home profiles entries
                        else if ssl_is_dir v path
                        then collect_profiles v home (profiles @ [profile]) entries
                        else collect_profiles v home profiles entries)))"

definition discover_identity_profiles ::
    "fs_view \<Rightarrow> path \<Rightarrow> (io_error + identity_profile list) option" where
  "discover_identity_profiles v home =
     (case lstat v home of
        Inl e \<Rightarrow> Some (Inl e)
      | Inr ft \<Rightarrow>
          if ft \<noteq> FtDir then Some (Inl InvalidInput)
          else
            (case read_dir v home of
               Inl e \<Rightarrow> Some (Inl e)
             | Inr entries \<Rightarrow>
                 (case collect_profiles v home [] entries of
                    None \<Rightarrow> None
                  | Some (Inl e) \<Rightarrow> Some (Inl e)
                  | Some (Inr profiles) \<Rightarrow> Some (Inr (sort_key profile_name profiles)))))"

datatype list_profiles_error = ReadDir path io_error | ReadFty path io_error

text \<open>The stream of names: an error is an item, after which the stream goes on.\<close>

fun names_from :: "fs_view \<Rightarrow> path \<Rightarrow> (io_error + string) list \<Rightarrow> (list_profiles_error + string) list option"
where
  "names_from v home [] = Some []"
| "names_from v home (Inl e # entries) =
     map_option (\<lambda>items. Inl (ReadDir home e) # items) (names_from v home entries)"
| "names_from v home (Inr directory_name # entries) =
     (let entry_path = home @ [directory_name] in
      case lstat v entry_path of
        Inl e \<Rightarrow> map_option (\<lambda>items. Inl (ReadFty entry_path e) # items) (names_from v home entries)
      | Inr ft \<Rightarrow>
          if ft \<noteq> FtDir \<or> \<not> valid_utf8 directory_name then names_from v home entries
          else
            (case normalize_profile_name directory_name of
               None \<Rightarrow> names_from v home entries
             | Some name \<Rightarrow>
                 (case strip_suffix DHTTP_SUFFIX name of
                    None \<Rightarrow> None
                  | Some dir \<Rightarrow>
                      if directory_name = dir \<and> ssl_is_dir v entry_path
                      then map_option (\<lambda>items. Inr name # items) (names_from v home entries)
                      else names_from v home entries)))"

definition identity_profile_names :: "fs_view \<Rightarrow> path \<Rightarrow> (list_profiles_error + string) list option" where
  "identity_profile_names v home =
     (case lstat v home of
        Inl e \<Rightarrow> Some [Inl (ReadDir home e)]
      | Inr ft \<Rightarrow>
          if ft \<noteq> FtDir then Some [Inl (ReadDir home InvalidInput)]
          else
            (case read_dir v home of
               Inl e \<Rightarrow> Some [Inl (ReadDir home e)]
             | Inr entries \<Rightarrow> names_from v home entries))"

datatype candidate_error = EntryMetadata path io_error
  | InvalidProfile path profile_from_path_error
  | MissingSslDirectory identity_profile path
  | SslMetadata identity_profile path io_error
  | SslNotDirectory identity_profile path

fun read_paths :: "path \<Rightarrow> path list \<Rightarrow> (io_error + string) list \<Rightarrow> list_profiles_error + path list" where
  "read_paths home paths [] = Inr paths"
| "read_paths home paths (Inl e # entries) = Inl (ReadDir home e)"
| "read_paths home paths (Inr name # entries) = read_paths home (paths @ [home @ [name]]) entries"

text \<open>One round of the loop over the sorted paths: \<open>None\<close> where the path is passed over.  The test of
  the crate \<open>dhttp-identity\<close> on a name is the parameter \<open>dhttp_name\<close>.\<close>

definition candidate ::
    "(string \<Rightarrow> bool) \<Rightarrow> fs_view \<Rightarrow> path \<Rightarrow> (candidate_error + identity_profile) option" where
  "candidate dhttp_name v path =
     (case stat v path of
        Inl e \<Rightarrow> Some (Inl (EntryMetadata path e))
      | Inr ft \<Rightarrow>
          if ft \<noteq> FtDir then None
          else
            (case try_from_path path of
               Inl e \<Rightarrow> Some (Inl (InvalidProfile path e))
             | Inr profile \<Rightarrow>
                 if \<not> dhttp_name (profile_name profile)
                 then Some (Inl (InvalidProfile path (InvalidProfileName (profile_name profile))))
                 else
                   (case lstat v (ssl_dir profile) of
                      Inl e \<Rightarrow>
                        if e = NotFoundKind then Some (Inl (MissingSslDirectory profile (ssl_dir profile)))
                        else Some (Inl (SslMetadata profile (ssl_dir profile) e))
                    | Inr _ \<Rightarrow>
                        (case stat v (ssl_dir profile) of
                           Inl e \<Rightarrow> Some (Inl (SslMetadata profile (ssl_dir profile) e))
                         | Inr ft \<Rightarrow>
                             if ft \<noteq> FtDir then Some (Inl (SslNotDirectory profile (ssl_dir profile)))
                             else Some (Inr profile)))))"

definition identity_profile_candidates ::
    "(string \<Rightarrow> bool) \<Rightarrow> fs_view \<Rightarrow> path
      \<Rightarrow> list_profiles_error + (candidate_error + identity_profile) list" where
  "identity_profile_candidates dhttp_name v home =
     and_then (map_err (ReadDir home) (read_dir v home)) (\<lambda>entries.
     and_then (read_paths home [] entries) (\<lambda>paths.
       Inr (List.map_filter (candidate dhttp_name v) (sort paths))))"

section \<open>Resolution\<close>

datatype resolve_error = ResolveInvalidName string | ExactMetadata path io_error
  | WildcardMetadata path io_error | ExactNotFound path | WildcardNotFound path
  | ProfileNotFound path path

definition resolve_exactly :: "fs_view \<Rightarrow> path \<Rightarrow> string \<Rightarrow> (resolve_error + identity_profile) option" where
  "resolve_exactly v home name =
     (case normalize_profile_name name of
        None \<Rightarrow> Some (Inl (ResolveInvalidName name))
      | Some full \<Rightarrow>
          (case join_identity_name home full of
             Some (Inr path) \<Rightarrow>
               Some (case stat v path of
                       Inr _ \<Rightarrow> Inr \<lparr>profile_path = path, profile_name = full\<rparr>
                     | Inl e \<Rightarrow>
                         if e = NotFoundKind then Inl (ExactNotFound path) else Inl (ExactMetadata path e))
           | _ \<Rightarrow> None))"

text \<open>\<open>windows\<close> is the compile-time flag of the arm for invalid file names.\<close>

definition resolve_wildcard ::
    "bool \<Rightarrow> fs_view \<Rightarrow> path \<Rightarrow> string \<Rightarrow> (resolve_error + identity_profile) option" where
  "resolve_wildcard windows v home name =
     (case normalize_profile_name name of
        None \<Rightarrow> Some (Inl (ResolveInvalidName name))
      | Some full \<Rightarrow>
          (case split_once CHR ''.'' full of
             None \<Rightarrow> None
           | Some (_, rest) \<Rightarrow>
               (let wildcard_name = ''*.'' @ rest in
                case join_identity_name home wildcard_name of
                  Some (Inr path) \<Rightarrow>
                    Some (case stat v path of
                            Inr _ \<Rightarrow> Inr \<lparr>profile_path = path, profile_name = wildcard_name\<rparr>
                          | Inl e \<Rightarrow>
                              if e = NotFoundKind then Inl (WildcardNotFound path)
                              else if windows \<and> e = InvalidFilename then Inl (WildcardNotFound path)
                              else Inl (WildcardMetadata path e))
                | _ \<Rightarrow> None)))"

definition resolve_identity_profile ::
    "bool \<Rightarrow> fs_view \<Rightarrow> path \<Rightarrow> string \<Rightarrow> (resolve_error + identity_profile) option" where
  "resolve_identity_profile windows v home name =
     (case resolve_exactly v home name of
        Some (Inl (ExactNotFound exact)) \<Rightarrow>
          (case resolve_wildcard windows v home name of
             Some (Inl (WildcardNotFound wildcard)) \<Rightarrow> Some (Inl (ProfileNotFound exact wildcard))
           | r \<Rightarrow> r)
      | r \<Rightarrow> r)"

definition exists_exactly :: "fs_view \<Rightarrow> path \<Rightarrow> string \<Rightarrow> bool option" where
  "exists_exactly v home name = map_option is_ok (resolve_exactly v home name)"

definition exists_wildcard :: "bool \<Rightarrow> fs_view \<Rightarrow> path \<Rightarrow> string \<Rightarrow> bool option" where
  "exists_wildcard windows v home name = map_option is_ok (resolve_wildcard windows v home name)"

definition profile_exists :: "bool \<Rightarrow> fs_view \<Rightarrow> path \<Rightarrow> string \<Rightarrow> bool option" where
  "profile_exists windows v home name = map_option is_ok (resolve_identity_profile windows v home name)"

section \<open>Facts\<close>

text \<open>A profile name: a canonical name, or one behind \<open>*.\<close>\<close>

definition profile_canonical :: "string \<Rightarrow> bool" where
  "profile_canonical n \<longleftrightarrow> canonical n \<or> (\<exists>m. n = ''*.'' @ m \<and> canonical m)"

lemma canonical_bytes: "canonical n \<Longrightarrow> c \<in> set n \<Longrightarrow> name_byte c"
  using valid_labels_bytes valid_name_labels canonical_def by blast

lemma canonical_no_star: "canonical n \<Longrightarrow> \<not> starts_with ''*.'' n"
  by (auto simp: starts_with_iff dest: canonical_bytes [where c = "CHR ''*''"] name_byte_code)

lemma normalize_profile_canonical: "normalize_profile_name s = Some n \<Longrightarrow> profile_canonical n"
  by (auto simp: normalize_profile_name_def profile_canonical_def
      split: option.splits dest: normalize_name_canonical)

lemma normalize_profile_id: "profile_canonical n \<Longrightarrow> normalize_profile_name n = Some n"
  unfolding profile_canonical_def
proof (elim disjE exE conjE)
  fix m assume "n = ''*.'' @ m" "canonical m"
  then show ?thesis
    unfolding normalize_profile_name_def by (simp only: strip_prefix_append) (simp add: normalize_name_id)
qed (simp add: normalize_profile_name_def strip_prefix_def canonical_no_star normalize_name_id)

lemma profile_stem:
  assumes "profile_canonical n"
  obtains d where "n = d @ DHTTP_SUFFIX" "d \<noteq> []" "CHR ''/'' \<notin> set d" "valid_utf8 d"
    "d \<noteq> ''.''" "d \<noteq> ''..''"
proof -
  have stem: "\<exists>d. n = d @ DHTTP_SUFFIX \<and> d \<noteq> [] \<and> hd d \<noteq> CHR ''.''
      \<and> (\<forall>c \<in> set d. name_byte c)" if n: "canonical n" for n
  proof -
    obtain d where d: "n = d @ DHTTP_SUFFIX" "d \<noteq> []" "list_all valid_label (split_on CHR ''.'' d)"
      using canonical_stem [OF n] by blast
    have "hd d \<noteq> CHR ''.''"
      using d(2,3) by (cases d) (auto simp: valid_label_def)
    with d show ?thesis by (auto dest: valid_labels_bytes)
  qed
  have safe: "CHR ''/'' \<notin> set d \<and> valid_utf8 d" if "\<forall>c \<in> set d. name_byte c \<or> c = CHR ''*''" for d
  proof -
    have "c \<noteq> CHR ''/'' \<and> code c < 128" if "c \<in> set d" for c
    proof -
      have "name_byte c \<or> c = CHR ''*''" using that \<open>\<forall>c \<in> set d. name_byte c \<or> c = CHR ''*''\<close> by blast
      then show ?thesis by (auto dest: name_byte_code simp: code_def)
    qed
    then show ?thesis by (auto intro: valid_utf8_ascii)
  qed
  show thesis
  proof (cases "canonical n")
    case True
    with stem obtain d where "n = d @ DHTTP_SUFFIX" "d \<noteq> []" "hd d \<noteq> CHR ''.''"
      "\<forall>c \<in> set d. name_byte c" by blast
    with safe [of d] show thesis by (intro that [of d]) auto
  next
    case False
    with assms obtain m where "n = ''*.'' @ m" "canonical m" by (auto simp: profile_canonical_def)
    moreover from stem [OF this(2)] obtain d where "m = d @ DHTTP_SUFFIX" "\<forall>c \<in> set d. name_byte c"
      by blast
    ultimately have n: "n = (''*.'' @ d) @ DHTTP_SUFFIX"
      and "\<forall>c \<in> set (''*.'' @ d). name_byte c \<or> c = CHR ''*''"
      by (auto simp: name_byte_def)
    from safe [OF this(2)] show thesis by (intro that [OF n]) (simp_all del: valid_utf8.simps)
  qed
qed

lemma components_single:
  "d \<noteq> [] \<Longrightarrow> CHR ''/'' \<notin> set d \<Longrightarrow> d \<noteq> ''.'' \<Longrightarrow> path_join p d = p @ [d]"
  by (cases d) (auto simp: path_join_def components_def split_on_free starts_with_def)

lemma join_identity_name_canonical:
  assumes "profile_canonical n"
  obtains d where "n = d @ DHTTP_SUFFIX" "d \<noteq> []" "CHR ''/'' \<notin> set d" "valid_utf8 d"
    "d \<noteq> ''.''" "d \<noteq> ''..''" "join_identity_name home n = Some (Inr (home @ [d]))"
proof -
  obtain d where d: "n = d @ DHTTP_SUFFIX" "d \<noteq> []" "CHR ''/'' \<notin> set d" "valid_utf8 d"
      "d \<noteq> ''.''" "d \<noteq> ''..''"
    by (rule profile_stem [OF assms])
  have "normalize_profile_name n = Some n" by (rule normalize_profile_id [OF assms])
  then have "join_identity_name home n = Some (Inr (home @ [d]))"
    using d components_single [of d home] by (simp add: join_identity_name_def)
  with d show thesis by (rule that)
qed

lemma join_identity_name_Some:
  assumes "normalize_profile_name name = Some n"
  obtains d where "n = d @ DHTTP_SUFFIX" "d \<noteq> []" "CHR ''/'' \<notin> set d" "valid_utf8 d"
    "d \<noteq> ''.''" "d \<noteq> ''..''" "join_identity_name home name = Some (Inr (home @ [d]))"
proof -
  have n: "profile_canonical n" using assms by (rule normalize_profile_canonical)
  from join_identity_name_canonical [OF n, of home] obtain d where
    d: "n = d @ DHTTP_SUFFIX" "d \<noteq> []" "CHR ''/'' \<notin> set d" "valid_utf8 d"
      "d \<noteq> ''.''" "d \<noteq> ''..''" "join_identity_name home n = Some (Inr (home @ [d]))"
    by blast
  have "join_identity_name home name = join_identity_name home n"
    using assms normalize_profile_id [OF n] by (simp add: join_identity_name_def)
  with d show thesis by (intro that) auto
qed

lemma join_identity_name_None:
  "normalize_profile_name name = None \<Longrightarrow> join_identity_name home name = Some (Inl InvalidName)"
  by (simp add: join_identity_name_def)

text \<open>The profile a directory of the home stands for, and when it does.\<close>

definition dir_profile :: "path \<Rightarrow> string \<Rightarrow> identity_profile" where
  "dir_profile home d = \<lparr>profile_path = home @ [d], profile_name = d @ DHTTP_SUFFIX\<rparr>"

definition profile_dir :: "fs_view \<Rightarrow> path \<Rightarrow> string \<Rightarrow> bool" where
  "profile_dir v home d \<longleftrightarrow> lstat v (home @ [d]) = Inr FtDir
     \<and> normalize_profile_name d = Some (d @ DHTTP_SUFFIX)
     \<and> lstat v (home @ [d, ''ssl'']) = Inr FtDir"

lemma ssl_is_dir_iff: "ssl_is_dir v p \<longleftrightarrow> lstat v (p @ [''ssl'']) = Inr FtDir"
  by (simp add: ssl_is_dir_def SSL_DIR_NAME_def components_single)

lemma normalized_dir:
  "normalize_profile_name d = Some (d @ DHTTP_SUFFIX) \<Longrightarrow>
     valid_utf8 d \<and> d \<noteq> ''..'' \<and> d \<noteq> ''/'' \<and> d \<noteq> [] \<and> CHR ''/'' \<notin> set d"
  using join_identity_name_Some [of d "d @ DHTTP_SUFFIX" "[]"] by force

lemma try_from_path_dir:
  "normalize_profile_name d = Some (d @ DHTTP_SUFFIX) \<Longrightarrow>
     try_from_path (home @ [d]) = Inr (dir_profile home d)"
  using normalized_dir [of d] by (simp add: try_from_path_def file_name_def dir_profile_def)

lemma try_from_path_Inr:
  "try_from_path (home @ [d]) = Inr p \<Longrightarrow>
     profile_path p = home @ [d] \<and> normalize_profile_name d = Some (profile_name p) \<and> valid_utf8 d"
  by (auto simp: try_from_path_def file_name_def and_then_eq_Inr split: if_splits)

lemma strip_profile_suffix:
  "normalize_profile_name d = Some n \<Longrightarrow> \<exists>s. strip_suffix DHTTP_SUFFIX n = Some s \<and> n = s @ DHTTP_SUFFIX"
  by (metis join_identity_name_Some strip_suffix_append)

lemma collect_profiles_step:
  "collect_profiles v home ps (Inr d # es) =
     (case lstat v (home @ [d]) of
        Inl e \<Rightarrow> Some (Inl e)
      | Inr _ \<Rightarrow> collect_profiles v home
                  (if profile_dir v home d then ps @ [dir_profile home d] else ps) es)"
proof (cases "lstat v (home @ [d])")
  case (Inr t)
  show ?thesis
  proof (cases "profile_dir v home d")
    case True
    then have "try_from_path (home @ [d]) = Inr (dir_profile home d)" "valid_utf8 d"
      by (simp_all add: profile_dir_def try_from_path_dir normalized_dir)
    with True show ?thesis
      by (simp add: profile_dir_def ssl_is_dir_iff dir_profile_def Let_def)
  next
    case False
    show ?thesis
    proof (cases "try_from_path (home @ [d])")
      case (Inr p)
      from try_from_path_Inr [OF this] obtain s where
        s: "strip_suffix DHTTP_SUFFIX (profile_name p) = Some s" "profile_name p = s @ DHTTP_SUFFIX"
          "normalize_profile_name d = Some (profile_name p)" "valid_utf8 d"
        using strip_profile_suffix by blast
      with False \<open>lstat v (home @ [d]) = Inr t\<close> Inr show ?thesis
        by (auto simp: profile_dir_def ssl_is_dir_iff Let_def)
    qed (use False \<open>lstat v (home @ [d]) = Inr t\<close> in \<open>simp add: Let_def\<close>)
  qed
qed simp

lemma collect_profiles_total: "collect_profiles v home ps es \<noteq> None"
proof (induction es arbitrary: ps)
  case (Cons e es)
  then show ?case
    by (cases e) (simp_all add: collect_profiles_step del: collect_profiles.simps(3) split: sum.splits)
qed simp

lemma collect_profiles_Inr:
  "collect_profiles v home ps es = Some (Inr qs) \<longleftrightarrow>
     (\<exists>ds. es = map Inr ds \<and> (\<forall>d \<in> set ds. \<exists>t. lstat v (home @ [d]) = Inr t)
        \<and> qs = ps @ map (dir_profile home) (filter (profile_dir v home) ds))"
proof (induction es arbitrary: ps)
  case (Cons e es)
  show ?case
  proof (cases e)
    case (Inr d)
    show ?thesis
    proof (cases "lstat v (home @ [d])")
      case (Inl e')
      with Inr show ?thesis
        by (auto simp: collect_profiles_step Cons_eq_map_conv simp del: collect_profiles.simps(3))
    next
      case (Inr t)
      with \<open>e = Inr d\<close> Cons [of "if profile_dir v home d then ps @ [dir_profile home d] else ps"]
      show ?thesis
        by (auto simp: collect_profiles_step Cons_eq_map_conv simp del: collect_profiles.simps(3))
    qed
  qed (auto simp: Cons_eq_map_conv)
qed auto

lemma discover_Inr:
  "discover_identity_profiles v home = Some (Inr qs) \<longleftrightarrow>
     (\<exists>ds. lstat v home = Inr FtDir \<and> read_dir v home = Inr (map Inr ds)
        \<and> (\<forall>d \<in> set ds. \<exists>t. lstat v (home @ [d]) = Inr t)
        \<and> qs = sort_key profile_name (map (dir_profile home) (filter (profile_dir v home) ds)))"
proof -
  have "discover_identity_profiles v home = Some (Inr qs) \<longleftrightarrow>
     (\<exists>es ps. lstat v home = Inr FtDir \<and> read_dir v home = Inr es
        \<and> collect_profiles v home [] es = Some (Inr ps) \<and> qs = sort_key profile_name ps)"
    unfolding discover_identity_profiles_def by (auto split: sum.splits option.splits)
  then show ?thesis by (auto simp: collect_profiles_Inr)
qed

lemma names_from_step:
  "names_from v home (Inr d # es) =
     (case lstat v (home @ [d]) of
        Inl e \<Rightarrow> map_option (\<lambda>items. Inl (ReadFty (home @ [d]) e) # items) (names_from v home es)
      | Inr _ \<Rightarrow> if profile_dir v home d
                  then map_option (\<lambda>items. Inr (d @ DHTTP_SUFFIX) # items) (names_from v home es)
                  else names_from v home es)"
proof (cases "lstat v (home @ [d])")
  case (Inr t)
  show ?thesis
  proof (cases "normalize_profile_name d")
    case (Some n)
    with strip_profile_suffix obtain s where
      "strip_suffix DHTTP_SUFFIX n = Some s" "n = s @ DHTTP_SUFFIX" by blast
    with Some Inr normalized_dir [of d] show ?thesis
      by (auto simp: profile_dir_def ssl_is_dir_iff Let_def)
  qed (use Inr in \<open>simp add: profile_dir_def Let_def\<close>)
qed (simp add: Let_def)

lemma names_from_total: "names_from v home es \<noteq> None"
proof (induction es)
  case (Cons e es)
  then show ?case
    by (cases e) (simp_all add: names_from_step del: names_from.simps(3) split: sum.splits)
qed simp

lemma names_from_Inr:
  "\<forall>d \<in> set ds. \<exists>t. lstat v (home @ [d]) = Inr t \<Longrightarrow>
     names_from v home (map Inr ds)
       = Some (map (\<lambda>d. Inr (d @ DHTTP_SUFFIX)) (filter (profile_dir v home) ds))"
  by (induction ds) (auto simp: names_from_step simp del: names_from.simps(3))

lemma resolve_exactly_eq:
  assumes "normalize_profile_name name = Some (d @ DHTTP_SUFFIX)"
  shows "resolve_exactly v home name =
      Some (case stat v (home @ [d]) of
              Inr _ \<Rightarrow> Inr (dir_profile home d)
            | Inl e \<Rightarrow> if e = NotFoundKind then Inl (ExactNotFound (home @ [d]))
                        else Inl (ExactMetadata (home @ [d]) e))"
proof -
  have n: "profile_canonical (d @ DHTTP_SUFFIX)" using assms by (rule normalize_profile_canonical)
  obtain d' where "d @ DHTTP_SUFFIX = d' @ DHTTP_SUFFIX"
    "join_identity_name home (d @ DHTTP_SUFFIX) = Some (Inr (home @ [d']))"
    using join_identity_name_canonical [OF n] by blast
  then have "join_identity_name home (d @ DHTTP_SUFFIX) = Some (Inr (home @ [d]))" by simp
  then show ?thesis using assms unfolding dir_profile_def by (simp add: resolve_exactly_def)
qed

text \<open>
  The wildcard profile of the directory name \<open>d\<close>: its first label replaced by a star; for a single
  label, where the first label of the full name is cut too, the bare suffix behind a star.
\<close>

definition wildcard_profile :: "path \<Rightarrow> string \<Rightarrow> identity_profile" where
  "wildcard_profile home d =
     (case split_once CHR ''.'' d of
        Some (_, r) \<Rightarrow> dir_profile home (''*.'' @ r)
      | None \<Rightarrow> \<lparr>profile_path = home @ [''*.dhttp.net''], profile_name = ''*.dhttp.net''\<rparr>)"

lemma canonical_tail:
  assumes "canonical (l @ CHR ''.'' # r @ DHTTP_SUFFIX)"
  shows "canonical (r @ DHTTP_SUFFIX)"
proof -
  have "split_on CHR ''.'' (l @ CHR ''.'' # r @ DHTTP_SUFFIX)
      = split_on CHR ''.'' l @ split_on CHR ''.'' (r @ DHTTP_SUFFIX)"
    by (rule split_on_sep)
  moreover have "split_on CHR ''.'' (r @ DHTTP_SUFFIX) = split_on CHR ''.'' r @ [''dhttp'', ''net'']"
    by (simp add: DHTTP_SUFFIX_def split_on_sep)
  ultimately show ?thesis
    using assms by (auto simp: canonical_def is_valid_dns_name_def is_valid_dns_labels_def)
qed

lemma wildcard_join:
  assumes "profile_canonical (d @ DHTTP_SUFFIX)"
  obtains l rest where "split_once CHR ''.'' (d @ DHTTP_SUFFIX) = Some (l, rest)"
    "''*.'' @ rest = profile_name (wildcard_profile home d)"
    "join_identity_name home (''*.'' @ rest) = Some (Inr (profile_path (wildcard_profile home d)))"
proof (cases "split_once CHR ''.'' d")
  case None
  then have d: "CHR ''.'' \<notin> set d" by simp
  have s: "DHTTP_SUFFIX = CHR ''.'' # ''dhttp.net''" by (simp add: DHTTP_SUFFIX_def)
  have "split_once CHR ''.'' (d @ DHTTP_SUFFIX) = Some (d, ''dhttp.net'')"
    unfolding s by (rule split_once_append [OF d])
  moreover have "join_identity_name home ''*.dhttp.net'' = Some (Inr (home @ [''*.dhttp.net'']))"
  proof -
    have "normalize_profile_name ''*.dhttp.net'' = Some (''*.dhttp.net'' @ DHTTP_SUFFIX)" by code_simp
    then show ?thesis unfolding join_identity_name_def
      by (simp only: strip_suffix_append option.simps) (simp add: components_single)
  qed
  moreover have "wildcard_profile home d =
      \<lparr>profile_path = home @ [''*.dhttp.net''], profile_name = ''*.dhttp.net''\<rparr>"
    unfolding wildcard_profile_def None by simp
  ultimately show thesis by (intro that) simp_all
next
  case (Some lr)
  then obtain l r where lr: "split_once CHR ''.'' d = Some (l, r)" by (cases lr) simp
  then have d: "d = l @ CHR ''.'' # r" and l: "CHR ''.'' \<notin> set l"
    by (simp_all add: split_once_Some)
  have "split_once CHR ''.'' (d @ DHTTP_SUFFIX) = Some (l, r @ DHTTP_SUFFIX)"
    using d l by (simp add: split_once_append)
  moreover have c: "canonical (r @ DHTTP_SUFFIX)"
    using assms unfolding profile_canonical_def
  proof (elim disjE exE conjE)
    fix m assume "d @ DHTTP_SUFFIX = ''*.'' @ m" "canonical m"
    with d l show ?thesis by (cases l) (auto simp: Cons_eq_append_conv append_eq_Cons_conv)
  qed (use d canonical_tail in simp)
  then have p: "profile_canonical ((''*.'' @ r) @ DHTTP_SUFFIX)" by (auto simp: profile_canonical_def)
  obtain d' where "(''*.'' @ r) @ DHTTP_SUFFIX = d' @ DHTTP_SUFFIX"
    and j: "join_identity_name home ((''*.'' @ r) @ DHTTP_SUFFIX) = Some (Inr (home @ [d']))"
    using join_identity_name_canonical [OF p] by blast
  then have "d' = ''*.'' @ r" by simp
  with j have "join_identity_name home (''*.'' @ r @ DHTTP_SUFFIX) = Some (Inr (home @ [''*.'' @ r]))"
    by simp
  moreover have "wildcard_profile home d = dir_profile home (''*.'' @ r)"
    unfolding wildcard_profile_def lr by simp
  ultimately show thesis by (intro that) (simp_all add: dir_profile_def)
qed

lemma resolve_wildcard_eq:
  assumes "normalize_profile_name name = Some (d @ DHTTP_SUFFIX)"
  shows "resolve_wildcard windows v home name =
      Some (case stat v (profile_path (wildcard_profile home d)) of
              Inr _ \<Rightarrow> Inr (wildcard_profile home d)
            | Inl e \<Rightarrow> if e = NotFoundKind \<or> windows \<and> e = InvalidFilename
                        then Inl (WildcardNotFound (profile_path (wildcard_profile home d)))
                        else Inl (WildcardMetadata (profile_path (wildcard_profile home d)) e))"
proof -
  have n: "profile_canonical (d @ DHTTP_SUFFIX)" using assms by (rule normalize_profile_canonical)
  obtain l rest where r: "split_once CHR ''.'' (d @ DHTTP_SUFFIX) = Some (l, rest)"
    "''*.'' @ rest = profile_name (wildcard_profile home d)"
    "join_identity_name home (''*.'' @ rest) = Some (Inr (profile_path (wildcard_profile home d)))"
    by (rule wildcard_join [OF n])
  have p: "\<lparr>profile_path = profile_path (wildcard_profile home d), profile_name = ''*.'' @ rest\<rparr>
      = wildcard_profile home d"
    using r(2) by simp
  show ?thesis
    unfolding resolve_wildcard_def assms r(1) Let_def option.case prod.case r(3) sum.case p
    by (auto split: sum.splits)
qed

section \<open>Properties\<close>

text \<open>C35: Joining any text to the home as an identity name never panics; it fails exactly on the texts
  that do not normalise, and otherwise gives one directory directly below the home, whose name has
  no separator and is neither \<open>.\<close> nor \<open>..\<close>, and with the suffix is the normalised name.\<close>
theorem profile_path_safe:
  "case join_identity_name home name of
     None \<Rightarrow> False
   | Some (Inl e) \<Rightarrow> normalize_profile_name name = None
   | Some (Inr p) \<Rightarrow>
       (\<exists>d. p = home @ [d] \<and> normalize_profile_name name = Some (d @ DHTTP_SUFFIX)
          \<and> d \<noteq> [] \<and> CHR ''/'' \<notin> set d \<and> d \<noteq> ''.'' \<and> d \<noteq> ''..'')"
proof (cases "normalize_profile_name name")
  case (Some n)
  obtain d where "n = d @ DHTTP_SUFFIX" "d \<noteq> []" "CHR ''/'' \<notin> set d" "d \<noteq> ''.''" "d \<noteq> ''..''"
    "join_identity_name home name = Some (Inr (home @ [d]))"
    by (rule join_identity_name_Some [OF Some])
  with Some show ?thesis by auto
qed (simp add: join_identity_name_None)

text \<open>Where every entry of the home can be read, the two listings agree: discovery returns, ordered
  by name, exactly the profiles of the directories that have an \<open>ssl\<close> directory and whose name is the
  short form of the profile name it normalises to, and the stream of names gives their names in the
  order of the directory.\<close>
theorem discovery_exact:
  assumes "lstat v home = Inr FtDir" and "read_dir v home = Inr (map Inr ds)"
    and "\<forall>d \<in> set ds. \<exists>t. lstat v (home @ [d]) = Inr t"
  shows "discover_identity_profiles v home
      = Some (Inr (sort_key profile_name (map (dir_profile home) (filter (profile_dir v home) ds))))
    \<and> identity_profile_names v home
      = Some (map (\<lambda>d. Inr (d @ DHTTP_SUFFIX)) (filter (profile_dir v home) ds))"
  using assms discover_Inr [of v home] by (auto simp: identity_profile_names_def names_from_Inr)

definition example_view :: fs_view where
  "example_view = \<lparr>
     stat = (\<lambda>p. if p = [''h'', ''*.pilot''] then Inr FtDir else Inl NotFoundKind),
     lstat = (\<lambda>p. if p \<in> {[''h''], [''h'', ''*.pilot''], [''h'', ''*.pilot'', ''ssl'']} then Inr FtDir
                  else Inr FtFile),
     read_dir = (\<lambda>p. Inr [Inr ''*.pilot'', Inr ''settings.toml''])\<rparr>"

lemma discovery_exact_witness:
  "discover_identity_profiles example_view [''h'']
     = Some (Inr [\<lparr>profile_path = [''h'', ''*.pilot''], profile_name = ''*.pilot.dhttp.net''\<rparr>])"
proof -
  have p: "profile_dir example_view [''h''] ''*.pilot''" "\<not> profile_dir example_view [''h''] ''settings.toml''"
    by code_simp+
  have "discover_identity_profiles example_view [''h''] = Some (Inr (sort_key profile_name
      (map (dir_profile [''h'']) (filter (profile_dir example_view [''h'']) [''*.pilot'', ''settings.toml'']))))"
    by (rule conjunct1 [OF discovery_exact]) (simp_all add: example_view_def)
  then show ?thesis by (simp add: p) (simp add: dir_profile_def DHTTP_SUFFIX_def)
qed

text \<open>Every profile that discovery returns is found again: its name, and its directory's name,
  resolve to it, the typed handle of its name is it, and where the certificate crate accepts the name
  it is among the candidates without error.\<close>
theorem discovered_profiles_resolve:
  assumes "discover_identity_profiles v home = Some (Inr ps)" and "p \<in> set ps"
    and "\<And>q. lstat v q = Inr FtDir \<Longrightarrow> stat v q = Inr FtDir"
  shows "resolve_identity_profile windows v home (profile_name p) = Some (Inr p)
    \<and> resolve_identity_profile windows v home (last (profile_path p)) = Some (Inr p)
    \<and> identity_profile_of home (profile_name p) = Some (Inr p)
    \<and> (dhttp_name (profile_name p) \<longrightarrow> candidate dhttp_name v (profile_path p) = Some (Inr p))"
proof -
  from assms(1,2) obtain d where d: "profile_dir v home d" and p: "p = dir_profile home d"
    by (auto simp: discover_Inr)
  then have n: "normalize_profile_name d = Some (d @ DHTTP_SUFFIX)"
    "normalize_profile_name (d @ DHTTP_SUFFIX) = Some (d @ DHTTP_SUFFIX)"
    using normalize_profile_id normalize_profile_canonical by (auto simp: profile_dir_def)
  have st: "stat v (home @ [d]) = Inr FtDir" "stat v (home @ [d, ''ssl'']) = Inr FtDir"
    using d assms(3) by (simp_all add: profile_dir_def)
  have sel: "profile_name p = d @ DHTTP_SUFFIX" "profile_path p = home @ [d]" "last (profile_path p) = d"
    by (simp_all add: p dir_profile_def)
  have ssl: "ssl_dir p = home @ [d, ''ssl'']"
    by (simp add: ssl_dir_def SSL_DIR_NAME_def components_single sel)
  have "resolve_exactly v home (d @ DHTTP_SUFFIX) = Some (Inr p)" "resolve_exactly v home d = Some (Inr p)"
    unfolding resolve_exactly_eq [OF n(1)] resolve_exactly_eq [OF n(2)] p by (simp_all add: st)
  moreover obtain d' where "d @ DHTTP_SUFFIX = d' @ DHTTP_SUFFIX"
    "join_identity_name home (d @ DHTTP_SUFFIX) = Some (Inr (home @ [d']))"
    using join_identity_name_Some [OF n(2)] by blast
  then have "identity_profile_of home (d @ DHTTP_SUFFIX) = Some (Inr p)"
    using n(2) by (simp add: identity_profile_of_def p dir_profile_def)
  moreover have "candidate dhttp_name v (home @ [d]) = Some (Inr p)" if "dhttp_name (d @ DHTTP_SUFFIX)"
    using d that try_from_path_dir [OF n(1), of home] st
    by (simp add: candidate_def p [symmetric] sel ssl profile_dir_def)
  ultimately show ?thesis unfolding sel by (simp add: resolve_identity_profile_def)
qed

lemma discovered_profiles_resolve_witness:
  "\<exists>v. resolve_identity_profile False v [''h''] ''*.pilot.dhttp.net''
     = Some (Inr \<lparr>profile_path = [''h'', ''*.pilot''], profile_name = ''*.pilot.dhttp.net''\<rparr>)"
proof
  let ?v = "example_view\<lparr>stat := lstat example_view\<rparr>"
  let ?p = "\<lparr>profile_path = [''h'', ''*.pilot''], profile_name = ''*.pilot.dhttp.net''\<rparr>"
  have "discover_identity_profiles ?v [''h''] = Some (Inr [?p])" by code_simp
  from discovered_profiles_resolve [OF this, where p = ?p and windows = False]
  show "resolve_identity_profile False ?v [''h''] ''*.pilot.dhttp.net'' = Some (Inr ?p)" by simp
qed

text \<open>A name resolves to the profile of its own directory if that exists; only if it does not exist
  is the wildcard profile tried, whose name has a star for the first label; not-found names both
  paths, every other file-system error is reported, and resolution never panics.\<close>
theorem resolve_exact_then_wildcard:
  assumes "normalize_profile_name name = Some (d @ DHTTP_SUFFIX)"
  shows "resolve_identity_profile windows v home name =
    Some (let exact = home @ [d]; w = wildcard_profile home d in
          case stat v exact of
            Inr _ \<Rightarrow> Inr (dir_profile home d)
          | Inl e \<Rightarrow>
              if e \<noteq> NotFoundKind then Inl (ExactMetadata exact e)
              else
                (case stat v (profile_path w) of
                   Inr _ \<Rightarrow> Inr w
                 | Inl e \<Rightarrow>
                     if e = NotFoundKind \<or> windows \<and> e = InvalidFilename
                     then Inl (ProfileNotFound exact (profile_path w))
                     else Inl (WildcardMetadata (profile_path w) e)))"
  unfolding resolve_identity_profile_def Let_def
  by (simp add: resolve_exactly_eq [OF assms] resolve_wildcard_eq [OF assms] split: sum.splits)

lemma resolve_exact_then_wildcard_witness:
  "resolve_identity_profile False example_view [''h''] ''Alice.Pilot~''
     = Some (Inr \<lparr>profile_path = [''h'', ''*.pilot''], profile_name = ''*.pilot.dhttp.net''\<rparr>)"
proof -
  have "normalize_profile_name ''Alice.Pilot~'' = Some (''alice.pilot'' @ DHTTP_SUFFIX)" by code_simp
  from resolve_exact_then_wildcard [OF this, of False example_view "[''h'']"] show ?thesis
    by (simp add: example_view_def wildcard_profile_def split_once_def dir_profile_def DHTTP_SUFFIX_def)
qed

text \<open>The wildcard profile of a name with a single label below the suffix is not a profile in the
  form the other operations use: its name is the bare suffix behind a star, which normalises to a
  different name.\<close>
theorem wildcard_of_single_label:
  assumes "normalize_profile_name name = Some (d @ DHTTP_SUFFIX)" and "CHR ''.'' \<notin> set d"
    and "resolve_wildcard windows v home name = Some (Inr p)"
  shows "profile_name p = ''*.dhttp.net'' \<and> profile_path p = home @ [''*.dhttp.net'']
    \<and> normalize_profile_name (profile_name p) \<noteq> Some (profile_name p)
    \<and> try_from_path (profile_path p) \<noteq> Inr p"
proof -
  have w: "wildcard_profile home d = \<lparr>profile_path = home @ [''*.dhttp.net''], profile_name = ''*.dhttp.net''\<rparr>"
    using iffD2 [OF split_once_None assms(2)] unfolding wildcard_profile_def by (simp only: option.case)
  have p: "p = wildcard_profile home d"
    using assms(3) unfolding resolve_wildcard_eq [OF assms(1)] by (simp split: sum.splits if_splits)
  have n: "normalize_profile_name ''*.dhttp.net'' = Some ''*.dhttp.net.dhttp.net''" by code_simp
  then have "try_from_path (home @ [''*.dhttp.net'']) = Inr (dir_profile home ''*.dhttp.net'')"
    by (intro try_from_path_dir) (simp add: DHTTP_SUFFIX_def)
  with n show ?thesis unfolding p w by (simp add: dir_profile_def DHTTP_SUFFIX_def)
qed

lemma wildcard_of_single_label_witness:
  "normalize_profile_name ''*.dhttp.net'' \<noteq> Some ''*.dhttp.net''"
proof -
  let ?v = "example_view\<lparr>stat := (\<lambda>_. Inr FtDir)\<rparr>"
  let ?p = "\<lparr>profile_path = [''h'', ''*.dhttp.net''], profile_name = ''*.dhttp.net''\<rparr>"
  have "normalize_profile_name ''alice'' = Some (''alice'' @ DHTTP_SUFFIX)"
    "resolve_wildcard False ?v [''h''] ''alice'' = Some (Inr ?p)" by code_simp+
  from wildcard_of_single_label [OF this(1) _ this(2)] show ?thesis by simp
qed

text \<open>A name that ends in the suffix twice is valid and has a profile, whose directory is read as the shorter name.\<close>

lemma doubled_suffix_reads_shorter:
  "identity_profile_of [''home''] ''a.dhttp.net.dhttp.net''
     = Some (Inr \<lparr>profile_path = [''home'', ''a.dhttp.net''], profile_name = ''a.dhttp.net.dhttp.net''\<rparr>)"
  "try_from_path [''home'', ''a.dhttp.net'']
     = Inr \<lparr>profile_path = [''home'', ''a.dhttp.net''], profile_name = ''a.dhttp.net''\<rparr>"
  by code_simp+

end
