(* ===== verification/IdentityStore.thy ===== *)
theory IdentityStore
  imports Profiles "HOL-Library.AList"
begin

text \<open>
  The crate \<open>dhttp-home\<close>, files \<open>home/src/identity/management.rs\<close> and \<open>home/src/identity/ssl.rs\<close>: the
  transaction that installs the certificate and key of an identity, and the loading of what it
  installed.  The profile directory is a list of named nodes, one file-system call is one step that
  may fail, and every state of the directory is kept in a history, so that an interruption between
  two calls is a statement about the history.
\<close>

section \<open>The profile directory and the calls on it\<close>

datatype node = File "32 word" string | Dir "(string \<times> node) list" | Link

type_synonym entries = "(string \<times> node) list"

text \<open>
  A scripted fault: the error code the call reports, and how far it got before failing.  A fault
  is never of the kind \<open>NotFound\<close> or \<open>AlreadyExists\<close>, which the calls report by themselves.
\<close>

datatype fault = Fault nat nat

record disk =
  profile :: "entries option"
  script :: "fault option list"
  history :: "entries option list"
  next_transaction :: "64 word"

definition log_state :: "disk \<Rightarrow> disk" where
  "log_state d = d\<lparr>history := profile d # history d\<rparr>"

definition syscall ::
    "(entries option \<Rightarrow> (io_error + 'a) \<times> entries option) \<Rightarrow> (nat \<Rightarrow> entries option \<Rightarrow> entries option)
      \<Rightarrow> disk \<Rightarrow> (io_error + 'a) \<times> disk" where
  "syscall f partial d =
     (case script d of
        Some (Fault e k) # rest \<Rightarrow>
          (Inl (OtherIo e), log_state (d\<lparr>profile := partial k (profile d), script := rest\<rparr>))
      | rest \<Rightarrow>
          (case f (profile d) of
             (r, p) \<Rightarrow> (r, log_state (d\<lparr>profile := p, script := tl rest\<rparr>))))"

definition within ::
    "(entries \<Rightarrow> (io_error + 'a) \<times> entries) \<Rightarrow> entries option \<Rightarrow> (io_error + 'a) \<times> entries option" where
  "within f p =
     (case p of
        None \<Rightarrow> (Inl NotFoundKind, None)
      | Some es \<Rightarrow> (case f es of (r, es) \<Rightarrow> (r, Some es)))"

definition unchanged :: "nat \<Rightarrow> entries option \<Rightarrow> entries option" where
  "unchanged k p = p"

definition create_dir_all :: "disk \<Rightarrow> (io_error + unit) \<times> disk" where
  "create_dir_all = syscall (\<lambda>p. (Inr (), Some (case p of None \<Rightarrow> [] | Some es \<Rightarrow> es))) unchanged"

definition create_dir :: "string \<Rightarrow> disk \<Rightarrow> (io_error + unit) \<times> disk" where
  "create_dir name = syscall (within (\<lambda>es.
     case map_of es name of
       Some _ \<Rightarrow> (Inl AlreadyExists, es)
     | None \<Rightarrow> (Inr (), AList.update name (Dir []) es))) unchanged"

definition in_dir ::
    "string \<Rightarrow> (entries \<Rightarrow> (io_error + unit) \<times> entries) \<Rightarrow> entries \<Rightarrow> (io_error + unit) \<times> entries" where
  "in_dir dir f es =
     (case map_of es dir of
        None \<Rightarrow> (Inl NotFoundKind, es)
      | Some (Dir fs) \<Rightarrow> (case f fs of (r, fs) \<Rightarrow> (r, AList.update dir (Dir fs) es))
      | Some _ \<Rightarrow> (Inl NotADirectory, es))"

text \<open>\<open>OpenOptions\<close> with \<open>create_new\<close>, \<open>write\<close> and a mode, of which the process mask takes bits away.\<close>

definition open_new :: "32 word \<Rightarrow> string \<Rightarrow> string \<Rightarrow> 32 word \<Rightarrow> disk \<Rightarrow> (io_error + unit) \<times> disk" where
  "open_new umask dir name mode = syscall (within (in_dir dir (\<lambda>fs.
     case map_of fs name of
       Some _ \<Rightarrow> (Inl AlreadyExists, fs)
     | None \<Rightarrow> (Inr (), AList.update name (File (and mode (not umask)) []) fs)))) unchanged"

definition append_file :: "string \<Rightarrow> string \<Rightarrow> entries \<Rightarrow> (io_error + unit) \<times> entries" where
  "append_file name bytes fs =
     (case map_of fs name of
        Some (File mode contents) \<Rightarrow> (Inr (), AList.update name (File mode (contents @ bytes)) fs)
      | Some _ \<Rightarrow> (Inl IsADirectory, fs)
      | None \<Rightarrow> (Inl NotFoundKind, fs))"

definition write_all :: "string \<Rightarrow> string \<Rightarrow> string \<Rightarrow> disk \<Rightarrow> (io_error + unit) \<times> disk" where
  "write_all dir name bytes = syscall (within (in_dir dir (append_file name bytes)))
     (\<lambda>k p. snd (within (in_dir dir (append_file name (take k bytes))) p))"

definition flush_file :: "disk \<Rightarrow> (io_error + unit) \<times> disk" where
  "flush_file = syscall (\<lambda>p. (Inr (), p)) unchanged"

definition symlink_metadata :: "string \<Rightarrow> disk \<Rightarrow> (io_error + node) \<times> disk" where
  "symlink_metadata name = syscall (within (\<lambda>es. (ok_or NotFoundKind (map_of es name), es))) unchanged"

definition rename_entry :: "string \<Rightarrow> string \<Rightarrow> entries \<Rightarrow> (io_error + unit) \<times> entries" where
  "rename_entry from to es =
     (case map_of es from of
        None \<Rightarrow> (Inl NotFoundKind, es)
      | Some source \<Rightarrow>
          let moved = (Inr (), AList.update to source (AList.delete from es)) in
          (case (source, map_of es to) of
             (_, None) \<Rightarrow> moved
           | (Dir _, Some (Dir [])) \<Rightarrow> moved
           | (Dir _, Some (Dir _)) \<Rightarrow> (Inl DirectoryNotEmpty, es)
           | (Dir _, Some _) \<Rightarrow> (Inl NotADirectory, es)
           | (_, Some (Dir _)) \<Rightarrow> (Inl IsADirectory, es)
           | (_, Some _) \<Rightarrow> moved))"

definition rename :: "string \<Rightarrow> string \<Rightarrow> disk \<Rightarrow> (io_error + unit) \<times> disk" where
  "rename from to = syscall (within (rename_entry from to)) unchanged"

text \<open>A failing removal has taken the first \<open>k\<close> entries of the directory.\<close>

definition remove_entry :: "string \<Rightarrow> entries \<Rightarrow> (io_error + unit) \<times> entries" where
  "remove_entry name es =
     (case map_of es name of
        None \<Rightarrow> (Inl NotFoundKind, es)
      | Some (File _ _) \<Rightarrow> (Inl NotADirectory, es)
      | Some _ \<Rightarrow> (Inr (), AList.delete name es))"

definition remove_dir_all :: "string \<Rightarrow> disk \<Rightarrow> (io_error + unit) \<times> disk" where
  "remove_dir_all name = syscall (within (remove_entry name))
     (\<lambda>k p. snd (within (in_dir name (\<lambda>fs. (Inr (), drop k fs))) p))"

section \<open>Saving an identity\<close>

datatype save_identity_error = CreateIdentityDir io_error | CreateStageDir string io_error
  | Metadata string io_error | PreserveOld string string io_error | Create string io_error
  | Write string io_error | Commit string io_error | Rollback string string io_error

text \<open>The best-effort removals ignore the result.\<close>

definition discard :: "string \<Rightarrow> disk \<Rightarrow> disk" where
  "discard name d = snd (remove_dir_all name d)"

definition MATERIAL_MODE :: "32 word" where
  "MATERIAL_MODE = 0x100"

text \<open>The mode is octal 400; \<open>flush\<close> and \<open>sync_all\<close> change no content.\<close>

definition write_material_file ::
    "32 word \<Rightarrow> string \<Rightarrow> string \<Rightarrow> string \<Rightarrow> disk \<Rightarrow> (save_identity_error + unit) \<times> disk" where
  "write_material_file umask dir name contents d =
     (case open_new umask dir name MATERIAL_MODE d of
        (Inl e, d) \<Rightarrow> (Inl (Create name e), d)
      | (Inr _, d) \<Rightarrow>
          (case write_all dir name contents d of
             (Inl e, d) \<Rightarrow> (Inl (Write name e), d)
           | (Inr _, d) \<Rightarrow>
               (case flush_file d of
                  (Inl e, d) \<Rightarrow> (Inl (Write name e), d)
                | (Inr _, d) \<Rightarrow>
                    (case flush_file d of
                       (Inl e, d) \<Rightarrow> (Inl (Write name e), d)
                     | (Inr _, d) \<Rightarrow> (Inr (), d)))))"

text \<open>The commit and, where it fails, the roll-back.\<close>

definition install ::
    "(io_error + unit) \<Rightarrow> bool \<Rightarrow> string \<Rightarrow> string \<Rightarrow> disk \<Rightarrow> (save_identity_error + unit) \<times> disk" where
  "install before_install had_old_material stage_dir backup_dir d =
     (case (case before_install of
              Inr _ \<Rightarrow> rename stage_dir SSL_DIR_NAME d
            | Inl e \<Rightarrow> (Inl e, d)) of
        (Inl commit_error, d) \<Rightarrow>
          if had_old_material then
            (case rename backup_dir SSL_DIR_NAME d of
               (Inl e, d) \<Rightarrow> (Inl (Rollback backup_dir SSL_DIR_NAME e), discard stage_dir d)
             | (Inr _, d) \<Rightarrow> (Inl (Commit SSL_DIR_NAME commit_error), discard stage_dir d))
          else (Inl (Commit SSL_DIR_NAME commit_error), discard stage_dir d)
      | (Inr _, d) \<Rightarrow> (Inr (), if had_old_material then discard backup_dir d else d))"

definition staged ::
    "(io_error + unit) \<Rightarrow> string \<Rightarrow> string \<Rightarrow> disk \<Rightarrow> (save_identity_error + unit) \<times> disk" where
  "staged before_install stage_dir backup_dir d =
     (case symlink_metadata SSL_DIR_NAME d of
        (Inl e, d) \<Rightarrow>
          if e = NotFoundKind then install before_install False stage_dir backup_dir d
          else (Inl (Metadata SSL_DIR_NAME e), discard stage_dir d)
      | (Inr _, d) \<Rightarrow>
          (case rename SSL_DIR_NAME backup_dir d of
             (Inl e, d) \<Rightarrow> (Inl (PreserveOld SSL_DIR_NAME backup_dir e), discard stage_dir d)
           | (Inr _, d) \<Rightarrow> install before_install True stage_dir backup_dir d))"

definition unique_suffix :: "nat \<Rightarrow> 64 word \<Rightarrow> string" where
  "unique_suffix pid transaction_id = show_nat pid @ ''-'' @ show_nat (unat transaction_id)"

definition stage_name :: "string \<Rightarrow> string" where
  "stage_name suffix = ''.'' @ SSL_DIR_NAME @ ''-stage-'' @ suffix"

definition backup_name :: "string \<Rightarrow> string" where
  "backup_name suffix = ''.'' @ SSL_DIR_NAME @ ''-backup-'' @ suffix"

definition save_identity_transaction ::
    "nat \<Rightarrow> 32 word \<Rightarrow> (io_error + unit) \<Rightarrow> string \<Rightarrow> string \<Rightarrow> disk
      \<Rightarrow> (save_identity_error + unit) \<times> disk" where
  "save_identity_transaction pid umask before_install cert key d =
     (case create_dir_all d of
        (Inl e, d) \<Rightarrow> (Inl (CreateIdentityDir e), d)
      | (Inr _, d) \<Rightarrow>
          (let transaction_id = next_transaction d;
               d = d\<lparr>next_transaction := transaction_id + 1\<rparr>;
               suffix = unique_suffix pid transaction_id;
               stage_dir = stage_name suffix; backup_dir = backup_name suffix
           in case create_dir stage_dir d of
                (Inl e, d) \<Rightarrow> (Inl (CreateStageDir stage_dir e), d)
              | (Inr _, d) \<Rightarrow>
                  (case write_material_file umask stage_dir CERT_FILE_NAME cert d of
                     (Inl e, d) \<Rightarrow> (Inl e, discard stage_dir d)
                   | (Inr _, d) \<Rightarrow>
                       (case write_material_file umask stage_dir KEY_FILE_NAME key d of
                          (Inl e, d) \<Rightarrow> (Inl e, discard stage_dir d)
                        | (Inr _, d) \<Rightarrow> staged before_install stage_dir backup_dir d))))"

definition save_identity ::
    "nat \<Rightarrow> 32 word \<Rightarrow> string \<Rightarrow> string \<Rightarrow> disk \<Rightarrow> (save_identity_error + unit) \<times> disk" where
  "save_identity pid umask cert key = save_identity_transaction pid umask (Inr ()) cert key"

section \<open>Loading an identity\<close>

definition entry :: "string \<Rightarrow> entries option \<Rightarrow> node option" where
  "entry n p = (case p of None \<Rightarrow> None | Some es \<Rightarrow> map_of es n)"

text \<open>
  The two calls on a file of the material, \<open>metadata\<close> for its mode and \<open>read\<close> for its contents.  What
  they give for a symbolic link or a directory is the parameter \<open>other\<close>.
\<close>

type_synonym probe = "(io_error + 32 word) \<times> (io_error + string)"

definition material_at :: "(string \<Rightarrow> probe) \<Rightarrow> string \<Rightarrow> entries option \<Rightarrow> probe" where
  "material_at other name p =
     (case entry SSL_DIR_NAME p of
        None \<Rightarrow> (Inl NotFoundKind, Inl NotFoundKind)
      | Some (File _ _) \<Rightarrow> (Inl NotADirectory, Inl NotADirectory)
      | Some Link \<Rightarrow> other name
      | Some (Dir fs) \<Rightarrow>
          (case map_of fs name of
             None \<Rightarrow> (Inl NotFoundKind, Inl NotFoundKind)
           | Some (File mode contents) \<Rightarrow> (Inr mode, Inr contents)
           | Some _ \<Rightarrow> other name))"

text \<open>
  \<open>Pem::read\<close> of \<open>x509_parser\<close> on the rest of the data: the contents of the next block and what
  is left after it.
\<close>

datatype pem_error = MissingHeader | OtherPem nat

datatype load_certs_error = CertsRead io_error | CertsPem pem_error

partial_function (option) read_pems ::
    "(string \<Rightarrow> pem_error + (string \<times> string)) \<Rightarrow> string list \<Rightarrow> string \<Rightarrow> (load_certs_error + string list) option"
where
  "read_pems pem certs data =
     (case pem data of
        Inr block \<Rightarrow> read_pems pem (certs @ [fst block]) (snd block)
      | Inl e \<Rightarrow> Some (if e = MissingHeader then Inr certs else Inl (CertsPem e)))"

definition parse_chain ::
    "(string \<Rightarrow> pem_error + (string \<times> string)) \<Rightarrow> string \<Rightarrow> (load_certs_error + string list) option" where
  "parse_chain pem data =
     (case pem data of
        Inl e \<Rightarrow> Some (Inl (CertsPem e))
      | Inr block \<Rightarrow> read_pems pem [fst block] (snd block))"

definition load_certs ::
    "(string \<Rightarrow> probe) \<Rightarrow> (string \<Rightarrow> pem_error + (string \<times> string))
      \<Rightarrow> entries option \<Rightarrow> (load_certs_error + string list) option" where
  "load_certs other pem p =
     (case snd (material_at other CERT_FILE_NAME p) of
        Inl e \<Rightarrow> Some (Inl (CertsRead e))
      | Inr data \<Rightarrow> parse_chain pem data)"

datatype load_key_error = KeyMetadata io_error | KeyRead io_error | PermissionsTooOpen "32 word" | KeyParse

definition load_key ::
    "(string \<Rightarrow> probe) \<Rightarrow> (string \<Rightarrow> 'k option) \<Rightarrow> entries option
      \<Rightarrow> load_key_error + 'k" where
  "load_key other from_pem_slice p =
     and_then (map_err KeyMetadata (fst (material_at other KEY_FILE_NAME p))) (\<lambda>mode.
     let permissions = and mode 0x1FF in
     if permissions \<noteq> MATERIAL_MODE then Inl (PermissionsTooOpen permissions)
     else
       and_then (map_err KeyRead (snd (material_at other KEY_FILE_NAME p))) (\<lambda>data.
         ok_or KeyParse (from_pem_slice data)))"

datatype load_ocsp_error = OcspRead io_error | OcspEmpty

definition load_ocsp ::
    "(string \<Rightarrow> probe) \<Rightarrow> entries option \<Rightarrow> load_ocsp_error + string" where
  "load_ocsp other p =
     and_then (map_err OcspRead (snd (material_at other OCSP_FILE_NAME p))) (\<lambda>bytes.
       if bytes = [] then Inl OcspEmpty else Inr bytes)"

datatype load_identity_error = LoadInvalidName | LoadCerts load_certs_error | LoadKey load_key_error

record ('n, 'k) identity =
  identity_name :: 'n
  identity_certs :: "string list"
  identity_key :: 'k

definition load_identity ::
    "(string \<Rightarrow> probe) \<Rightarrow> (string \<Rightarrow> pem_error + (string \<times> string))
      \<Rightarrow> (string \<Rightarrow> 'k option) \<Rightarrow> (string \<Rightarrow> 'n option) \<Rightarrow> string \<Rightarrow> entries option
      \<Rightarrow> (load_identity_error + ('n, 'k) identity) option" where
  "load_identity other pem from_pem_slice dhttp_name name p =
     map_option (\<lambda>certs.
       and_then (map_err LoadCerts certs) (\<lambda>certs.
       and_then (map_err LoadKey (load_key other from_pem_slice p)) (\<lambda>key.
       and_then (ok_or LoadInvalidName (dhttp_name name)) (\<lambda>n.
         Inr \<lparr>identity_name = n, identity_certs = certs, identity_key = key\<rparr>))))
     (load_certs other pem p)"

section \<open>Facts about the calls\<close>

lemma entry_simps [simp]: "entry n None = None" "entry n (Some es) = map_of es n"
  by (simp_all add: entry_def)

lemmas map_of_entries = AList.update_conv' AList.delete_conv'

text \<open>
  \<open>steps d d' P\<close>: going from \<open>d\<close> to \<open>d'\<close> adds states to the history that all satisfy \<open>P\<close>, the
  last being that of \<open>d'\<close>.
\<close>

definition steps :: "disk \<Rightarrow> disk \<Rightarrow> (entries option \<Rightarrow> bool) \<Rightarrow> bool" where
  "steps d d' P \<longleftrightarrow> (\<exists>hs. history d' = hs @ history d \<and> (\<forall>p \<in> set hs. P p)
      \<and> (hs = [] \<longrightarrow> profile d' = profile d) \<and> (hs \<noteq> [] \<longrightarrow> hd hs = profile d'))"

lemma steps_refl: "history d' = history d \<Longrightarrow> profile d' = profile d \<Longrightarrow> steps d d' P"
  by (simp add: steps_def)

lemma steps_trans: "steps d d' P \<Longrightarrow> steps d' d'' P \<Longrightarrow> steps d d'' P"
  unfolding steps_def
proof (elim exE conjE)
  fix hs gs
  assume "history d' = hs @ history d" "\<forall>p \<in> set hs. P p" "history d'' = gs @ history d'" "\<forall>p \<in> set gs. P p"
    "hs = [] \<longrightarrow> profile d' = profile d" "hs \<noteq> [] \<longrightarrow> hd hs = profile d'"
    "gs = [] \<longrightarrow> profile d'' = profile d'" "gs \<noteq> [] \<longrightarrow> hd gs = profile d''"
  then show "\<exists>hs. history d'' = hs @ history d \<and> (\<forall>p \<in> set hs. P p)
      \<and> (hs = [] \<longrightarrow> profile d'' = profile d) \<and> (hs \<noteq> [] \<longrightarrow> hd hs = profile d'')"
    by (intro exI [of _ "gs @ hs"]) (cases gs; auto)
qed

lemma steps_mono: "steps d d' P \<Longrightarrow> (\<And>p. P p \<Longrightarrow> Q p) \<Longrightarrow> steps d d' Q"
  unfolding steps_def by blast

lemma steps_profile: "steps d d' P \<Longrightarrow> P (profile d) \<Longrightarrow> P (profile d')"
  unfolding steps_def by (metis list.set_sel(1))

lemma syscall_steps:
  assumes "syscall f partial d = (r, d')"
    and "\<And>k. P (partial k (profile d))" and "P (snd (f (profile d)))"
  shows "steps d d' P"
proof -
  have "history d' = profile d' # history d \<and> P (profile d')"
    using assms by (auto simp: syscall_def log_state_def split: list.splits option.splits fault.splits prod.splits)
  then show ?thesis unfolding steps_def by (intro exI [of _ "[profile d']"]) simp
qed

lemma syscall_Inr:
  "syscall f partial d = (Inr x, d') \<Longrightarrow> f (profile d) = (Inr x, profile d')"
  by (auto simp: syscall_def log_state_def split: list.splits option.splits fault.splits prod.splits)

lemma syscall_Inl:
  "syscall f partial d = (Inl e, d') \<Longrightarrow>
     f (profile d) = (Inl e, profile d') \<or> (\<exists>k c. e = OtherIo c \<and> profile d' = partial k (profile d))"
  by (auto simp: syscall_def log_state_def split: list.splits option.splits fault.splits prod.splits)

lemma syscall_next: "syscall f partial d = (r, d') \<Longrightarrow> next_transaction d' = next_transaction d"
  by (auto simp: syscall_def log_state_def split: list.splits option.splits fault.splits prod.splits)

text \<open>What a call leaves alone.\<close>

definition except :: "string set \<Rightarrow> entries option \<Rightarrow> entries option \<Rightarrow> bool" where
  "except ns p q \<longleftrightarrow> (\<forall>n. n \<notin> ns \<longrightarrow> entry n q = entry n p)"

lemma except_refl [simp]: "except ns p p" and except_trans: "except ns p q \<Longrightarrow> except ns q r \<Longrightarrow> except ns p r"
  and except_mono: "except ns p q \<Longrightarrow> ns \<subseteq> ms \<Longrightarrow> except ms p q"
  by (auto simp: except_def)

lemma except_in_dir: "except {dir} p (snd (within (in_dir dir f) p))"
  by (cases p) (auto simp: except_def within_def in_dir_def map_of_entries
      split: prod.splits option.splits node.splits)

lemma except_remove: "except {name} p (snd (within (remove_entry name) p))"
  by (cases p) (auto simp: except_def within_def remove_entry_def map_of_entries
      split: prod.splits option.splits node.splits)

lemma create_dir_all_except: "create_dir_all d = (r, d') \<Longrightarrow> steps d d' (except {} (profile d))"
  unfolding create_dir_all_def
  by (erule syscall_steps) (auto simp: unchanged_def except_def split: option.splits)

lemma create_dir_except: "create_dir n d = (r, d') \<Longrightarrow> steps d d' (except {n} (profile d))"
  unfolding create_dir_def
  by (erule syscall_steps) (auto simp: unchanged_def except_def within_def map_of_entries
      split: option.splits)

lemma open_new_except: "open_new umask dir n m d = (r, d') \<Longrightarrow> steps d d' (except {dir} (profile d))"
  unfolding open_new_def by (erule syscall_steps) (simp_all add: unchanged_def except_in_dir)

lemma write_all_except: "write_all dir n c d = (r, d') \<Longrightarrow> steps d d' (except {dir} (profile d))"
  unfolding write_all_def by (erule syscall_steps) (simp_all add: except_in_dir)

lemma flush_except: "flush_file d = (r, d') \<Longrightarrow> steps d d' (\<lambda>q. q = profile d)"
  unfolding flush_file_def by (erule syscall_steps) (simp_all add: unchanged_def)

lemma symlink_metadata_except: "symlink_metadata n d = (r, d') \<Longrightarrow> steps d d' (\<lambda>q. q = profile d)"
  unfolding symlink_metadata_def
  by (erule syscall_steps) (auto simp: unchanged_def within_def split: option.splits)

lemma discard_except: "steps d (discard n d) (except {n} (profile d))"
proof -
  obtain r d' where eq: "remove_dir_all n d = (r, d')" by (cases "remove_dir_all n d") auto
  then have "steps d d' (except {n} (profile d))"
    unfolding remove_dir_all_def by (rule syscall_steps) (simp_all add: except_in_dir except_remove)
  with eq show ?thesis by (simp add: discard_def)
qed

lemma syscall_one: "syscall f partial d = (r, d') \<Longrightarrow> steps d d' (\<lambda>q. q = profile d')"
proof -
  assume "syscall f partial d = (r, d')"
  then have "history d' = profile d' # history d"
    by (auto simp: syscall_def log_state_def split: list.splits option.splits fault.splits prod.splits)
  then show ?thesis unfolding steps_def by (intro exI [of _ "[profile d']"]) simp
qed

lemma rename_one: "rename a b d = (r, d') \<Longrightarrow> steps d d' (\<lambda>q. q = profile d')"
  unfolding rename_def by (rule syscall_one)

lemma rename_Inl: "rename a b d = (Inl e, d') \<Longrightarrow> profile d' = profile d"
  unfolding rename_def
  by (drule syscall_Inl) (auto simp: unchanged_def within_def rename_entry_def Let_def
      split: option.splits prod.splits node.splits list.splits if_splits)

lemma rename_entry_Inr:
  "rename_entry a b es = (Inr u, es') \<Longrightarrow>
     \<exists>x. map_of es a = Some x \<and> es' = AList.update b x (AList.delete a es)"
  by (auto simp: rename_entry_def Let_def split: option.splits node.splits list.splits)

lemma rename_Inr:
  assumes "rename a b d = (Inr u, d')" and "a \<noteq> b"
  obtains x where "entry a (profile d) = Some x" "entry a (profile d') = None"
    "entry b (profile d') = Some x" "except {a, b} (profile d) (profile d')"
proof -
  from syscall_Inr [OF assms(1) [unfolded rename_def]] obtain es es' where
    es: "profile d = Some es" "Some es' = profile d'" "rename_entry a b es = (Inr u, es')"
    by (auto simp: within_def split: option.splits prod.splits)
  with rename_entry_Inr obtain x where "map_of es a = Some x" "es' = AList.update b x (AList.delete a es)"
    by blast
  with es(1) assms(2) es(2) [symmetric] show thesis
    by (intro that) (auto simp: map_of_entries except_def)
qed

lemma discard_other: "m \<noteq> n \<Longrightarrow> entry m (profile (discard n d)) = entry m (profile d)"
  using steps_profile [OF discard_except] by (simp add: except_def)

text \<open>What an observer may find between two calls, and what the result promises.\<close>

definition safe :: "node option \<Rightarrow> node \<Rightarrow> string \<Rightarrow> entries option \<Rightarrow> bool" where
  "safe old new backup_dir q \<longleftrightarrow> entry SSL_DIR_NAME q = old \<or> entry SSL_DIR_NAME q = Some new
     \<or> entry SSL_DIR_NAME q = None \<and> old \<noteq> None \<and> entry backup_dir q = old"

definition outcome :: "(save_identity_error + unit) \<Rightarrow> node option \<Rightarrow> node \<Rightarrow> string \<Rightarrow> entries option \<Rightarrow> bool"
where
  "outcome r old new backup_dir q =
     (case r of
        Inr _ \<Rightarrow> entry SSL_DIR_NAME q = Some new
      | Inl (Rollback _ _ _) \<Rightarrow> entry SSL_DIR_NAME q = None \<and> entry backup_dir q = old
      | Inl _ \<Rightarrow> entry SSL_DIR_NAME q = old)"

lemma safe_discard:
  "n \<noteq> SSL_DIR_NAME \<Longrightarrow> n \<noteq> backup_dir \<Longrightarrow> safe old new backup_dir (profile d) \<Longrightarrow>
     steps d (discard n d) (safe old new backup_dir)"
  by (rule steps_mono [OF discard_except]) (auto simp: safe_def except_def)

lemma safe_discard_backup:
  "b \<noteq> SSL_DIR_NAME \<Longrightarrow> entry SSL_DIR_NAME (profile d) = Some new \<Longrightarrow>
     steps d (discard b d) (safe old new b')"
  by (rule steps_mono [OF discard_except]) (auto simp: safe_def except_def)

lemma install_safe:
  assumes names: "stage_dir \<noteq> SSL_DIR_NAME" "backup_dir \<noteq> SSL_DIR_NAME" "stage_dir \<noteq> backup_dir"
    and inst: "install before_install had stage_dir backup_dir d = (r, d')"
    and stage: "entry stage_dir (profile d) = Some new" and ssl: "entry SSL_DIR_NAME (profile d) = None"
    and old: "if had then old \<noteq> None \<and> entry backup_dir (profile d) = old else old = None"
  shows "steps d d' (safe old new backup_dir) \<and> outcome r old new backup_dir (profile d')"
proof -
  obtain c d1 where c: "(case before_install of Inr _ \<Rightarrow> rename stage_dir SSL_DIR_NAME d
      | Inl e \<Rightarrow> (Inl e, d)) = (c, d1)" by fastforce
  have safe: "safe old new backup_dir (profile d)"
    using ssl old by (auto simp: safe_def split: if_splits)
  show ?thesis
  proof (cases c)
    case (Inr u)
    with c have ren: "rename stage_dir SSL_DIR_NAME d = (Inr u, d1)" by (cases before_install) auto
    then obtain x where "entry stage_dir (profile d) = Some x" "entry SSL_DIR_NAME (profile d1) = Some x"
      using names by (metis rename_Inr)
    with stage have d1: "entry SSL_DIR_NAME (profile d1) = Some new" by simp
    then have "steps d d1 (safe old new backup_dir)"
      by (intro steps_mono [OF rename_one [OF ren]]) (simp add: safe_def)
    moreover have "steps d1 (discard backup_dir d1) (safe old new backup_dir)"
      using d1 names by (intro safe_discard_backup) auto
    ultimately show ?thesis
      using inst c Inr d1 names
      by (auto simp: install_def outcome_def discard_other intro: steps_trans split: if_splits)
  next
    case (Inl e)
    have d1: "profile d1 = profile d \<and> steps d d1 (\<lambda>q. q = profile d)"
    proof (cases before_install)
      case (Inr u)
      with c Inl have "rename stage_dir SSL_DIR_NAME d = (Inl e, d1)" by simp
      with rename_Inl [OF this] rename_one [OF this] show ?thesis by simp
    qed (use c in \<open>auto intro: steps_refl\<close>)
    then have s1: "steps d d1 (safe old new backup_dir)" using safe by (auto intro: steps_mono)
    have sd: "steps d2 (discard stage_dir d2) (safe old new backup_dir)"
      if "safe old new backup_dir (profile d2)" for d2
      using names that by (intro safe_discard) auto
    show ?thesis
    proof (cases had)
      case False
      with inst c Inl have r: "r = Inl (Commit SSL_DIR_NAME e)" "d' = discard stage_dir d1"
        by (auto simp: install_def)
      moreover from r d1 safe sd s1 have "steps d d' (safe old new backup_dir)"
        by (auto intro: steps_trans)
      ultimately show ?thesis
        using False old ssl d1 names by (simp add: outcome_def discard_other)
    next
      case True
      obtain q d2 where q: "rename backup_dir SSL_DIR_NAME d1 = (q, d2)" by fastforce
      show ?thesis
      proof (cases q)
        case (Inl e')
        with q have "profile d2 = profile d" "steps d1 d2 (\<lambda>p. p = profile d)"
          using rename_Inl rename_one d1 by fastforce+
        moreover from True inst c q Inl \<open>c = Inl e\<close>
        have "r = Inl (Rollback backup_dir SSL_DIR_NAME e')" "d' = discard stage_dir d2"
          by (auto simp: install_def)
        moreover have "steps d1 d2 (safe old new backup_dir)"
          using \<open>steps d1 d2 (\<lambda>p. p = profile d)\<close> safe by (auto intro: steps_mono)
        ultimately show ?thesis
          using True old ssl names s1 sd [of d2] safe
          by (auto simp: outcome_def discard_other intro: steps_trans)
      next
        case (Inr u)
        with q obtain x where "entry backup_dir (profile d1) = Some x" "entry SSL_DIR_NAME (profile d2) = Some x"
          using names by (metis rename_Inr)
        with True old d1 have d2: "entry SSL_DIR_NAME (profile d2) = old" by simp
        then have "safe old new backup_dir (profile d2)" by (simp add: safe_def)
        moreover from this have "steps d1 d2 (safe old new backup_dir)"
          by (intro steps_mono [OF rename_one [OF q]]) simp
        moreover from True inst c q Inr \<open>c = Inl e\<close>
        have "r = Inl (Commit SSL_DIR_NAME e)" "d' = discard stage_dir d2"
          by (auto simp: install_def)
        ultimately show ?thesis
          using d2 names s1 sd [of d2] by (auto simp: outcome_def discard_other intro: steps_trans)
      qed
    qed
  qed
qed

lemma within_lookup:
  "within (\<lambda>es. (ok_or NotFoundKind (map_of es n), es)) p = (ok_or NotFoundKind (entry n p), p)"
  by (cases p) (simp_all add: within_def)

lemma symlink_metadata_cases:
  assumes "symlink_metadata n d = (r, d')"
  shows "profile d' = profile d"
    and "r = Inl NotFoundKind \<Longrightarrow> entry n (profile d) = None"
    and "r = Inr x \<Longrightarrow> entry n (profile d) = Some x"
proof -
  show "profile d' = profile d"
    using steps_profile [OF symlink_metadata_except [OF assms]] by simp
  note s = assms [unfolded symlink_metadata_def]
  show "entry n (profile d) = None" if "r = Inl NotFoundKind"
    using syscall_Inl [OF s [unfolded that]] by (cases "entry n (profile d)") (auto simp: within_lookup)
  show "entry n (profile d) = Some x" if "r = Inr x"
    using syscall_Inr [OF s [unfolded that]] by (cases "entry n (profile d)") (auto simp: within_lookup)
qed

lemma staged_safe:
  assumes names: "stage_dir \<noteq> SSL_DIR_NAME" "backup_dir \<noteq> SSL_DIR_NAME" "stage_dir \<noteq> backup_dir"
    and st: "staged before_install stage_dir backup_dir d = (r, d')"
    and stage: "entry stage_dir (profile d) = Some new"
    and old: "old = entry SSL_DIR_NAME (profile d)"
  shows "steps d d' (safe old new backup_dir) \<and> outcome r old new backup_dir (profile d')"
proof -
  obtain q d1 where q: "symlink_metadata SSL_DIR_NAME d = (q, d1)" by fastforce
  note p = symlink_metadata_cases [OF q]
  have safe: "safe old new backup_dir (profile d)" using old by (simp add: safe_def)
  have s1: "steps d d1 (safe old new backup_dir)"
    by (rule steps_mono [OF symlink_metadata_except [OF q]]) (simp add: safe)
  have sd: "steps d2 (discard stage_dir d2) (safe old new backup_dir)"
    if "safe old new backup_dir (profile d2)" for d2
    using names that by (intro safe_discard) auto
  show ?thesis
  proof (cases q)
    case (Inl e)
    show ?thesis
    proof (cases "e = NotFoundKind")
      case True
      with st q Inl have "install before_install False stage_dir backup_dir d1 = (r, d')"
        by (simp add: staged_def)
      from install_safe [OF names this, where old = old and new = new] p Inl True stage old s1 show ?thesis
        by (auto intro: steps_trans)
    next
      case False
      with st q Inl have "r = Inl (Metadata SSL_DIR_NAME e)" "d' = discard stage_dir d1"
        by (auto simp: staged_def)
      with p(1) safe sd [of d1] s1 old names show ?thesis
        by (auto simp: outcome_def discard_other intro: steps_trans)
    qed
  next
    case (Inr x)
    with p have x: "entry SSL_DIR_NAME (profile d) = Some x" by simp
    obtain u d2 where u: "rename SSL_DIR_NAME backup_dir d1 = (u, d2)" by fastforce
    show ?thesis
    proof (cases u)
      case (Inl e)
      with st q u \<open>q = Inr x\<close> have "r = Inl (PreserveOld SSL_DIR_NAME backup_dir e)" "d' = discard stage_dir d2"
        by (auto simp: staged_def)
      moreover from Inl u have "profile d2 = profile d" using rename_Inl p(1) by metis
      moreover from this have "steps d1 d2 (safe old new backup_dir)"
        using safe by (intro steps_mono [OF rename_one [OF u]]) simp
      ultimately show ?thesis
        using safe sd [of d2] s1 old names by (auto simp: outcome_def discard_other intro: steps_trans)
    next
      case (Inr w)
      with u have "rename SSL_DIR_NAME backup_dir d1 = (Inr w, d2)" by simp
      then obtain y where y: "entry SSL_DIR_NAME (profile d1) = Some y" "entry SSL_DIR_NAME (profile d2) = None"
        "entry backup_dir (profile d2) = Some y" "except {SSL_DIR_NAME, backup_dir} (profile d1) (profile d2)"
        using names(2) by (metis rename_Inr)
      with x p(1) old have "old = Some y" by simp
      moreover have "entry stage_dir (profile d2) = Some new"
        using y(4) names stage p(1) by (simp add: except_def)
      moreover from st q u Inr \<open>q = Inr x\<close> have "install before_install True stage_dir backup_dir d2 = (r, d')"
        by (simp add: staged_def)
      ultimately have "steps d2 d' (safe old new backup_dir) \<and> outcome r old new backup_dir (profile d')"
        using install_safe [OF names, where old = old and new = new and had = True and d = d2] y by auto
      moreover have "steps d1 d2 (safe old new backup_dir)"
        using y \<open>old = Some y\<close> by (intro steps_mono [OF rename_one [OF u]]) (simp add: safe_def)
      ultimately show ?thesis using s1 by (auto intro: steps_trans)
    qed
  qed
qed

lemma in_dir_Inr:
  assumes "within (in_dir dir f) p = (Inr u, q)"
  obtains fs gs where "entry dir p = Some (Dir fs)" "f fs = (Inr u, gs)" "entry dir q = Some (Dir gs)"
  using assms by (auto simp: within_def in_dir_def map_of_entries
      split: option.splits prod.splits node.splits)

definition material :: "32 word \<Rightarrow> string \<Rightarrow> node" where
  "material umask contents = File (and MATERIAL_MODE (not umask)) contents"

lemma update_new: "map_of fs n = None \<Longrightarrow> AList.update n x fs = fs @ [(n, x)]"
  by (induction fs) (auto split: if_splits)

lemma update_last: "map_of fs n = None \<Longrightarrow> AList.update n y (fs @ [(n, x)]) = fs @ [(n, y)]"
  by (induction fs) (auto split: if_splits)

lemma write_material_Inr:
  assumes "write_material_file umask dir n c d = (Inr u, d')"
  obtains fs where "entry dir (profile d) = Some (Dir fs)"
    "entry dir (profile d') = Some (Dir (fs @ [(n, material umask c)]))"
proof -
  from assms obtain u1 d1 u2 d2 u3 d3 u4 where
    o: "open_new umask dir n MATERIAL_MODE d = (Inr u1, d1)" and
    w: "write_all dir n c d1 = (Inr u2, d2)" and
    f: "flush_file d2 = (Inr u3, d3)" "flush_file d3 = (Inr u4, d')"
    by (auto simp: write_material_file_def split: prod.splits sum.splits)
  obtain fs gs where fs: "entry dir (profile d) = Some (Dir fs)"
    and g: "(case map_of fs n of Some _ \<Rightarrow> (Inl AlreadyExists, fs)
        | None \<Rightarrow> (Inr (), AList.update n (File (and MATERIAL_MODE (not umask)) []) fs)) = (Inr u1, gs)"
    and d1: "entry dir (profile d1) = Some (Dir gs)"
    by (rule in_dir_Inr [OF syscall_Inr [OF o [unfolded open_new_def]]])
  have n: "map_of fs n = None" using g by (cases "map_of fs n") simp_all
  then have gs: "gs = fs @ [(n, material umask [])]" using g by (simp add: update_new material_def)
  obtain hs ks where h: "entry dir (profile d1) = Some (Dir hs)"
    and k: "append_file n c hs = (Inr u2, ks)" and d2: "entry dir (profile d2) = Some (Dir ks)"
    by (rule in_dir_Inr [OF syscall_Inr [OF w [unfolded write_all_def]]])
  have "hs = gs" using d1 h by simp
  then have "ks = fs @ [(n, material umask c)]"
    using k n by (simp add: gs append_file_def material_def update_last map_add_def)
  with d2 have "entry dir (profile d2) = Some (Dir (fs @ [(n, material umask c)]))" by simp
  moreover have "profile d' = profile d2"
    using steps_profile [OF flush_except [OF f(1)]] steps_profile [OF flush_except [OF f(2)]] by simp
  ultimately show thesis using fs by (intro that) simp_all
qed

lemma steps_except_trans:
  "steps d d' (except ns (profile d)) \<Longrightarrow> steps d' d'' (except ns (profile d'))
     \<Longrightarrow> steps d d'' (except ns (profile d))"
  by (rule steps_trans, assumption, erule steps_mono, rule except_trans)
     (auto dest: steps_profile)

lemma steps_same_except: "steps d d' (\<lambda>q. q = profile d) \<Longrightarrow> steps d d' (except ns (profile d))"
  by (erule steps_mono) simp

lemma write_material_except:
  assumes "write_material_file umask dir n c d = (r, d')"
  shows "steps d d' (except {dir} (profile d))"
proof -
  obtain r1 d1 where o: "open_new umask dir n MATERIAL_MODE d = (r1, d1)" by fastforce
  obtain r2 d2 where w: "write_all dir n c d1 = (r2, d2)" by fastforce
  obtain r3 d3 where f: "flush_file d2 = (r3, d3)" by fastforce
  obtain r4 d4 where g: "flush_file d3 = (r4, d4)" by fastforce
  note s1 = open_new_except [OF o]
  note s2 = steps_except_trans [OF s1 write_all_except [OF w]]
  note s3 = steps_except_trans [OF s2 steps_same_except [OF flush_except [OF f]]]
  note s4 = steps_except_trans [OF s3 steps_same_except [OF flush_except [OF g]]]
  have "d' = d1 \<or> d' = d2 \<or> d' = d3 \<or> d' = d4"
    using assms unfolding write_material_file_def o w f g
    by (cases r1; cases r2; cases r3; cases r4) (auto simp: w f g)
  with s1 s2 s3 s4 show ?thesis by blast
qed

lemma rename_except: "rename a b d = (r, d') \<Longrightarrow> steps d d' (except {a, b} (profile d))"
  unfolding rename_def
  by (erule syscall_steps) (auto simp: unchanged_def except_def within_def rename_entry_def Let_def
      map_of_entries split: option.splits node.splits list.splits)

lemma steps_except_mono:
  "steps d d' (except ms (profile d)) \<Longrightarrow> ms \<subseteq> ns \<Longrightarrow> steps d d' (except ns (profile d))"
  by (erule steps_mono) (rule except_mono)

lemma install_except:
  assumes "install before_install had stage_dir backup_dir d = (r, d')"
  shows "steps d d' (except {SSL_DIR_NAME, stage_dir, backup_dir} (profile d))"
proof -
  let ?ns = "{SSL_DIR_NAME, stage_dir, backup_dir}"
  obtain c d1 where c: "(case before_install of Inr _ \<Rightarrow> rename stage_dir SSL_DIR_NAME d
      | Inl e \<Rightarrow> (Inl e, d)) = (c, d1)" by fastforce
  have s1: "steps d d1 (except ?ns (profile d))"
  proof (cases before_install)
    case (Inr u)
    with c have "rename stage_dir SSL_DIR_NAME d = (c, d1)" by simp
    then show ?thesis by (rule steps_except_mono [OF rename_except]) auto
  qed (use c in \<open>auto intro: steps_refl\<close>)
  obtain q d2 where q: "rename backup_dir SSL_DIR_NAME d1 = (q, d2)" by fastforce
  have s2: "steps d d2 (except ?ns (profile d))"
    by (rule steps_except_trans [OF s1], rule steps_except_mono [OF rename_except [OF q]]) auto
  have disc: "steps e (discard n e) (except ?ns (profile e))" if "n \<in> ?ns" for e n
    by (rule steps_except_mono [OF discard_except]) (use that in auto)
  have "d' \<in> {d1, discard stage_dir d1, discard stage_dir d2, discard backup_dir d1}"
    using assms unfolding install_def c q by (cases c; cases q) (auto simp: q split: if_splits)
  then show ?thesis
    using s1 s2 disc by (auto intro: steps_except_trans)
qed

lemma staged_except:
  assumes "staged before_install stage_dir backup_dir d = (r, d')"
  shows "steps d d' (except {SSL_DIR_NAME, stage_dir, backup_dir} (profile d))"
proof -
  let ?ns = "{SSL_DIR_NAME, stage_dir, backup_dir}"
  obtain q d1 where q: "symlink_metadata SSL_DIR_NAME d = (q, d1)" by fastforce
  obtain u d2 where u: "rename SSL_DIR_NAME backup_dir d1 = (u, d2)" by fastforce
  have s1: "steps d d1 (except ?ns (profile d))"
    by (rule steps_same_except [OF symlink_metadata_except [OF q]])
  have s2: "steps d d2 (except ?ns (profile d))"
    by (rule steps_except_trans [OF s1], rule steps_except_mono [OF rename_except [OF u]]) auto
  have disc: "steps e (discard stage_dir e) (except ?ns (profile e))" for e
    by (rule steps_except_mono [OF discard_except]) auto
  have "d' = discard stage_dir d1 \<or> d' = discard stage_dir d2
      \<or> install before_install False stage_dir backup_dir d1 = (r, d')
      \<or> install before_install True stage_dir backup_dir d2 = (r, d')"
    using assms unfolding staged_def q u by (cases q; cases u) (auto simp: u split: if_splits)
  then show ?thesis
    using s1 s2 disc install_except by (auto intro: steps_except_trans)
qed

lemma create_dir_Inr: "create_dir n d = (Inr u, d') \<Longrightarrow> entry n (profile d') = Some (Dir [])"
proof -
  assume "create_dir n d = (Inr u, d')"
  from syscall_Inr [OF this [unfolded create_dir_def]] show ?thesis
    by (cases "profile d"; cases "profile d'") (auto simp: within_def map_of_entries split: option.splits)
qed

lemma names_distinct:
  "stage_name s \<noteq> SSL_DIR_NAME" "backup_name s \<noteq> SSL_DIR_NAME" "stage_name s \<noteq> backup_name s"
  by (simp_all add: stage_name_def backup_name_def SSL_DIR_NAME_def)

definition new_material :: "32 word \<Rightarrow> string \<Rightarrow> string \<Rightarrow> node" where
  "new_material umask cert key =
     Dir [(CERT_FILE_NAME, material umask cert), (KEY_FILE_NAME, material umask key)]"

definition suffix_of :: "nat \<Rightarrow> disk \<Rightarrow> string" where
  "suffix_of pid d = unique_suffix pid (next_transaction d)"

text \<open>Before anything but the stage directory is touched, the old material is in place.\<close>

lemma stage_only:
  assumes "steps d d' (except {stage_dir} (profile d))" and "stage_dir \<noteq> SSL_DIR_NAME"
  shows "steps d d' (safe (entry SSL_DIR_NAME (profile d)) new b)"
    and "entry SSL_DIR_NAME (profile d') = entry SSL_DIR_NAME (profile d)"
proof -
  show "steps d d' (safe (entry SSL_DIR_NAME (profile d)) new b)"
    using assms(2) by (intro steps_mono [OF assms(1)]) (simp add: safe_def except_def)
  show "entry SSL_DIR_NAME (profile d') = entry SSL_DIR_NAME (profile d)"
    using steps_profile [OF assms(1)] assms(2) by (simp add: except_def)
qed

lemma outcome_old:
  "entry SSL_DIR_NAME q = old \<Longrightarrow> r = Inl e \<Longrightarrow> (\<And>a b c. e \<noteq> Rollback a b c) \<Longrightarrow> outcome r old new b q"
  by (cases e) (auto simp: outcome_def)

lemma write_material_error:
  "write_material_file umask dir n c d = (Inl e, d') \<Longrightarrow> e \<noteq> Rollback x y z"
  by (auto simp: write_material_file_def split: prod.splits sum.splits)

text \<open>The transaction up to the staged material: it stops with an error, or goes on with \<open>staged\<close>.\<close>

lemma save_phases:
  assumes "save_identity_transaction pid umask before_install cert key d = (r, d')"
  defines "stage_dir \<equiv> stage_name (suffix_of pid d)"
  obtains (stop) e where "r = Inl e" "\<And>x y z. e \<noteq> Rollback x y z"
      "steps d d' (except {stage_dir} (profile d))"
  | (go) d1 where "steps d d1 (except {stage_dir} (profile d))"
      "entry stage_dir (profile d1) = Some (new_material umask cert key)"
      "staged before_install stage_dir (backup_name (suffix_of pid d)) d1 = (r, d')"
proof -
  obtain r1 d1 where a: "create_dir_all d = (r1, d1)" by fastforce
  let ?d1 = "d1\<lparr>next_transaction := next_transaction d1 + 1\<rparr>"
  have next1: "next_transaction d1 = next_transaction d"
    using a unfolding create_dir_all_def by (rule syscall_next)
  have s1: "steps d d1 (except {stage_dir} (profile d))"
    by (rule steps_except_mono [OF create_dir_all_except [OF a]]) simp
  have "steps d1 ?d1 (except {stage_dir} (profile d1))" by (rule steps_refl) simp_all
  with s1 have s1': "steps d ?d1 (except {stage_dir} (profile d))" by (rule steps_except_trans)
  obtain r2 d2 where b: "create_dir stage_dir ?d1 = (r2, d2)" by fastforce
  obtain r3 d3 where c: "write_material_file umask stage_dir CERT_FILE_NAME cert d2 = (r3, d3)" by fastforce
  obtain r4 d4 where k: "write_material_file umask stage_dir KEY_FILE_NAME key d3 = (r4, d4)" by fastforce
  note s2 = steps_except_trans [OF s1' create_dir_except [OF b]]
  note s3 = steps_except_trans [OF s2 write_material_except [OF c]]
  note s4 = steps_except_trans [OF s3 write_material_except [OF k]]
  note disc = steps_except_trans [OF s3 discard_except] steps_except_trans [OF s4 discard_except]
  note unf = assms(1) [unfolded save_identity_transaction_def a Let_def]
  have sd: "stage_name (unique_suffix pid (next_transaction d1)) = stage_dir"
    by (simp add: stage_dir_def suffix_of_def next1)
  show thesis
  proof (cases r1)
    case (Inl e)
    with unf s1 show thesis by (intro stop) auto
  next
    case (Inr u)
    note unf = unf [unfolded Inr prod.case sum.case sd b]
    show thesis
    proof (cases r2)
      case (Inl e)
      with unf s2 show thesis by (intro stop) auto
    next
      case (Inr u)
      note unf = unf [unfolded Inr prod.case sum.case c]
      note stage2 = create_dir_Inr [OF b [unfolded Inr]]
      show thesis
      proof (cases r3)
        case (Inl e)
        with unf disc(1) write_material_error [OF c [unfolded Inl]] show thesis by (intro stop) auto
      next
        case (Inr u)
        note unf = unf [unfolded Inr prod.case sum.case k]
        obtain fs where "entry stage_dir (profile d2) = Some (Dir fs)"
          "entry stage_dir (profile d3) = Some (Dir (fs @ [(CERT_FILE_NAME, material umask cert)]))"
          using c Inr by (auto elim: write_material_Inr)
        with stage2 have stage3: "entry stage_dir (profile d3) = Some (Dir [(CERT_FILE_NAME, material umask cert)])"
          by simp
        show thesis
        proof (cases r4)
          case (Inl e)
          with unf disc(2) write_material_error [OF k [unfolded Inl]] show thesis by (intro stop) auto
        next
          case (Inr u)
          obtain fs where "entry stage_dir (profile d3) = Some (Dir fs)"
            "entry stage_dir (profile d4) = Some (Dir (fs @ [(KEY_FILE_NAME, material umask key)]))"
            using k Inr by (auto elim: write_material_Inr)
          with stage3 have "entry stage_dir (profile d4) = Some (new_material umask cert key)"
            by (simp add: new_material_def)
          with unf Inr s4 show thesis by (intro go) (auto simp: next1 suffix_of_def)
        qed
      qed
    qed
  qed
qed

lemma read_pems_returns:
  assumes "\<And>s c rest. pem s = Inr (c, rest) \<Longrightarrow> length rest < length s"
  shows "\<exists>r. read_pems pem cs data = Some r \<and> (\<forall>certs. r = Inr certs \<longrightarrow> length cs \<le> length certs)"
proof (induction "length data" arbitrary: cs data rule: less_induct)
  case less
  show ?case
  proof (cases "pem data")
    case (Inr b)
    obtain c rest where b: "b = (c, rest)" by (cases b) auto
    with Inr assms have "length rest < length data" by simp
    from less [OF this, of "cs @ [c]"] Inr b show ?thesis
      by (subst read_pems.simps) fastforce
  qed (subst read_pems.simps, simp)
qed

lemma new_material_read:
  assumes "entry SSL_DIR_NAME p = Some (new_material umask cert key)"
  shows "material_at other CERT_FILE_NAME p = (Inr (and MATERIAL_MODE (not umask)), Inr cert)"
    and "material_at other KEY_FILE_NAME p = (Inr (and MATERIAL_MODE (not umask)), Inr key)"
  using assms
  by (simp_all add: material_at_def new_material_def material_def CERT_FILE_NAME_def KEY_FILE_NAME_def)

lemma syscall_quiet:
  "script d = [] \<Longrightarrow>
     syscall f partial d = (fst (f (profile d)), log_state (d\<lparr>profile := snd (f (profile d)), script := []\<rparr>))"
  by (auto simp: syscall_def split: prod.splits)

lemma syscall_quiet_script: "script d = [] \<Longrightarrow> syscall f partial d = (r, d') \<Longrightarrow> script d' = []"
  by (auto simp: syscall_quiet log_state_def)

lemma quiet_call:
  assumes "script d = []" and "f (profile d) = (Inr x, p)"
  shows "syscall f partial d = (Inr x, log_state (d\<lparr>profile := p, script := []\<rparr>))"
  using assms by (simp add: syscall_quiet)

lemma quiet_create_dir_all:
  "script d = [] \<Longrightarrow> \<exists>d'. create_dir_all d = (Inr (), d') \<and> script d' = [] \<and> profile d' \<noteq> None"
  by (simp add: create_dir_all_def syscall_quiet log_state_def)

lemma quiet_create_dir:
  "script d = [] \<Longrightarrow> profile d \<noteq> None \<Longrightarrow> entry n (profile d) = None \<Longrightarrow>
     \<exists>d'. create_dir n d = (Inr (), d') \<and> script d' = []"
  by (cases "profile d") (simp_all add: create_dir_def syscall_quiet log_state_def within_def)

lemma quiet_in_dir:
  assumes "entry dir p = Some (Dir fs)" and "f fs = (Inr (), gs)"
  shows "\<exists>q. within (in_dir dir f) p = (Inr (), q) \<and> entry dir q = Some (Dir gs)"
  using assms by (cases p) (simp_all add: within_def in_dir_def map_of_entries)

lemma quiet_write:
  assumes "script d = []" and "entry dir (profile d) = Some (Dir fs)" and "map_of fs n = None"
  shows "\<exists>d'. write_material_file umask dir n c d = (Inr (), d') \<and> script d' = []"
proof -
  let ?f = "\<lambda>fs. case map_of fs n of Some _ \<Rightarrow> (Inl AlreadyExists, fs)
     | None \<Rightarrow> (Inr (), AList.update n (File (and MATERIAL_MODE (not umask)) []) fs)"
  obtain p where p: "within (in_dir dir ?f) (profile d) = (Inr (), p)"
    "entry dir p = Some (Dir (fs @ [(n, material umask [])]))"
    using quiet_in_dir [OF assms(2), of ?f] assms(3) by (auto simp: update_new material_def)
  obtain d1 where d1: "open_new umask dir n MATERIAL_MODE d = (Inr (), d1)" "script d1 = []" "profile d1 = p"
    using quiet_call [where f = "within (in_dir dir ?f)", OF assms(1) p(1)]
    by (simp add: open_new_def log_state_def)
  obtain q where q: "within (in_dir dir (append_file n c)) (profile d1) = (Inr (), q)"
    using quiet_in_dir [OF p(2), of "append_file n c"] assms(3) d1(3)
    by (auto simp: append_file_def material_def map_add_def)
  obtain d2 where d2: "write_all dir n c d1 = (Inr (), d2)" "script d2 = []"
    using quiet_call [where f = "within (in_dir dir (append_file n c))", OF d1(2) q] by (simp add: write_all_def log_state_def)
  obtain d3 where d3: "flush_file d2 = (Inr (), d3)" "script d3 = []"
    using d2 by (simp add: flush_file_def syscall_quiet log_state_def)
  obtain d4 where d4: "flush_file d3 = (Inr (), d4)" "script d4 = []"
    using d3 by (simp add: flush_file_def syscall_quiet log_state_def)
  show ?thesis using d1 d2 d3 d4 by (simp add: write_material_file_def)
qed

lemma quiet_rename:
  assumes "script d = []" and "entry a (profile d) = Some x" and "entry b (profile d) = None"
  shows "\<exists>d'. rename a b d = (Inr (), d') \<and> script d' = []"
  using assms
  by (cases "profile d")
     (simp_all add: rename_def syscall_quiet log_state_def within_def rename_entry_def Let_def
       split: node.splits)

lemma quiet_install:
  assumes "script d = []" and "entry s (profile d) = Some x" and "entry SSL_DIR_NAME (profile d) = None"
    and "s \<noteq> SSL_DIR_NAME" "b \<noteq> s"
  shows "\<exists>d'. install (Inr ()) had s b d = (Inr (), d') \<and> entry s (profile d') = None"
proof -
  obtain d1 where d1: "rename s SSL_DIR_NAME d = (Inr (), d1)"
    using quiet_rename [OF assms(1,2,3)] by blast
  have "entry s (profile d1) = None" using assms(4) by (rule rename_Inr [OF d1]) simp
  with d1 assms(5) show ?thesis by (simp add: install_def discard_other)
qed

lemma quiet_staged:
  assumes "script d = []" and "entry s (profile d) = Some x" and "entry b (profile d) = None"
    and "s \<noteq> SSL_DIR_NAME" "b \<noteq> s" "b \<noteq> SSL_DIR_NAME"
  shows "\<exists>d'. staged (Inr ()) s b d = (Inr (), d') \<and> entry s (profile d') = None"
proof -
  obtain q d1 where q: "symlink_metadata SSL_DIR_NAME d = (q, d1)" by fastforce
  have d1: "profile d1 = profile d" "script d1 = []" "q = ok_or NotFoundKind (entry SSL_DIR_NAME (profile d))"
    using q assms(1) by (auto simp: symlink_metadata_def syscall_quiet within_lookup log_state_def)
  show ?thesis
  proof (cases "entry SSL_DIR_NAME (profile d)")
    case None
    with quiet_install [of d1 s x b False] assms d1 q show ?thesis by (simp add: staged_def)
  next
    case (Some y)
    obtain d2 where d2: "rename SSL_DIR_NAME b d1 = (Inr (), d2)" "script d2 = []"
      using quiet_rename [of d1 SSL_DIR_NAME y b] Some assms d1 by auto
    obtain z where z: "entry SSL_DIR_NAME (profile d2) = None" "except {SSL_DIR_NAME, b} (profile d1) (profile d2)"
      using assms(6) by (metis rename_Inr [OF d2(1)])
    then have "entry s (profile d2) = Some x" using assms d1 by (simp add: except_def)
    from quiet_install [OF d2(2) this z(1) assms(4,5)] show ?thesis
      using q d1(3) Some d2(1) by (simp add: staged_def)
  qed
qed

lemma mode_unmasked:
  assumes "and umask MATERIAL_MODE = 0"
  shows "and (and MATERIAL_MODE (not umask)) 0x1FF = MATERIAL_MODE"
proof -
  have "and MATERIAL_MODE (not umask) = MATERIAL_MODE"
    using assms by (auto simp: bit_eq_iff bit_simps)
  then show ?thesis by (simp add: MATERIAL_MODE_def)
qed

section \<open>Properties\<close>

text \<open>C11: Saving an identity is atomic whatever call fails: on success the \<open>ssl\<close> directory holds exactly
  the new certificate and key, on every error it is as it was before, save where even the roll-back
  failed and the old material is in the backup directory; and in every state between two calls the
  old or the new material is complete in \<open>ssl\<close>, or the old is in the backup directory, and no other
  entry of the profile is touched.\<close>
theorem save_identity_atomic:
  assumes "save_identity_transaction pid umask before_install cert key d = (r, d')"
  shows "outcome r (entry SSL_DIR_NAME (profile d)) (new_material umask cert key)
      (backup_name (suffix_of pid d)) (profile d')
    \<and> steps d d' (safe (entry SSL_DIR_NAME (profile d)) (new_material umask cert key)
        (backup_name (suffix_of pid d)))
    \<and> steps d d' (except {SSL_DIR_NAME, stage_name (suffix_of pid d), backup_name (suffix_of pid d)}
        (profile d))"
  using assms
proof (cases rule: save_phases)
  case (stop e)
  note only = stage_only [OF stop(3) names_distinct(1)]
  from only(2) have "outcome r (entry SSL_DIR_NAME (profile d)) (new_material umask cert key)
      (backup_name (suffix_of pid d)) (profile d')"
    by (rule outcome_old [OF _ stop(1,2)])
  with only(1) stop(3) show ?thesis by (auto elim: steps_except_mono)
next
  case (go d1)
  note only = stage_only [OF go(1) names_distinct(1)]
  note safe = staged_safe [OF names_distinct go(3,2) only(2) [symmetric]]
  have "steps d d1 (except {SSL_DIR_NAME, stage_name (suffix_of pid d), backup_name (suffix_of pid d)}
      (profile d))"
    by (rule steps_except_mono [OF go(1)]) simp
  with safe only(1) staged_except [OF go(3)] show ?thesis
    by (blast intro: steps_trans steps_except_trans)
qed

definition example_disk :: disk where
  "example_disk = \<lparr>profile = Some [(''ssl'', Dir [(''old'', File 0x100 ''x'')])],
     script = [None, None, None, None, None, None, None, None, None, None, None, None, Some (Fault 5 0)],
     history = [], next_transaction = 0\<rparr>"

lemma save_identity_atomic_witness:
  "entry ''ssl'' (profile (snd (save_identity_transaction 7 0 (Inr ()) ''c'' ''k'' example_disk)))
     = Some (Dir [(''old'', File 0x100 ''x'')])"
proof -
  let ?t = "save_identity_transaction 7 0 (Inr ()) ''c'' ''k'' example_disk"
  have "fst ?t = Inl (Commit ''ssl'' (OtherIo 5))" by code_simp
  moreover have "?t = (fst ?t, snd ?t)" by simp
  note save_identity_atomic [OF this]
  ultimately show ?thesis by (simp add: outcome_def SSL_DIR_NAME_def) (simp add: example_disk_def)
qed

text \<open>Without a failing call, and with no left-over directory of the same transaction, saving an
  identity succeeds and leaves no stage directory behind.\<close>
theorem save_identity_succeeds:
  assumes "script d = []"
    and "entry (stage_name (suffix_of pid d)) (profile d) = None"
    and "entry (backup_name (suffix_of pid d)) (profile d) = None"
  shows "\<exists>d'. save_identity pid umask cert key d = (Inr (), d')
    \<and> entry (stage_name (suffix_of pid d)) (profile d') = None"
proof -
  let ?s = "stage_name (suffix_of pid d)" and ?b = "backup_name (suffix_of pid d)"
  obtain d1 where d1: "create_dir_all d = (Inr (), d1)" "script d1 = []" "profile d1 \<noteq> None"
    using quiet_create_dir_all [OF assms(1)] by blast
  have next1: "next_transaction d1 = next_transaction d"
    using d1(1) unfolding create_dir_all_def by (rule syscall_next)
  have same: "entry n (profile d1) = entry n (profile d)" for n
    using steps_profile [OF create_dir_all_except [OF d1(1)]] by (simp add: except_def)
  let ?d1 = "d1\<lparr>next_transaction := next_transaction d1 + 1\<rparr>"
  obtain d2 where d2: "create_dir ?s ?d1 = (Inr (), d2)" "script d2 = []"
    using quiet_create_dir [of ?d1 ?s] d1 assms(2) by (auto simp: same)
  note e2 = create_dir_Inr [OF d2(1)]
  obtain d3 where d3: "write_material_file umask ?s CERT_FILE_NAME cert d2 = (Inr (), d3)" "script d3 = []"
    using quiet_write [OF d2(2) e2, of CERT_FILE_NAME] by auto
  obtain fs where "entry ?s (profile d2) = Some (Dir fs)"
    "entry ?s (profile d3) = Some (Dir (fs @ [(CERT_FILE_NAME, material umask cert)]))"
    by (rule write_material_Inr [OF d3(1)])
  with e2 have e3: "entry ?s (profile d3) = Some (Dir [(CERT_FILE_NAME, material umask cert)])" by simp
  obtain d4 where d4: "write_material_file umask ?s KEY_FILE_NAME key d3 = (Inr (), d4)" "script d4 = []"
    using quiet_write [OF d3(2) e3, of KEY_FILE_NAME] by (auto simp: CERT_FILE_NAME_def KEY_FILE_NAME_def)
  obtain gs where e4: "entry ?s (profile d4) = Some (Dir gs)"
    using write_material_Inr [OF d4(1)] by blast
  have "except {?s} (profile d1) (profile d4)"
    using steps_profile [OF create_dir_except [OF d2(1)]]
      steps_profile [OF write_material_except [OF d3(1)]]
      steps_profile [OF write_material_except [OF d4(1)]] by (auto simp: except_def)
  then have "entry ?b (profile d4) = None"
    using assms(3) names_distinct(3) [of "suffix_of pid d", symmetric] by (simp add: except_def same)
  from quiet_staged [OF d4(2) e4 this] names_distinct obtain d' where
    "staged (Inr ()) ?s ?b d4 = (Inr (), d')" "entry ?s (profile d') = None" by metis
  then show ?thesis
    using d1(1) d2(1) d3(1) d4(1)
    by (simp add: save_identity_def save_identity_transaction_def Let_def next1 suffix_of_def)
qed

lemma save_identity_succeeds_witness:
  "\<exists>d'. save_identity 7 0 ''c'' ''k'' (example_disk\<lparr>script := []\<rparr>) = (Inr (), d')"
proof -
  let ?d = "example_disk\<lparr>script := []\<rparr>"
  have "entry (stage_name (suffix_of 7 ?d)) (profile ?d) = None"
    "entry (backup_name (suffix_of 7 ?d)) (profile ?d) = None"
    by (simp_all add: example_disk_def stage_name_def backup_name_def)
  from save_identity_succeeds [OF _ this, of 0 "''c''" "''k''"] show ?thesis by auto
qed

text \<open>An identity that was saved with success can be loaded: the chain is that of the saved
  certificate text, the key that of the saved key text, and the mode of the key file passes the
  permission check, unless the process mask denies the owner to read.\<close>
theorem saved_identity_loads:
  assumes "save_identity pid umask cert key d = (Inr u, d')" and "and umask MATERIAL_MODE = 0"
  shows "load_identity other pem from_pem_slice dhttp_name name (profile d') =
    map_option (\<lambda>certs.
       and_then (map_err LoadCerts certs) (\<lambda>certs.
       and_then (map_err LoadKey (ok_or KeyParse (from_pem_slice key))) (\<lambda>k.
       and_then (ok_or LoadInvalidName (dhttp_name name)) (\<lambda>n.
         Inr \<lparr>identity_name = n, identity_certs = certs, identity_key = k\<rparr>))))
     (parse_chain pem cert)"
proof -
  have "entry SSL_DIR_NAME (profile d') = Some (new_material umask cert key)"
    using save_identity_atomic [OF assms(1) [unfolded save_identity_def]] by (simp add: outcome_def)
  moreover have "and (and MATERIAL_MODE (not umask)) 0x1FF = MATERIAL_MODE"
    by (rule mode_unmasked [OF assms(2)])
  ultimately show ?thesis
    by (simp add: load_identity_def load_certs_def load_key_def new_material_read Let_def)
qed

lemma saved_identity_loads_witness:
  "load_identity (\<lambda>_. undefined) (\<lambda>s. if s = ''c'' then Inr (''c'', []) else Inl MissingHeader) Some Some ''n''
     (profile (snd (save_identity 7 0 ''c'' ''k'' (example_disk\<lparr>script := []\<rparr>))))
   = Some (Inr \<lparr>identity_name = ''n'', identity_certs = [''c''], identity_key = ''k''\<rparr>)"
proof -
  let ?s = "save_identity 7 0 ''c'' ''k'' (example_disk\<lparr>script := []\<rparr>)"
  have "fst ?s = Inr ()" by code_simp
  then have "?s = (Inr (), snd ?s)" by (metis prod.collapse)
  then have "load_identity oth pem f g n (profile (snd ?s)) = map_option (\<lambda>certs.
       and_then (map_err LoadCerts certs) (\<lambda>certs.
       and_then (map_err LoadKey (ok_or KeyParse (f ''k''))) (\<lambda>k.
       and_then (ok_or LoadInvalidName (g n)) (\<lambda>n.
         Inr \<lparr>identity_name = n, identity_certs = certs, identity_key = k\<rparr>))))
     (parse_chain pem ''c'')" for oth pem and f :: "string \<Rightarrow> string option" and g :: "string \<Rightarrow> string option" and n
    by (rule saved_identity_loads) simp
  moreover have "parse_chain (\<lambda>s. if s = ''c'' then Inr (''c'', []) else Inl MissingHeader) ''c''
      = Some (Inr [''c''])"
    by (simp add: parse_chain_def) (subst read_pems.simps, simp)
  ultimately show ?thesis by simp
qed

text \<open>C39: Loading a certificate chain returns, whatever the file holds, if every block the decoder reads
  takes at least a byte; a chain that loads is not empty.\<close>
theorem load_certs_returns:
  assumes "\<And>s c rest. pem s = Inr (c, rest) \<Longrightarrow> length rest < length s"
  shows "\<exists>r. load_certs other pem p = Some r \<and> r \<noteq> Inr []"
proof (cases "snd (material_at other CERT_FILE_NAME p)")
  case (Inr data)
  show ?thesis
  proof (cases "pem data")
    case (Inr b)
    have "\<exists>r. read_pems pem [fst b] (snd b) = Some r
        \<and> (\<forall>certs. r = Inr certs \<longrightarrow> length [fst b] \<le> length certs)"
      by (rule read_pems_returns) (rule assms)
    then obtain r where "read_pems pem [fst b] (snd b) = Some r"
      "\<forall>certs. r = Inr certs \<longrightarrow> length [fst b] \<le> length certs" by blast
    moreover from this have "r \<noteq> Inr []" by fastforce
    ultimately show ?thesis
      using Inr \<open>snd (material_at other CERT_FILE_NAME p) = Inr data\<close>
      by (simp add: load_certs_def parse_chain_def)
  qed (use Inr in \<open>simp add: load_certs_def parse_chain_def\<close>)
qed (simp add: load_certs_def)

lemma load_certs_returns_witness:
  "\<exists>r. load_certs (\<lambda>_. (Inr 0, Inr ''ab'')) (\<lambda>s. case s of [] \<Rightarrow> Inl MissingHeader | c # t \<Rightarrow> Inr ([c], t))
     (Some [(''ssl'', Link)]) = Some r \<and> r \<noteq> Inr []"
  by (rule load_certs_returns) (auto split: list.splits)

end
