(* ===== verification/Records.thy ===== *)
theory Records
  imports Prelude
begin

text \<open>
  The crate \<open>dhttp-log\<close>, files \<open>log/src/record.rs\<close> and \<open>log/src/compact.rs\<close>: the bounded builder of one
  physical log record, the two presentations of an element (plain and quoted), and the elements of
  the compact convention.  A builder is the bytes it holds; an operation that fails is not followed
  by another on the same builder, so its result is the error or the new builder.  An element is the
  function of the trait \<open>FormatElement\<close> for one value; its contract is the locale
  \<open>format_element\<close>.
\<close>

section \<open>The record builder\<close>

definition MAX_RECORD_LEN :: nat where
  "MAX_RECORD_LEN = 64 * 1024"

datatype http_version = HTTP_09 | HTTP_10 | HTTP_11 | HTTP_2 | HTTP_3 | OtherVersion nat

datatype format_error = NestedQuoted | CarriageReturn | LineFeed | InvalidByte char
  | UnsupportedHttpVersion http_version | TooLong nat

datatype formatted_record = FormattedRecord (as_bytes: string)

definition is_ascii_control :: "char \<Rightarrow> bool" where
  "is_ascii_control c \<longleftrightarrow> code c < 32 \<or> code c = 127"

definition is_ascii :: "char \<Rightarrow> bool" where
  "is_ascii c \<longleftrightarrow> code c < 128"

definition is_record_content_byte :: "char \<Rightarrow> bool" where
  "is_record_content_byte c \<longleftrightarrow> is_ascii c \<and> \<not> is_ascii_control c"

definition reject_record_delimiter :: "char \<Rightarrow> format_error + unit" where
  "reject_record_delimiter c =
     (if c = CHR 0x0D then Inl CarriageReturn else if c = CHR 0x0A then Inl LineFeed else Inr ())"

text \<open>\<open>usize::checked_add\<close> on a 64-bit target\<close>

definition checked_add :: "nat \<Rightarrow> nat \<Rightarrow> nat option" where
  "checked_add a b = (if a + b < 2 ^ 64 then Some (a + b) else None)"

definition ensure_fits :: "string \<Rightarrow> nat \<Rightarrow> format_error + unit" where
  "ensure_fits bytes additional =
     (case checked_add (length bytes) additional of
        None \<Rightarrow> Inl (TooLong MAX_RECORD_LEN)
      | Some len \<Rightarrow> if MAX_RECORD_LEN \<le> len then Inl (TooLong MAX_RECORD_LEN) else Inr ())"

fun check_bytes :: "string \<Rightarrow> format_error + unit" where
  "check_bytes [] = Inr ()"
| "check_bytes (c # s) =
     and_then (reject_record_delimiter c) (\<lambda>_.
       if \<not> is_record_content_byte c then Inl (InvalidByte c) else check_bytes s)"

definition append_plain :: "string \<Rightarrow> string \<Rightarrow> format_error + string" where
  "append_plain value_bytes bytes =
     and_then (check_bytes value_bytes) (\<lambda>_.
     and_then (ensure_fits bytes (length value_bytes)) (\<lambda>_. Inr (bytes @ value_bytes)))"

definition literal :: "string \<Rightarrow> string \<Rightarrow> format_error + string" where
  "literal value_bytes bytes =
     and_then (check_bytes value_bytes) (\<lambda>_.
     and_then (ensure_fits bytes (length value_bytes)) (\<lambda>_. Inr (bytes @ value_bytes)))"

text \<open>A nibble is below 16, so the third arm of the source is not reached.\<close>

definition hex_digit :: "nat \<Rightarrow> char" where
  "hex_digit v = (if v \<le> 9 then char_of (48 + v) else char_of (97 + v - 10))"

definition encoded_len :: "char \<Rightarrow> nat" where
  "encoded_len c =
     (if c = CHR 0x22 \<or> c = CHR 0x5C then 2
      else if is_ascii_control c \<or> \<not> is_ascii c then 4 else 1)"

fun encoded_total :: "nat \<Rightarrow> string \<Rightarrow> format_error + nat" where
  "encoded_total n [] = Inr n"
| "encoded_total n (c # s) =
     and_then (ok_or (TooLong MAX_RECORD_LEN) (checked_add n (encoded_len c))) (\<lambda>n. encoded_total n s)"

definition escape :: "char \<Rightarrow> string" where
  "escape c =
     (if c = CHR 0x22 then [CHR 0x5C, CHR 0x22]
      else if c = CHR 0x5C then [CHR 0x5C, CHR 0x5C]
      else if is_ascii_control c \<or> \<not> is_ascii c
      then [CHR 0x5C, CHR ''x'', hex_digit (code c div 16), hex_digit (code c mod 16)]
      else [c])"

definition append_quoted :: "string \<Rightarrow> string \<Rightarrow> format_error + string" where
  "append_quoted value_bytes bytes =
     and_then (encoded_total 0 value_bytes) (\<lambda>additional.
     and_then (ensure_fits bytes additional) (\<lambda>_.
       Inr (bytes @ concat (map escape value_bytes))))"

definition append_quote_delimiter :: "string \<Rightarrow> format_error + string" where
  "append_quote_delimiter bytes = and_then (ensure_fits bytes 1) (\<lambda>_. Inr (bytes @ [CHR 0x22]))"

definition finish :: "string \<Rightarrow> format_error + formatted_record" where
  "finish bytes = and_then (ensure_fits bytes 0) (\<lambda>_. Inr (FormattedRecord (bytes @ [CHR 0x0A])))"

section \<open>Elements\<close>

datatype presentation_mode = Plain | Quoted

type_synonym element = "presentation_mode \<Rightarrow> string \<Rightarrow> format_error + string"

definition write_bytes :: "string \<Rightarrow> element" where
  "write_bytes value_bytes mode bytes =
     (case mode of Plain \<Rightarrow> append_plain value_bytes bytes | Quoted \<Rightarrow> append_quoted value_bytes bytes)"

definition quoted_element :: "element \<Rightarrow> element" where
  "quoted_element e mode bytes =
     (if mode = Quoted then Inl NestedQuoted
      else
        and_then (append_quote_delimiter bytes) (\<lambda>bytes.
        and_then (e Quoted bytes) (\<lambda>bytes. append_quote_delimiter bytes)))"

definition optional :: "element option \<Rightarrow> element" where
  "optional e = (case e of Some e \<Rightarrow> e | None \<Rightarrow> write_bytes ''-'')"

definition builder_element :: "element \<Rightarrow> string \<Rightarrow> format_error + string" where
  "builder_element e bytes = e Plain bytes"

text \<open>The time format of \<open>chrono\<close> is the parameter \<open>clf\<close>.\<close>

definition clf_timestamp :: "('t \<Rightarrow> string) \<Rightarrow> 't \<Rightarrow> element" where
  "clf_timestamp clf t = write_bytes (clf t)"

definition decimal :: "nat \<Rightarrow> element" where
  "decimal n = write_bytes (show_nat n)"

text \<open>The literals and elements of one record, in order.\<close>

datatype piece = Lit string | Elt element

fun build :: "piece list \<Rightarrow> string \<Rightarrow> format_error + string" where
  "build [] bytes = Inr bytes"
| "build (Lit s # ps) bytes = and_then (literal s bytes) (build ps)"
| "build (Elt e # ps) bytes = and_then (builder_element e bytes) (build ps)"

section \<open>Facts\<close>

definition builder_ok :: "string \<Rightarrow> bool" where
  "builder_ok bytes \<longleftrightarrow> list_all is_record_content_byte bytes \<and> length bytes < MAX_RECORD_LEN"

definition record_ok :: "string \<Rightarrow> bool" where
  "record_ok s \<longleftrightarrow> (\<exists>body. s = body @ [CHR 0x0A] \<and> list_all is_record_content_byte body)
     \<and> length s \<le> MAX_RECORD_LEN"

lemma ensure_fits_Inr: "ensure_fits bytes n = Inr u \<longleftrightarrow> length bytes + n < MAX_RECORD_LEN"
  by (auto simp: ensure_fits_def checked_add_def MAX_RECORD_LEN_def)

lemma content_byte_code: "is_record_content_byte c \<longleftrightarrow> 32 \<le> code c \<and> code c \<le> 126"
  by (auto simp: is_record_content_byte_def is_ascii_def is_ascii_control_def)

lemma check_bytes_Inr: "check_bytes s = Inr u \<longleftrightarrow> list_all is_record_content_byte s"
proof (induction s)
  case (Cons c s)
  have "is_record_content_byte c \<Longrightarrow> reject_record_delimiter c = Inr ()"
    by (auto simp: reject_record_delimiter_def content_byte_code code_def)
  with Cons show ?case by (auto simp: and_then_eq_Inr)
qed simp

lemma append_plain_Inr:
  "append_plain s b = Inr b' \<longleftrightarrow>
     list_all is_record_content_byte s \<and> length b + length s < MAX_RECORD_LEN \<and> b' = b @ s"
  by (auto simp: append_plain_def and_then_eq_Inr check_bytes_Inr ensure_fits_Inr)

lemma literal_Inr:
  "literal s b = Inr b' \<longleftrightarrow>
     list_all is_record_content_byte s \<and> length b + length s < MAX_RECORD_LEN \<and> b' = b @ s"
  by (auto simp: literal_def and_then_eq_Inr check_bytes_Inr ensure_fits_Inr)

lemma length_escape: "length (escape c) = encoded_len c"
  by (simp add: escape_def encoded_len_def)

lemma encoded_total_Inr:
  "n < 2 ^ 64 \<Longrightarrow> encoded_total n s = Inr m \<longleftrightarrow> m = n + length (concat (map escape s)) \<and> m < 2 ^ 64"
proof (induction s arbitrary: n)
  case (Cons c s)
  show ?case
  proof (cases "n + encoded_len c < 2 ^ 64")
    case True
    with Cons.IH [OF this] show ?thesis by (simp add: checked_add_def length_escape add.assoc)
  qed (auto simp: checked_add_def length_escape)
qed auto

lemma append_quoted_Inr:
  "append_quoted s b = Inr b' \<longleftrightarrow>
     length b + length (concat (map escape s)) < MAX_RECORD_LEN \<and> b' = b @ concat (map escape s)"
  by (auto simp: append_quoted_def and_then_eq_Inr encoded_total_Inr ensure_fits_Inr MAX_RECORD_LEN_def)

lemma builder_append_ok:
  "list_all is_record_content_byte s \<Longrightarrow> length b + length s < MAX_RECORD_LEN \<Longrightarrow> append_plain s b = Inr (b @ s)"
  "list_all is_record_content_byte s \<Longrightarrow> length b + length s < MAX_RECORD_LEN \<Longrightarrow> literal s b = Inr (b @ s)"
  "length b + length (concat (map escape s)) < MAX_RECORD_LEN
     \<Longrightarrow> append_quoted s b = Inr (b @ concat (map escape s))"
  "length b + 1 < MAX_RECORD_LEN \<Longrightarrow> append_quote_delimiter b = Inr (b @ [CHR 0x22])"
  "length b < MAX_RECORD_LEN \<Longrightarrow> finish b = Inr (FormattedRecord (b @ [CHR 0x0A]))"
  by (simp_all add: append_plain_Inr literal_Inr append_quoted_Inr append_quote_delimiter_def finish_def
      and_then_eq_Inr ensure_fits_Inr)

lemma hex_digit_code: "v < 16 \<Longrightarrow> code (hex_digit v) = (if v \<le> 9 then 48 + v else 87 + v)"
  by (auto simp: hex_digit_def code_char_of)

lemma code_less_256: "code c < 256"
  by (simp add: code_def)

lemma hex_content: "v < 16 \<Longrightarrow> is_record_content_byte (hex_digit v)"
  by (auto simp: content_byte_code hex_digit_code)

lemma escape_content: "list_all is_record_content_byte (escape c)"
proof -
  have "code c div 16 < 16" using code_less_256 [of c] by simp
  then show ?thesis
    by (auto simp: escape_def hex_content) (auto simp: content_byte_code is_ascii_def is_ascii_control_def code_def)
qed

lemma escape_text_content: "list_all is_record_content_byte (concat (map escape s))"
  by (induction s) (simp_all add: escape_content)

section \<open>The contract of an element\<close>

text \<open>
  Every element only appends, keeps the builder within the limit and free of delimiters.  An element
  with a text writes that text, checked in the plain mode and escaped in the quoted mode.
\<close>

locale format_element =
  fixes e :: element
  assumes appends: "e mode b = Inr b' \<Longrightarrow>
    \<exists>s. b' = b @ s \<and> list_all is_record_content_byte s \<and> length b' < MAX_RECORD_LEN"
begin

lemma builder_kept: "e mode b = Inr b' \<Longrightarrow> builder_ok b \<Longrightarrow> builder_ok b'"
  by (auto simp: builder_ok_def dest!: appends)

end

locale text_element =
  fixes e :: element and raw :: string
  assumes plain: "e Plain b = Inr b' \<Longrightarrow>
      b' = b @ raw \<and> list_all is_record_content_byte raw \<and> length b' < MAX_RECORD_LEN"
    and quoted_mode: "e Quoted b = Inr b' \<Longrightarrow>
      b' = b @ concat (map escape raw) \<and> length b' < MAX_RECORD_LEN"
begin

lemma text_appends: "e mode b = Inr b' \<Longrightarrow>
    \<exists>s. b' = b @ s \<and> list_all is_record_content_byte s \<and> length b' < MAX_RECORD_LEN"
  by (cases mode) (auto dest!: plain quoted_mode simp: escape_text_content)

lemma quoted_result: "quoted_element e mode b = Inr b' \<Longrightarrow>
    b' = b @ CHR 0x22 # concat (map escape raw) @ [CHR 0x22] \<and> length b' < MAX_RECORD_LEN"
  by (auto simp: quoted_element_def append_quote_delimiter_def and_then_eq_Inr ensure_fits_Inr
      split: if_splits dest!: quoted_mode)

lemma quoted_appends: "quoted_element e mode b = Inr b' \<Longrightarrow>
    \<exists>s. b' = b @ s \<and> list_all is_record_content_byte s \<and> length b' < MAX_RECORD_LEN"
  by (auto dest!: quoted_result simp: escape_text_content) (simp add: content_byte_code code_def)

end

sublocale text_element \<subseteq> format_element e
  by unfold_locales (rule text_appends)

sublocale text_element \<subseteq> in_quotes: format_element "quoted_element e"
  by unfold_locales (rule quoted_appends)

interpretation bytes_element: text_element "write_bytes s" s
  by unfold_locales (auto simp: write_bytes_def append_plain_Inr append_quoted_Inr)

interpretation decimal_element: text_element "decimal n" "show_nat n"
  unfolding decimal_def by unfold_locales (auto dest: bytes_element.plain bytes_element.quoted_mode)

interpretation clf_element: text_element "clf_timestamp clf t" "clf t"
  unfolding clf_timestamp_def by unfold_locales (auto dest: bytes_element.plain bytes_element.quoted_mode)

definition optional_text :: "string option \<Rightarrow> string" where
  "optional_text v = (case v of None \<Rightarrow> ''-'' | Some s \<Rightarrow> s)"

interpretation optional_element: text_element "optional (map_option write_bytes v)" "optional_text v"
  by unfold_locales
     (cases v; auto simp: optional_def optional_text_def dest: bytes_element.plain bytes_element.quoted_mode)+

section \<open>Records\<close>

text \<open>A piece is sound if it is a literal or its element keeps the contract.\<close>

definition piece_ok :: "piece \<Rightarrow> bool" where
  "piece_ok p = (case p of Lit _ \<Rightarrow> True | Elt e \<Rightarrow> format_element e)"

lemma build_ok: "build ps b = Inr b' \<Longrightarrow> list_all piece_ok ps \<Longrightarrow> builder_ok b \<Longrightarrow> builder_ok b'"
proof (induction ps b rule: build.induct)
  case (2 s ps b)
  then show ?case by (fastforce simp: and_then_eq_Inr literal_Inr builder_ok_def)
next
  case (3 e ps b)
  then show ?case
    by (auto simp: and_then_eq_Inr builder_element_def piece_ok_def dest: format_element.builder_kept)
qed simp

lemma finish_ok: "finish b = Inr r \<Longrightarrow> builder_ok b \<Longrightarrow> record_ok (as_bytes r)"
  by (auto simp: finish_def and_then_eq_Inr ensure_fits_Inr builder_ok_def record_ok_def)

lemma build_record_ok:
  "build ps [] = Inr b \<Longrightarrow> finish b = Inr r \<Longrightarrow> list_all piece_ok ps \<Longrightarrow> record_ok (as_bytes r)"
  by (rule finish_ok, assumption, rule build_ok, assumption+) (simp add: builder_ok_def MAX_RECORD_LEN_def)

section \<open>Reading a record back\<close>

text \<open>
  The reader of a log line: a field is quoted with escapes, in square brackets, or free of spaces;
  one space separates two fields.
\<close>

definition hex_value :: "char \<Rightarrow> nat" where
  "hex_value c = (if code c \<le> 57 then code c - 48 else code c - 87)"

fun unquote :: "string \<Rightarrow> (string \<times> string) option" where
  "unquote [] = None"
| "unquote (c # s) =
     (if c = CHR 0x22 then Some ([], s)
      else if c \<noteq> CHR 0x5C then map_option (\<lambda>(t, rest). (c # t, rest)) (unquote s)
      else
        (case s of
           [] \<Rightarrow> None
         | a # s \<Rightarrow>
             if a \<noteq> CHR ''x'' then map_option (\<lambda>(t, rest). (a # t, rest)) (unquote s)
             else
               (case s of
                  b # d # s \<Rightarrow>
                    map_option (\<lambda>(t, rest). (char_of (16 * hex_value b + hex_value d) # t, rest)) (unquote s)
                | _ \<Rightarrow> None)))"

definition read_field :: "string \<Rightarrow> (string \<times> string) option" where
  "read_field s =
     (case s of
        [] \<Rightarrow> None
      | c # t \<Rightarrow>
          if c = CHR 0x22 then unquote t
          else if c = CHR ''['' then
            (case split_once CHR '']'' s of None \<Rightarrow> None | Some (a, b) \<Rightarrow> Some (a @ '']'', b))
          else Some (takeWhile (\<lambda>c. c \<noteq> CHR '' '') s, dropWhile (\<lambda>c. c \<noteq> CHR '' '') s))"

fun read_fields :: "nat \<Rightarrow> string \<Rightarrow> string list option" where
  "read_fields 0 s = None"
| "read_fields (Suc n) s =
     (case read_field s of
        None \<Rightarrow> None
      | Some (f, rest) \<Rightarrow>
          (case rest of
             [] \<Rightarrow> if n = 0 then Some [f] else None
           | c # rest \<Rightarrow> if c = CHR '' '' then map_option (\<lambda>fs. f # fs) (read_fields n rest) else None))"

lemma hex_value_digit: "v < 16 \<Longrightarrow> hex_value (hex_digit v) = v"
  by (auto simp: hex_value_def hex_digit_code)

lemma unquote_escape: "unquote (concat (map escape s) @ CHR 0x22 # rest) = Some (s, rest)"
proof (induction s)
  case (Cons c s)
  let ?t = "concat (map escape s) @ CHR 0x22 # rest"
  consider (quote) "c = CHR 0x22" | (slash) "c = CHR 0x5C"
    | (hex) "c \<noteq> CHR 0x22" "c \<noteq> CHR 0x5C" "is_ascii_control c \<or> \<not> is_ascii c"
    | (plain) "c \<noteq> CHR 0x22" "c \<noteq> CHR 0x5C" "\<not> (is_ascii_control c \<or> \<not> is_ascii c)" by blast
  then show ?case
  proof cases
    case hex
    have "code c div 16 < 16" using code_less_256 [of c] by simp
    moreover have "char_of (16 * (code c div 16) + code c mod 16) = c" by (simp add: code_def)
    ultimately show ?thesis using Cons hex by (simp add: escape_def hex_value_digit)
  next
    case quote
    with Cons show ?thesis by (simp add: escape_def)
  next
    case slash
    with Cons show ?thesis by (simp add: escape_def)
  qed (use Cons in \<open>simp_all add: escape_def\<close>)
qed simp

definition quoted_text :: "string \<Rightarrow> string" where
  "quoted_text s = CHR 0x22 # concat (map escape s) @ [CHR 0x22]"

definition word_text :: "string \<Rightarrow> bool" where
  "word_text w \<longleftrightarrow> w \<noteq> [] \<and> CHR '' '' \<notin> set w \<and> hd w \<noteq> CHR 0x22 \<and> hd w \<noteq> CHR ''[''"

definition bracket_text :: "string \<Rightarrow> bool" where
  "bracket_text s \<longleftrightarrow> (\<exists>x. s = CHR ''['' # x @ [CHR '']''] \<and> CHR '']'' \<notin> set x)"

lemma read_quoted: "read_field (quoted_text s @ rest) = Some (s, rest)"
  by (simp add: read_field_def quoted_text_def unquote_escape)

lemma read_word:
  assumes "word_text w" and "rest = [] \<or> hd rest = CHR '' ''"
  shows "read_field (w @ rest) = Some (w, rest)"
proof -
  obtain c t where w: "w = c # t" using assms(1) by (cases w) (auto simp: word_text_def)
  have "takeWhile (\<lambda>c. c \<noteq> CHR '' '') (w @ rest) = w" "dropWhile (\<lambda>c. c \<noteq> CHR '' '') (w @ rest) = rest"
    using assms by (auto simp: word_text_def takeWhile_append2 dropWhile_append2 takeWhile_eq_Nil_iff
        dropWhile_eq_self_iff intro!: takeWhile_append2 dropWhile_append2) (cases rest; force simp: takeWhile_append dropWhile_append)+
  with w assms(1) show ?thesis by (simp add: read_field_def word_text_def)
qed

lemma read_bracket: "bracket_text s \<Longrightarrow> read_field (s @ rest) = Some (s, rest)"
proof -
  assume "bracket_text s"
  then obtain x where x: "s = CHR ''['' # x @ [CHR '']'']" "CHR '']'' \<notin> set x"
    by (auto simp: bracket_text_def)
  then have "split_once CHR '']'' ((CHR ''['' # x) @ CHR '']'' # rest) = Some (CHR ''['' # x, rest)"
    by (intro split_once_append) simp
  with x show ?thesis by (simp add: read_field_def)
qed

lemma read_fields_last: "read_field s = Some (f, []) \<Longrightarrow> read_fields (Suc 0) s = Some [f]"
  by simp

lemma read_fields_next:
  "read_field s = Some (f, CHR '' '' # rest) \<Longrightarrow> read_fields n rest = Some fs
     \<Longrightarrow> read_fields (Suc n) s = Some (f # fs)"
  by simp

lemma word_next: "word_text w \<Longrightarrow> read_fields n rest = Some fs \<Longrightarrow>
    read_fields (Suc n) (w @ '' '' @ rest) = Some (w # fs)"
  by (rule read_fields_next) (auto intro: read_word)

lemma bracket_next: "bracket_text w \<Longrightarrow> read_fields n rest = Some fs \<Longrightarrow>
    read_fields (Suc n) (w @ '' '' @ rest) = Some (w # fs)"
  by (rule read_fields_next) (auto intro: read_bracket)

lemma quoted_next: "read_fields n rest = Some fs \<Longrightarrow>
    read_fields (Suc n) (quoted_text w @ '' '' @ rest) = Some (w # fs)"
  by (rule read_fields_next) (auto intro: read_quoted)

lemma quoted_last: "read_fields (Suc 0) (quoted_text w) = Some [w]"
  using read_quoted [of w "[]"] by (intro read_fields_last) simp

lemma show_nat_word: "word_text (show_nat n)"
proof -
  have digits: "c \<in> set (show_nat n) \<Longrightarrow> c \<noteq> CHR '' '' \<and> c \<noteq> CHR 0x22 \<and> c \<noteq> CHR ''[''" for c
    using show_nat_digits [of c n] by (auto simp: is_ascii_digit_def code_def)
  then have "hd (show_nat n) \<noteq> CHR 0x22 \<and> hd (show_nat n) \<noteq> CHR ''[''"
    using hd_in_set [OF show_nat_not_Nil] by blast
  with digits show ?thesis by (auto simp: word_text_def)
qed

text \<open>The text of a piece, and of a whole record.\<close>

definition has_text :: "piece \<Rightarrow> string \<Rightarrow> bool" where
  "has_text p t = (case p of Lit s \<Rightarrow> t = s
     | Elt e \<Rightarrow> (\<forall>b b'. e Plain b = Inr b' \<longrightarrow> b' = b @ t))"

lemma has_text_simps:
  "has_text (Lit s) t \<longleftrightarrow> t = s"
  "has_text (Elt e) t \<longleftrightarrow> (\<forall>b b'. e Plain b = Inr b' \<longrightarrow> b' = b @ t)"
  by (simp_all add: has_text_def)

lemma build_text: "list_all2 has_text ps ts \<Longrightarrow> build ps b = Inr b' \<Longrightarrow> b' = b @ concat ts"
proof (induction ps b arbitrary: ts rule: build.induct)
  case (2 s ps b)
  then show ?case
    by (fastforce simp: and_then_eq_Inr literal_Inr has_text_simps list_all2_Cons1)
next
  case (3 e ps b)
  then show ?case
    by (fastforce simp: and_then_eq_Inr builder_element_def has_text_simps list_all2_Cons1)
qed simp

context text_element begin

lemma text_piece: "has_text (Elt e) raw"
  by (auto simp: has_text_def dest: plain)

lemma quoted_piece: "has_text (Elt (quoted_element e)) (quoted_text raw)"
  unfolding has_text_def quoted_text_def by (auto dest: quoted_result)

end

end
