(* ===== verification/AccessLog.thy ===== *)
theory AccessLog
  imports Records Atomics
begin

text \<open>
  The crate \<open>dhttp-log\<close>, files \<open>log/src/access/record.rs\<close> and \<open>log/src/access/formatter.rs\<close>: the
  fields of an access log record and its one-line representation.  The types of the crates \<open>http\<close> and
  \<open>chrono\<close> appear as what the code reads of them: a method and a path as text, a header map as its
  lookup, a time as the parameter \<open>clf\<close> that formats it.
\<close>

section \<open>The fields of a record\<close>

datatype client_address = UnknownClient | Ip ip_addr

datatype access_request_target = AccessRequestTarget (target_path: "string option")

definition target_from_uri :: "string \<Rightarrow> access_request_target" where
  "target_from_uri path = AccessRequestTarget (if path = [] then None else Some path)"

datatype invalid_target = EmptyTarget | QueryTarget | FragmentTarget | AuthorityTarget
  | NotAbsolutePath | NonAscii | ControlCharacter | InvalidUri

text \<open>\<open>path_and_query\<close> is the parser of the crate \<open>http\<close>.\<close>

definition target_from_str ::
    "(string \<Rightarrow> bool) \<Rightarrow> string \<Rightarrow> invalid_target + access_request_target" where
  "target_from_str path_and_query v =
     (if v = [] then Inl EmptyTarget
      else if v = ''*'' then Inr (AccessRequestTarget (Some v))
      else if CHR ''?'' \<in> set v then Inl QueryTarget
      else if CHR ''#'' \<in> set v then Inl FragmentTarget
      else if starts_with ''//'' v then Inl AuthorityTarget
      else if \<not> starts_with ''/'' v then Inl NotAbsolutePath
      else if \<not> path_and_query v then Inl InvalidUri
      else if \<not> list_all is_ascii v then Inl NonAscii
      else if \<not> list_all (\<lambda>c. \<not> is_ascii_control c) v then Inl ControlCharacter
      else Inr (AccessRequestTarget (Some v)))"

datatype body_bytes_emitted = BodyBytesEmitted (body_bytes_get: "64 word")

definition BODY_ZERO :: body_bytes_emitted where
  "BODY_ZERO = BodyBytesEmitted 0"

text \<open>On a 64-bit target the conversion of the length cannot fail.\<close>

definition body_checked_add :: "body_bytes_emitted \<Rightarrow> 64 word \<Rightarrow> body_bytes_emitted option" where
  "body_checked_add b additional =
     (if unat (body_bytes_get b) + unat additional < 2 ^ 64
      then Some (BodyBytesEmitted (body_bytes_get b + additional)) else None)"

definition referer_from_headers :: "(string \<Rightarrow> string option) \<Rightarrow> string option" where
  "referer_from_headers headers = headers ''referer''"

definition user_agent_from_headers :: "(string \<Rightarrow> string option) \<Rightarrow> string option" where
  "user_agent_from_headers headers = headers ''user-agent''"

record 't access_log_record =
  completed_at :: 't
  client :: client_address
  http_method :: string
  target :: access_request_target
  http_version_of :: http_version
  status :: "16 word"
  body_bytes :: body_bytes_emitted
  referer :: "string option"
  user_agent :: "string option"

section \<open>\<open>Display\<close> of an address\<close>

fun join_with :: "string \<Rightarrow> string list \<Rightarrow> string" where
  "join_with sep [] = []"
| "join_with sep [s] = s"
| "join_with sep (s # ss) = s @ sep @ join_with sep ss"

definition show_v4 :: "32 word \<Rightarrow> string" where
  "show_v4 ip = join_with ''.'' (map (\<lambda>i. show_nat (v4_octet i ip)) [0, 1, 2, 3])"

fun show_hex :: "nat \<Rightarrow> string" where
  "show_hex n = (if n < 16 then [hex_digit n] else show_hex (n div 16) @ [hex_digit (n mod 16)])"

declare show_hex.simps [simp del]

text \<open>The first longest run of zero segments, as its start and length.\<close>

fun zero_span :: "nat \<Rightarrow> nat \<times> nat \<Rightarrow> nat \<times> nat \<Rightarrow> nat list \<Rightarrow> nat \<times> nat" where
  "zero_span i current longest [] = longest"
| "zero_span i current longest (s # ss) =
     (if s = 0 then
        let current = (if snd current = 0 then i else fst current, snd current + 1);
            longest = (if snd longest < snd current then current else longest)
        in zero_span (i + 1) current longest ss
      else zero_span (i + 1) (0, 0) longest ss)"

definition show_segments :: "nat list \<Rightarrow> string" where
  "show_segments ss = join_with '':'' (map show_hex ss)"

definition v6_segments :: "128 word \<Rightarrow> nat list" where
  "v6_segments ip = map (\<lambda>i. v6_segment i ip) [0, 1, 2, 3, 4, 5, 6, 7]"

definition show_v6 :: "128 word \<Rightarrow> string" where
  "show_v6 ip =
     (let segments = v6_segments ip in
      if take 6 segments = [0, 0, 0, 0, 0, 65535]
      then ''::ffff:'' @ show_v4 (ucast (take_bit 32 ip))
      else
        (case zero_span 0 (0, 0) (0, 0) segments of
           (first, len) \<Rightarrow>
             if 1 < len
             then show_segments (take first segments) @ ''::'' @ show_segments (drop (first + len) segments)
             else show_segments segments))"

definition show_ip :: "ip_addr \<Rightarrow> string" where
  "show_ip ip = (case ip of V4 ip \<Rightarrow> show_v4 ip | V6 ip \<Rightarrow> show_v6 ip)"

section \<open>The formatter\<close>

datatype formatted_client = Address | Identity "string option"

definition missing_field :: element where
  "missing_field = write_bytes ''-''"

definition client_element :: "client_address \<Rightarrow> element" where
  "client_element c =
     (case c of UnknownClient \<Rightarrow> write_bytes ''-'' | Ip ip \<Rightarrow> write_bytes (show_ip ip))"

definition target_element :: "access_request_target \<Rightarrow> element" where
  "target_element t = optional (map_option write_bytes (target_path t))"

fun http_version :: "http_version \<Rightarrow> format_error + string" where
  "http_version HTTP_09 = Inr ''HTTP/0.9''"
| "http_version HTTP_10 = Inr ''HTTP/1.0''"
| "http_version HTTP_11 = Inr ''HTTP/1.1''"
| "http_version HTTP_2 = Inr ''HTTP/2''"
| "http_version HTTP_3 = Inr ''HTTP/3''"
| "http_version (OtherVersion v) = Inl (UnsupportedHttpVersion (OtherVersion v))"

definition access_request_line :: "'t access_log_record \<Rightarrow> element" where
  "access_request_line r mode b =
     and_then (write_bytes (http_method r) mode b) (\<lambda>b.
     and_then (write_bytes '' '' mode b) (\<lambda>b.
     and_then (target_element (target r) mode b) (\<lambda>b.
     and_then (write_bytes '' '' mode b) (\<lambda>b.
     and_then (http_version (http_version_of r)) (\<lambda>version.
       write_bytes version mode b)))))"

definition body_bytes_element :: "body_bytes_emitted \<Rightarrow> element" where
  "body_bytes_element b = decimal (unat (body_bytes_get b))"

definition optional_header_element :: "string option \<Rightarrow> element" where
  "optional_header_element v = quoted_element (optional (map_option write_bytes v))"

definition identity_element :: "'t access_log_record \<Rightarrow> formatted_client \<Rightarrow> element" where
  "identity_element r c =
     (case c of
        Address \<Rightarrow> client_element (client r)
      | Identity identity \<Rightarrow> optional (map_option write_bytes identity))"

definition access_pieces ::
    "('t \<Rightarrow> string) \<Rightarrow> 't access_log_record \<Rightarrow> formatted_client \<Rightarrow> piece list" where
  "access_pieces clf r c =
     [Elt (identity_element r c), Lit '' '',
      Elt missing_field, Lit '' '', Elt missing_field, Lit '' '',
      Elt (clf_timestamp clf (completed_at r)), Lit '' '',
      Elt (quoted_element (access_request_line r)), Lit '' '',
      Elt (decimal (unat (status r))), Lit '' '',
      Elt (body_bytes_element (body_bytes r)), Lit '' '',
      Elt (optional_header_element (referer r)), Lit '' '',
      Elt (optional_header_element (user_agent r))]"

definition format_with_client ::
    "('t \<Rightarrow> string) \<Rightarrow> 't access_log_record \<Rightarrow> formatted_client \<Rightarrow> format_error + formatted_record" where
  "format_with_client clf r c = and_then (build (access_pieces clf r c) []) finish"

definition format_access :: "('t \<Rightarrow> string) \<Rightarrow> 't access_log_record \<Rightarrow> format_error + formatted_record" where
  "format_access clf r = format_with_client clf r Address"

definition format_with_client_identity ::
    "('t \<Rightarrow> string) \<Rightarrow> 't access_log_record \<Rightarrow> string option \<Rightarrow> format_error + formatted_record" where
  "format_with_client_identity clf r client_identity = format_with_client clf r (Identity client_identity)"

section \<open>The elements keep their contract\<close>

definition client_text :: "'t access_log_record \<Rightarrow> formatted_client \<Rightarrow> string" where
  "client_text r c =
     (case c of
        Address \<Rightarrow> (case client r of UnknownClient \<Rightarrow> ''-'' | Ip ip \<Rightarrow> show_ip ip)
      | Identity identity \<Rightarrow> optional_text identity)"

definition version_text :: "http_version \<Rightarrow> string" where
  "version_text v = (case http_version v of Inl _ \<Rightarrow> [] | Inr s \<Rightarrow> s)"

definition request_text :: "'t access_log_record \<Rightarrow> string" where
  "request_text r = http_method r @ '' '' @ optional_text (target_path (target r)) @ '' ''
     @ version_text (http_version_of r)"

interpretation target_element: text_element "target_element t" "optional_text (target_path t)"
  unfolding target_element_def
  by unfold_locales (auto dest: optional_element.plain optional_element.quoted_mode)

interpretation client_element: text_element "identity_element r c" "client_text r c"
  unfolding identity_element_def client_element_def client_text_def
  by unfold_locales
     (auto dest: optional_element.plain optional_element.quoted_mode bytes_element.plain
       bytes_element.quoted_mode split: formatted_client.splits client_address.splits)

interpretation body_element: text_element "body_bytes_element b" "show_nat (unat (body_bytes_get b))"
  unfolding body_bytes_element_def
  by unfold_locales (auto dest: decimal_element.plain decimal_element.quoted_mode)

interpretation missing_element: text_element missing_field "''-''"
  unfolding missing_field_def
  by unfold_locales (auto dest: bytes_element.plain bytes_element.quoted_mode)

interpretation request_line: text_element "access_request_line r" "request_text r"
proof
  fix b b'
  assume "access_request_line r Plain b = Inr b'"
  then show "b' = b @ request_text r \<and> list_all is_record_content_byte (request_text r)
      \<and> length b' < MAX_RECORD_LEN"
    by (auto simp: access_request_line_def and_then_eq_Inr request_text_def version_text_def
        dest!: bytes_element.plain target_element.plain)
next
  fix b b'
  assume "access_request_line r Quoted b = Inr b'"
  then show "b' = b @ concat (map escape (request_text r)) \<and> length b' < MAX_RECORD_LEN"
    by (auto simp: access_request_line_def and_then_eq_Inr request_text_def version_text_def
        dest!: bytes_element.quoted_mode target_element.quoted_mode)
qed

lemma access_pieces_ok: "list_all piece_ok (access_pieces clf r c)"
  by (simp add: access_pieces_def piece_ok_def optional_header_element_def
      client_element.format_element_axioms missing_element.format_element_axioms
      clf_element.format_element_axioms decimal_element.format_element_axioms
      body_element.format_element_axioms request_line.in_quotes.format_element_axioms
      optional_element.in_quotes.format_element_axioms)

section \<open>The text of a record\<close>

definition access_texts :: "('t \<Rightarrow> string) \<Rightarrow> 't access_log_record \<Rightarrow> formatted_client \<Rightarrow> string list" where
  "access_texts clf r c =
     [client_text r c, '' '', ''-'', '' '', ''-'', '' '', clf (completed_at r), '' '',
      quoted_text (request_text r), '' '', show_nat (unat (status r)), '' '',
      show_nat (unat (body_bytes_get (body_bytes r))), '' '',
      quoted_text (optional_text (referer r)), '' '', quoted_text (optional_text (user_agent r))]"

lemma access_pieces_text: "list_all2 has_text (access_pieces clf r c) (access_texts clf r c)"
  by (simp add: access_pieces_def access_texts_def optional_header_element_def has_text_simps(1)
      client_element.text_piece missing_element.text_piece clf_element.text_piece
      decimal_element.text_piece body_element.text_piece request_line.quoted_piece
      optional_element.quoted_piece)

lemma format_text:
  "format_with_client clf r c = Inr x \<Longrightarrow> as_bytes x = concat (access_texts clf r c) @ [CHR 0x0A]"
  by (auto simp: format_with_client_def and_then_eq_Inr finish_def dest!: build_text [OF access_pieces_text])

lemma dash_word: "word_text ''-''"
  by (simp add: word_text_def)

text \<open>The characters of an address are no delimiters.\<close>

definition address_byte :: "char \<Rightarrow> bool" where
  "address_byte c \<longleftrightarrow> c = CHR ''.'' \<or> c = CHR '':'' \<or> is_ascii_digit c \<or> (97 \<le> code c \<and> code c \<le> 102)"

lemma join_with_bytes: "list_all (list_all P) ss \<Longrightarrow> list_all P sep \<Longrightarrow> list_all P (join_with sep ss)"
  by (induction sep ss rule: join_with.induct) auto

lemma show_nat_address: "list_all address_byte (show_nat n)"
  by (auto simp: list_all_iff address_byte_def dest: show_nat_digits)

lemma hex_digit_address: "v < 16 \<Longrightarrow> address_byte (hex_digit v)"
  by (auto simp: address_byte_def is_ascii_digit_def hex_digit_code)

lemma show_hex_address: "list_all address_byte (show_hex n)"
proof (induction n rule: show_hex.induct)
  case (1 n)
  then show ?case by (subst show_hex.simps) (auto simp: hex_digit_address)
qed

lemma show_v4_address: "list_all address_byte (show_v4 ip)"
  unfolding show_v4_def by (rule join_with_bytes) (auto simp: show_nat_address address_byte_def)

lemma show_segments_address: "list_all address_byte (show_segments ss)"
  unfolding show_segments_def
  by (rule join_with_bytes) (auto simp: list_all_iff [of "list_all address_byte"] show_hex_address address_byte_def)

lemma show_hex_nonempty: "show_hex n \<noteq> []"
  by (subst show_hex.simps) simp

lemma join_with_nonempty: "ss \<noteq> [] \<Longrightarrow> hd ss \<noteq> [] \<Longrightarrow> join_with sep ss \<noteq> []"
  by (induction sep ss rule: join_with.induct) auto

lemma show_v6_address: "list_all address_byte (show_v6 ip)"
proof -
  have "list_all address_byte ''::ffff:''" "list_all address_byte ''::''" by code_simp+
  then show ?thesis
    unfolding show_v6_def Let_def
    by (simp only: list_all_append show_v4_address show_segments_address split: if_split prod.split) simp
qed

lemma show_ip_nonempty: "show_ip ip \<noteq> []"
proof (cases ip)
  case (V4 w)
  have "show_v4 w \<noteq> []" unfolding show_v4_def by (rule join_with_nonempty) simp_all
  with V4 show ?thesis by (simp add: show_ip_def)
next
  case (V6 w)
  have "show_segments (v6_segments w) \<noteq> []"
    unfolding show_segments_def v6_segments_def by (rule join_with_nonempty) (simp_all add: show_hex_nonempty)
  with V6 show ?thesis by (simp add: show_ip_def show_v6_def Let_def split: prod.split)
qed

lemma show_ip_word: "word_text (show_ip ip)"
proof -
  have addr: "list_all address_byte (show_ip ip)"
    by (cases ip) (simp_all add: show_ip_def show_v4_address show_v6_address)
  have safe: "c \<noteq> CHR '' '' \<and> c \<noteq> CHR 0x22 \<and> c \<noteq> CHR ''[''" if "c \<in> set (show_ip ip)" for c
  proof -
    have "address_byte c" using addr that by (simp add: list_all_iff)
    then show ?thesis by (auto simp: address_byte_def is_ascii_digit_def code_def)
  qed
  then have "CHR '' '' \<notin> set (show_ip ip)" by blast
  with safe [OF hd_in_set [OF show_ip_nonempty]] show ?thesis
    by (simp add: word_text_def show_ip_nonempty)
qed

section \<open>Properties\<close>

text \<open>A formatted access record is one physical line: printable ASCII without a delimiter inside,
  one line feed at the end, at most 64 KiB, whatever the headers, target and identity hold.\<close>
theorem access_record_physical:
  assumes "format_with_client clf r c = Inr x"
  shows "record_ok (as_bytes x)"
  using assms access_pieces_ok
  by (auto simp: format_with_client_def and_then_eq_Inr intro: build_record_ok)

text \<open>C15: A reader gets every field of a formatted access record back, the request line, the referer and
  the user agent byte for byte, so that no header or target can forge another field; the client's text
  must be a word, which an address always is, and the time a bracketed text.\<close>
theorem access_fields_recovered:
  assumes "format_with_client clf r c = Inr x"
    and "\<And>t. bracket_text (clf t)"
    and "case c of Address \<Rightarrow> True | Identity i \<Rightarrow> word_text (optional_text i)"
  shows "\<exists>body. as_bytes x = body @ [CHR 0x0A] \<and>
    read_fields 9 body = Some [client_text r c, ''-'', ''-'', clf (completed_at r), request_text r,
      show_nat (unat (status r)), show_nat (unat (body_bytes_get (body_bytes r))),
      optional_text (referer r), optional_text (user_agent r)]"
proof -
  have c: "word_text (client_text r c)"
    using assms(3) by (auto simp: client_text_def dash_word show_ip_word
        split: formatted_client.splits client_address.splits)
  have nine: "9 = Suc (Suc (Suc (Suc (Suc (Suc (Suc (Suc (Suc 0))))))))" by simp
  have "read_fields 9 (concat (access_texts clf r c)) = Some [client_text r c, ''-'', ''-'',
      clf (completed_at r), request_text r, show_nat (unat (status r)),
      show_nat (unat (body_bytes_get (body_bytes r))), optional_text (referer r), optional_text (user_agent r)]"
    unfolding access_texts_def nine concat.simps append_Nil2
    by (intro word_next bracket_next quoted_next quoted_last c dash_word assms(2) show_nat_word)
  with format_text [OF assms(1)] show ?thesis by blast
qed

definition example_record :: "nat access_log_record" where
  "example_record = \<lparr>completed_at = 7, client = Ip (V4 0x7F000001), http_method = ''GET'',
     target = AccessRequestTarget (Some ''/a''), http_version_of = HTTP_3, status = 200,
     body_bytes = BodyBytesEmitted 5, referer = Some [CHR 0x22, CHR ''x'', CHR 0x0A],
     user_agent = None\<rparr>"

definition example_line :: string where
  "example_line = ''127.0.0.1 - - [7] '' @ [CHR 0x22] @ ''GET /a HTTP/3'' @ [CHR 0x22] @ '' 200 5 ''
     @ [CHR 0x22, CHR 0x5C, CHR 0x22, CHR ''x'', CHR 0x5C] @ ''x0a'' @ [CHR 0x22, CHR '' '', CHR 0x22]
     @ ''-'' @ [CHR 0x22, CHR 0x0A]"

lemma example_formatted:
  "format_with_client (\<lambda>_. ''[7]'') example_record Address = Inr (FormattedRecord example_line)"
proof -
  have "show_ip (V4 0x7F000001) = ''127.0.0.1''" "show_nat 200 = ''200''" "show_nat 5 = ''5''"
    "concat (map escape [CHR 0x22, CHR ''x'', CHR 0x0A])
       = [CHR 0x5C, CHR 0x22, CHR ''x'', CHR 0x5C, CHR ''x'', CHR ''0'', CHR ''a'']"
    "concat (map escape ''GET'') = ''GET''" "concat (map escape '' '') = '' ''"
    "concat (map escape ''/a'') = ''/a''" "concat (map escape ''-'') = ''-''"
    "concat (map escape ''HTTP/3'') = ''HTTP/3''"
    "list_all (list_all is_record_content_byte) [''127.0.0.1'', ''200'', ''5'', ''-'', '' '', ''[7]'']"
    by code_simp+
  then show ?thesis
    by (simp add: format_with_client_def access_pieces_def example_record_def identity_element_def
        client_element_def builder_element_def write_bytes_def builder_append_ok missing_field_def
        clf_timestamp_def quoted_element_def access_request_line_def target_element_def optional_def
        decimal_def body_bytes_element_def optional_header_element_def MAX_RECORD_LEN_def example_line_def
        del: map_append concat_append list.map concat.simps)
qed

lemma access_record_physical_witness: "record_ok example_line"
  using access_record_physical [OF example_formatted] by simp

lemma access_fields_recovered_witness:
  "\<exists>body. example_line = body @ [CHR 0x0A] \<and>
     read_fields 9 body = Some [''127.0.0.1'', ''-'', ''-'', ''[7]'', ''GET /a HTTP/3'', ''200'', ''5'',
       [CHR 0x22, CHR ''x'', CHR 0x0A], ''-'']"
proof -
  have "client_text example_record Address = ''127.0.0.1''" "request_text example_record = ''GET /a HTTP/3''"
    "show_nat 200 = ''200''" "show_nat 5 = ''5''" by code_simp+
  moreover have "bracket_text ''[7]''" by (auto simp: bracket_text_def intro: exI [of _ "''7''"])
  ultimately show ?thesis
    using access_fields_recovered [OF example_formatted] by (simp add: example_record_def optional_text_def)
qed

text \<open>C38: Counting emitted body bytes neither wraps nor saturates: the count after any frames is the
  exact sum of their lengths, and it is given up exactly when that sum leaves 64 bits.\<close>
theorem body_bytes_exact:
  "foldl (\<lambda>b n. Option.bind b (\<lambda>b. body_checked_add b n)) (Some BODY_ZERO) frames =
     (if sum_list (map unat frames) < 2 ^ 64
      then Some (BodyBytesEmitted (of_nat (sum_list (map unat frames)))) else None)"
proof (induction frames rule: rev_induct)
  case (snoc n frames)
  let ?s = "sum_list (map unat frames)"
  show ?case
  proof (cases "?s < 2 ^ 64")
    case True
    then have "unat (of_nat ?s :: 64 word) = ?s" by (simp add: unsigned_of_nat take_bit_nat_eq_self)
    with snoc True show ?thesis by (simp add: body_checked_add_def)
  qed (use snoc in simp)
qed (simp add: BODY_ZERO_def)

end
