(* ===== verification/CertLog.thy ===== *)
theory CertLog
  imports Records Certificates
begin

text \<open>
  The crate \<open>dhttp-log\<close>, files \<open>log/src/cert/record.rs\<close> and \<open>log/src/cert/formatter.rs\<close>: certificate
  lifecycle records, their derivation from a leaf certificate, and their one-line representation.
  X.509 decoding, the digest and the conversion of a timestamp are parameters.
\<close>

section \<open>Records\<close>

datatype certificate_action = Apply | Renew | Replace

datatype certificate_issuer = CertificateIssuer (issuer_str: string)

datatype leaf_usage = UsageClientOnly | UsageServerOnly | UsageClientAndServer | UsageUnrestricted
  | UsageOther

datatype sha256_fingerprint = Sha256Fingerprint (fingerprint_bytes: string)

record 't certificate_log_record =
  recorded_at :: 't
  cert_action :: certificate_action
  cert_issuer :: "certificate_issuer option"
  cert_usage :: leaf_usage
  cert_chain :: certificate_chain_key
  expires_at :: 't
  cert_fingerprint :: sha256_fingerprint

text \<open>
  What the code reads of a decoded certificate: the issuer's organizations and common names, each
  text where it is valid, the two flags of the extended key usage, if any, or that it could not be
  read, and the end of the validity.
\<close>

record leaf_certificate =
  issuer_organizations :: "string option list"
  issuer_common_names :: "string option list"
  extended_key_usage :: "unit + (bool \<times> bool) option"
  not_after :: int

datatype from_leaf_error = ParseLeafCertificate | TrailingData nat | ExtendedKeyUsage | ExpiryOutOfRange

definition first_valid_issuer :: "leaf_certificate \<Rightarrow> certificate_issuer option" where
  "first_valid_issuer certificate =
     (case List.map_filter id (issuer_organizations certificate)
           @ List.map_filter id (issuer_common_names certificate) of
        [] \<Rightarrow> None
      | s # _ \<Rightarrow> Some (CertificateIssuer s))"

fun leaf_usage_of :: "(bool \<times> bool) option \<Rightarrow> leaf_usage" where
  "leaf_usage_of None = UsageUnrestricted"
| "leaf_usage_of (Some (True, True)) = UsageClientAndServer"
| "leaf_usage_of (Some (True, False)) = UsageClientOnly"
| "leaf_usage_of (Some (False, True)) = UsageServerOnly"
| "leaf_usage_of (Some (False, False)) = UsageOther"

definition from_leaf_der ::
    "(string \<Rightarrow> (string \<times> leaf_certificate) option) \<Rightarrow> (int \<Rightarrow> 't option) \<Rightarrow> (string \<Rightarrow> string)
      \<Rightarrow> 't \<Rightarrow> certificate_action \<Rightarrow> certificate_chain_key \<Rightarrow> string
      \<Rightarrow> from_leaf_error + 't certificate_log_record" where
  "from_leaf_der from_der from_timestamp sha256 at act chain leaf_der =
     and_then (ok_or ParseLeafCertificate (from_der leaf_der)) (\<lambda>(remaining, certificate).
     if remaining \<noteq> [] then Inl (TrailingData (length remaining))
     else
       and_then (map_err (\<lambda>_. ExtendedKeyUsage) (extended_key_usage certificate)) (\<lambda>eku.
       and_then (ok_or ExpiryOutOfRange (from_timestamp (not_after certificate))) (\<lambda>expires.
         Inr \<lparr>recorded_at = at, cert_action = act, cert_issuer = first_valid_issuer certificate,
              cert_usage = leaf_usage_of eku, cert_chain = chain, expires_at = expires,
              cert_fingerprint = Sha256Fingerprint (sha256 leaf_der)\<rparr>)))"

section \<open>The formatter\<close>

fun action_text :: "certificate_action \<Rightarrow> string" where
  "action_text Apply = ''APPLY''"
| "action_text Renew = ''RENEW''"
| "action_text Replace = ''REPLACE''"

definition issuer_element :: "certificate_issuer option \<Rightarrow> element" where
  "issuer_element i = optional (map_option (\<lambda>i. quoted_element (write_bytes (issuer_str i))) i)"

fun usage_text :: "leaf_usage \<Rightarrow> string" where
  "usage_text UsageClientOnly = ''client only''"
| "usage_text UsageServerOnly = ''server only''"
| "usage_text UsageClientAndServer = ''client and server''"
| "usage_text UsageUnrestricted = ''unrestricted''"
| "usage_text UsageOther = ''other''"

definition usage_element :: "leaf_usage \<Rightarrow> element" where
  "usage_element u = quoted_element (write_bytes (usage_text u))"

definition chain_element :: "certificate_chain_key \<Rightarrow> element" where
  "chain_element k = write_bytes (show_chain_key k)"

text \<open>The digest behind \<open>sha256:\<close>, two lowercase digits a byte.\<close>

definition fingerprint_text :: "sha256_fingerprint \<Rightarrow> string" where
  "fingerprint_text f = ''sha256:'' @ concat (map (\<lambda>c. [hex_digit (code c div 16), hex_digit (code c mod 16)])
     (fingerprint_bytes f))"

definition fingerprint_element :: "sha256_fingerprint \<Rightarrow> element" where
  "fingerprint_element f = quoted_element (write_bytes (fingerprint_text f))"

definition cert_pieces :: "('t \<Rightarrow> string) \<Rightarrow> 't certificate_log_record \<Rightarrow> piece list" where
  "cert_pieces clf r =
     [Elt (clf_timestamp clf (recorded_at r)), Lit '' '',
      Elt (write_bytes (action_text (cert_action r))), Lit '' '',
      Elt (issuer_element (cert_issuer r)), Lit '' '',
      Elt (usage_element (cert_usage r)), Lit '' '',
      Elt (chain_element (cert_chain r)), Lit '' '',
      Elt (clf_timestamp clf (expires_at r)), Lit '' '',
      Elt (fingerprint_element (cert_fingerprint r))]"

definition format_cert :: "('t \<Rightarrow> string) \<Rightarrow> 't certificate_log_record \<Rightarrow> format_error + formatted_record" where
  "format_cert clf r = and_then (build (cert_pieces clf r) []) finish"

section \<open>The text of a record\<close>

definition issuer_field :: "certificate_issuer option \<Rightarrow> string" where
  "issuer_field i = (case i of None \<Rightarrow> ''-'' | Some i \<Rightarrow> quoted_text (issuer_str i))"

lemma issuer_element_appends:
  "issuer_element i mode b = Inr b' \<Longrightarrow>
     \<exists>s. b' = b @ s \<and> list_all is_record_content_byte s \<and> length b' < MAX_RECORD_LEN"
  by (cases i)
     (auto simp: issuer_element_def optional_def dest: bytes_element.appends
       bytes_element.in_quotes.appends)

interpretation issuer_element: format_element "issuer_element i"
  by unfold_locales (rule issuer_element_appends)

interpretation chain_element: text_element "chain_element k" "show_chain_key k"
  unfolding chain_element_def
  by unfold_locales (auto dest: bytes_element.plain bytes_element.quoted_mode)

lemma issuer_piece: "has_text (Elt (issuer_element i)) (issuer_field i)"
  using bytes_element.text_piece bytes_element.quoted_piece
  by (cases i) (auto simp: issuer_element_def issuer_field_def optional_def)

definition cert_texts :: "('t \<Rightarrow> string) \<Rightarrow> 't certificate_log_record \<Rightarrow> string list" where
  "cert_texts clf r =
     [clf (recorded_at r), '' '', action_text (cert_action r), '' '', issuer_field (cert_issuer r), '' '',
      quoted_text (usage_text (cert_usage r)), '' '', show_chain_key (cert_chain r), '' '',
      clf (expires_at r), '' '', quoted_text (fingerprint_text (cert_fingerprint r))]"

lemma cert_pieces_text: "list_all2 has_text (cert_pieces clf r) (cert_texts clf r)"
  by (simp add: cert_pieces_def cert_texts_def usage_element_def fingerprint_element_def has_text_simps(1)
      clf_element.text_piece bytes_element.text_piece bytes_element.quoted_piece issuer_piece
      chain_element.text_piece)

lemma cert_pieces_ok: "list_all piece_ok (cert_pieces clf r)"
  by (simp add: cert_pieces_def piece_ok_def usage_element_def fingerprint_element_def
      issuer_element.format_element_axioms chain_element.format_element_axioms
      clf_element.format_element_axioms bytes_element.format_element_axioms
      bytes_element.in_quotes.format_element_axioms)

lemma format_cert_text:
  "format_cert clf r = Inr x \<Longrightarrow> as_bytes x = concat (cert_texts clf r) @ [CHR 0x0A]"
  by (auto simp: format_cert_def and_then_eq_Inr finish_def dest!: build_text [OF cert_pieces_text])

text \<open>The chain is a plain field, so the space in \<open>client and server\<close> splits it.\<close>

definition chain_fields :: "certificate_chain_key \<Rightarrow> string list" where
  "chain_fields k =
     (let n = show_nat (unat (sequence_get (chain_sequence k))) in
      case chain_usage k of
        ClientOnly \<Rightarrow> [''client:'' @ n]
      | ClientAndServer \<Rightarrow> [''client'', ''and'', ''server:'' @ n])"

fun fingerprint_decode :: "string \<Rightarrow> string" where
  "fingerprint_decode (a # b # s) = char_of (16 * hex_value a + hex_value b) # fingerprint_decode s"
| "fingerprint_decode s = []"

lemma fingerprint_decode_text:
  "fingerprint_decode (drop 7 (fingerprint_text f)) = fingerprint_bytes f"
proof -
  have "fingerprint_decode (concat (map (\<lambda>c. [hex_digit (code c div 16), hex_digit (code c mod 16)]) s)) = s" for s
  proof (induction s)
    case (Cons c s)
    have "code c div 16 < 16" using code_less_256 [of c] by simp
    moreover have "char_of (16 * (code c div 16) + code c mod 16) = c" by (simp add: code_def)
    ultimately show ?case using Cons by (simp add: hex_value_digit)
  qed simp
  then show ?thesis by (simp add: fingerprint_text_def)
qed

lemma issuer_next:
  "read_fields n rest = Some fs \<Longrightarrow>
     read_fields (Suc n) (issuer_field i @ '' '' @ rest)
       = Some ((case i of None \<Rightarrow> ''-'' | Some i \<Rightarrow> issuer_str i) # fs)"
  by (cases i) (auto simp only: issuer_field_def option.case intro: quoted_next intro!: word_next, simp add: word_text_def)

lemma action_word: "word_text (action_text a)"
  by (cases a) (simp_all add: word_text_def)

lemma word_prefix: "word_text (c # w) \<Longrightarrow> word_text s \<Longrightarrow> word_text ((c # w) @ s)"
  by (auto simp: word_text_def)

lemma chain_next:
  "read_fields n rest = Some fs \<Longrightarrow>
     read_fields (length (chain_fields k) + n) (show_chain_key k @ '' '' @ rest) = Some (chain_fields k @ fs)"
proof -
  assume rest: "read_fields n rest = Some fs"
  let ?n = "show_nat (unat (sequence_get (chain_sequence k)))"
  have w: "word_text ''client''" "word_text ''and''" "word_text (''client:'' @ ?n)" "word_text (''server:'' @ ?n)"
    using show_nat_word [of "unat (sequence_get (chain_sequence k))"]
    by (simp_all add: word_text_def)
  show ?thesis
  proof (cases "chain_usage k")
    case ClientOnly
    with word_next [OF w(3) rest] show ?thesis
      by (simp add: chain_fields_def show_chain_key_def Let_def)
  next
    case ClientAndServer
    with word_next [OF w(1) word_next [OF w(2) word_next [OF w(4) rest]]] show ?thesis
      by (simp add: chain_fields_def show_chain_key_def Let_def)
  qed
qed

section \<open>Properties\<close>

text \<open>A formatted certificate record is one physical line within the limit, and a reader gets every
  field back, the issuer byte for byte and the digest from the fingerprint; a chain for client and
  server takes three columns, since its text is written without quotes.\<close>
theorem cert_record_fields:
  assumes "format_cert clf r = Inr x" and "\<And>t. bracket_text (clf t)"
  shows "record_ok (as_bytes x) \<and>
    (\<exists>body fp. as_bytes x = body @ [CHR 0x0A] \<and>
       read_fields (6 + length (chain_fields (cert_chain r))) body =
         Some ([clf (recorded_at r), action_text (cert_action r),
             case cert_issuer r of None \<Rightarrow> ''-'' | Some i \<Rightarrow> issuer_str i, usage_text (cert_usage r)]
           @ chain_fields (cert_chain r) @ [clf (expires_at r), fp]) \<and>
       fingerprint_decode (drop 7 fp) = fingerprint_bytes (cert_fingerprint r))"
proof -
  let ?m = "length (chain_fields (cert_chain r)) + Suc (Suc 0)"
  have len: "6 + length (chain_fields (cert_chain r)) = Suc (Suc (Suc (Suc ?m)))" by simp
  have rest: "read_fields ?m (show_chain_key (cert_chain r) @ '' '' @ clf (expires_at r) @ '' ''
        @ quoted_text (fingerprint_text (cert_fingerprint r)))
      = Some (chain_fields (cert_chain r) @ [clf (expires_at r), fingerprint_text (cert_fingerprint r)])"
    by (intro chain_next bracket_next quoted_last assms(2))
  have "read_fields (6 + length (chain_fields (cert_chain r))) (concat (cert_texts clf r)) =
         Some (clf (recorded_at r) # action_text (cert_action r)
           # (case cert_issuer r of None \<Rightarrow> ''-'' | Some i \<Rightarrow> issuer_str i) # usage_text (cert_usage r)
           # chain_fields (cert_chain r) @ [clf (expires_at r), fingerprint_text (cert_fingerprint r)])"
    unfolding cert_texts_def len concat.simps append_Nil2
    by (intro bracket_next word_next issuer_next quoted_next action_word assms(2) rest)
  moreover have "record_ok (as_bytes x)"
    using assms(1) cert_pieces_ok by (auto simp: format_cert_def and_then_eq_Inr intro: build_record_ok)
  ultimately show ?thesis
    using format_cert_text [OF assms(1)] fingerprint_decode_text [of "cert_fingerprint r"] by simp
qed

definition example_cert :: "nat certificate_log_record" where
  "example_cert = \<lparr>recorded_at = 1, cert_action = Renew, cert_issuer = None, cert_usage = UsageOther,
     cert_chain = \<lparr>chain_sequence = CertificateSequence 0, chain_usage = ClientAndServer\<rparr>,
     expires_at = 2, cert_fingerprint = Sha256Fingerprint [CHR 0xAF]\<rparr>"

lemma cert_record_fields_witness:
  "\<exists>x body fp. format_cert (\<lambda>_. ''[t]'') example_cert = Inr x \<and> as_bytes x = body @ [CHR 0x0A] \<and>
     read_fields 9 body = Some [''[t]'', ''RENEW'', ''-'', ''other'', ''client'', ''and'', ''server:0'', ''[t]'', fp]"
proof -
  have c: "show_chain_key (cert_chain example_cert) = ''client and server:0''"
    "fingerprint_text (cert_fingerprint example_cert) = ''sha256:af''"
    "concat (map escape ''other'') = ''other''" "concat (map escape ''sha256:af'') = ''sha256:af''"
    "list_all (list_all is_record_content_byte) [''client and server:0'', ''-'', '' '', ''[t]'', ''RENEW'']"
    "chain_fields (cert_chain example_cert) = [''client'', ''and'', ''server:0'']"
    by code_simp+
  have e: "cert_action example_cert = Renew" "cert_issuer example_cert = None"
    "cert_usage example_cert = UsageOther" by (simp_all add: example_cert_def)
  have "\<exists>x. format_cert (\<lambda>_. ''[t]'') example_cert = Inr x"
    using c e
    by (simp add: format_cert_def cert_pieces_def builder_element_def write_bytes_def builder_append_ok
        clf_timestamp_def quoted_element_def issuer_element_def usage_element_def chain_element_def
        fingerprint_element_def optional_def MAX_RECORD_LEN_def
        del: map_append concat_append list.map concat.simps)
  then obtain x where x: "format_cert (\<lambda>_. ''[t]'') example_cert = Inr x" ..
  have "bracket_text ''[t]''" by (auto simp: bracket_text_def intro: exI [of _ "''t''"])
  with cert_record_fields [OF x] have "\<exists>body fp. as_bytes x = body @ [CHR 0x0A] \<and>
     read_fields (6 + length (chain_fields (cert_chain example_cert))) body =
       Some ([''[t]'', action_text (cert_action example_cert),
         case cert_issuer example_cert of None \<Rightarrow> ''-'' | Some i \<Rightarrow> issuer_str i, usage_text (cert_usage example_cert)]
         @ chain_fields (cert_chain example_cert) @ [''[t]'', fp])" by blast
  with x c(6) show ?thesis by (auto simp: example_cert_def)
qed

end
