(* ===== verification/Errors.thy ===== *)
theory Errors
  imports Names
begin

text \<open>
  The error categories of the core and of the SDK: the crate \<open>dhttp\<close>, file \<open>dhttp/src/error.rs\<close>, and
  the crate \<open>dhttp-api\<close>, file \<open>api/src/error.rs\<close>.  A \<open>dyn Error\<close> is the tree \<open>any_error\<close>, which a
  downcast inspects at its root; errors of other crates are leaves with their text.  \<open>Arc\<close> and \<open>Box\<close>
  around an error are not shown.
\<close>

section \<open>Errors as trees\<close>

datatype h3_error = H3Error (h3_code: "64 word") (h3_text: string)

datatype error_code = CodeInvalidArgument | CodeIdentity | CodeRemoteIdentityChanged
  | CodeAlreadyListening | CodeNetwork | CodeProtocol | CodeIo | CodeCancelled | CodeClosed
  | CodeDeadlineExceeded | CodeBodyInUse | CodeProducer

text \<open>An \<open>io::Error\<close> has a kind and, if it was made of another error, that error.\<close>

datatype any_error = AnyCore core_error | AnyH3 h3_error | AnyQuic string | AnyIo io_source
    | AnySdk sdk_error | Opaque string
  and core_error = InvalidNameError string | InvalidRequest string | InvalidUriError string
    | RemoteIdentityChanged | AlreadyListening | NameInUse string | NetworkNotInitialized
    | HomeUnavailable string | Credentials string | TlsConfig string | Http3 h3_error
    | Quic string | IoError io_source | HomeError path any_error
  and io_source = IoSource string "any_error option"
  and sdk_error = SdkError (sdk_code: error_code) (sdk_message: string)
    (sdk_protocol_code: "64 word option") (sdk_cause: "any_error option")

text \<open>\<open>io::Error::other\<close>\<close>

definition io_other :: "any_error \<Rightarrow> io_source" where
  "io_other e = IoSource ''other error'' (Some e)"

section \<open>Text\<close>

definition error_code_as_str :: "error_code \<Rightarrow> string" where
  "error_code_as_str c =
     (case c of
        CodeInvalidArgument \<Rightarrow> ''ERR_INVALID_ARGUMENT''
      | CodeIdentity \<Rightarrow> ''ERR_IDENTITY''
      | CodeRemoteIdentityChanged \<Rightarrow> ''ERR_REMOTE_IDENTITY_CHANGED''
      | CodeAlreadyListening \<Rightarrow> ''ERR_ALREADY_LISTENING''
      | CodeNetwork \<Rightarrow> ''ERR_NETWORK''
      | CodeProtocol \<Rightarrow> ''ERR_PROTOCOL''
      | CodeIo \<Rightarrow> ''ERR_IO''
      | CodeCancelled \<Rightarrow> ''ERR_CANCELLED''
      | CodeClosed \<Rightarrow> ''ERR_CLOSED''
      | CodeDeadlineExceeded \<Rightarrow> ''ERR_DEADLINE_EXCEEDED''
      | CodeBodyInUse \<Rightarrow> ''ERR_BODY_IN_USE''
      | CodeProducer \<Rightarrow> ''ERR_PRODUCER'')"

text \<open>\<open>display\<close> is the text of a path.\<close>

fun show_any :: "(path \<Rightarrow> string) \<Rightarrow> any_error \<Rightarrow> string"
  and show_core :: "(path \<Rightarrow> string) \<Rightarrow> core_error \<Rightarrow> string"
  and show_io :: "(path \<Rightarrow> string) \<Rightarrow> io_source \<Rightarrow> string"
  and show_sdk :: "(path \<Rightarrow> string) \<Rightarrow> sdk_error \<Rightarrow> string" where
  "show_any display (AnyCore e) = show_core display e"
| "show_any display (AnyH3 e) = h3_text e"
| "show_any display (AnyQuic e) = e"
| "show_any display (AnyIo e) = show_io display e"
| "show_any display (AnySdk e) = show_sdk display e"
| "show_any display (Opaque s) = s"
| "show_core display (InvalidNameError name) = ''invalid DHTTP name: '' @ name"
| "show_core display (InvalidRequest message) = ''invalid request: '' @ message"
| "show_core display RemoteIdentityChanged = ''remote identity changed''"
| "show_core display AlreadyListening = ''endpoint is already listening''"
| "show_core display (NameInUse name) = ''name is already registered: '' @ name"
| "show_core display NetworkNotInitialized = ''network is not initialized''"
| "show_core display (HomeUnavailable message) = ''DHTTP home unavailable: '' @ message"
| "show_core display (HomeError p source) = display p @ '': '' @ show_any display source"
| "show_core display (InvalidUriError source) = ''invalid URI: '' @ source"
| "show_core display (Credentials source) = ''credentials: '' @ source"
| "show_core display (TlsConfig source) = ''TLS configuration: '' @ source"
| "show_core display (Http3 source) = ''HTTP/3: '' @ h3_text source"
| "show_core display (Quic source) = ''QUIC: '' @ source"
| "show_core display (IoError source) = ''I/O: '' @ show_io display source"
| "show_io display (IoSource kind None) = kind"
| "show_io display (IoSource kind (Some e)) = show_any display e"
| "show_sdk display (SdkError ec message _ _) = error_code_as_str ec @ '': '' @ message"

text \<open>The source an error reports, for the variants that have one.\<close>

fun core_source :: "core_error \<Rightarrow> any_error option" where
  "core_source (InvalidUriError s) = Some (Opaque s)"
| "core_source (Credentials s) = Some (Opaque s)"
| "core_source (TlsConfig s) = Some (Opaque s)"
| "core_source (Http3 e) = Some (AnyH3 e)"
| "core_source (Quic e) = Some (AnyQuic e)"
| "core_source (IoError e) = Some (AnyIo e)"
| "core_source (HomeError p e) = Some e"
| "core_source _ = None"

section \<open>Conversions\<close>

fun recover :: "any_error \<Rightarrow> core_error option" where
  "recover (AnyCore e) = Some e"
| "recover (AnyH3 e) = Some (Http3 e)"
| "recover (AnyQuic e) = Some (Quic e)"
| "recover (AnyIo (IoSource kind (Some e))) = recover e"
| "recover _ = None"

definition core_from_io :: "io_source \<Rightarrow> core_error" where
  "core_from_io source = (case recover (AnyIo source) of Some e \<Rightarrow> e | None \<Rightarrow> IoError source)"

definition core_from_box :: "any_error \<Rightarrow> core_error" where
  "core_from_box source =
     (case recover source of Some e \<Rightarrow> e | None \<Rightarrow> IoError (io_other source))"

definition sdk_new :: "error_code \<Rightarrow> string \<Rightarrow> sdk_error" where
  "sdk_new ec message = SdkError ec message None None"

definition sdk_producer :: "(path \<Rightarrow> string) \<Rightarrow> any_error \<Rightarrow> sdk_error" where
  "sdk_producer display cause = SdkError CodeProducer (show_any display cause) None (Some cause)"

definition sdk_cancelled :: sdk_error where
  "sdk_cancelled = sdk_new CodeCancelled ''operation cancelled''"

fun code_of_core :: "core_error \<Rightarrow> error_code" where
  "code_of_core (InvalidNameError _) = CodeInvalidArgument"
| "code_of_core (InvalidRequest _) = CodeInvalidArgument"
| "code_of_core (InvalidUriError _) = CodeInvalidArgument"
| "code_of_core RemoteIdentityChanged = CodeRemoteIdentityChanged"
| "code_of_core AlreadyListening = CodeAlreadyListening"
| "code_of_core (NameInUse _) = CodeAlreadyListening"
| "code_of_core (HomeUnavailable _) = CodeIdentity"
| "code_of_core (HomeError _ _) = CodeIdentity"
| "code_of_core (Credentials _) = CodeIdentity"
| "code_of_core (TlsConfig _) = CodeIdentity"
| "code_of_core NetworkNotInitialized = CodeNetwork"
| "code_of_core (Quic _) = CodeNetwork"
| "code_of_core (Http3 _) = CodeProtocol"
| "code_of_core (IoError _) = CodeIo"

definition sdk_from_core :: "(path \<Rightarrow> string) \<Rightarrow> core_error \<Rightarrow> sdk_error" where
  "sdk_from_core display cause =
     (case cause of
        IoError (IoSource _ (Some (AnySdk e))) \<Rightarrow> e
      | _ \<Rightarrow>
          SdkError (code_of_core cause) (show_core display cause)
            (case cause of Http3 e \<Rightarrow> Some (h3_code e) | _ \<Rightarrow> None) (Some (AnyCore cause)))"

definition sdk_from_io :: "(path \<Rightarrow> string) \<Rightarrow> io_source \<Rightarrow> sdk_error" where
  "sdk_from_io display cause = sdk_from_core display (core_from_io cause)"

definition sdk_from_box :: "(path \<Rightarrow> string) \<Rightarrow> any_error \<Rightarrow> sdk_error" where
  "sdk_from_box display cause =
     (case cause of AnySdk e \<Rightarrow> e | _ \<Rightarrow> sdk_from_core display (core_from_box cause))"

section \<open>Facts\<close>

text \<open>An error behind \<open>n\<close> layers of \<open>io::Error::other\<close>.\<close>

fun erased :: "nat \<Rightarrow> any_error \<Rightarrow> any_error" where
  "erased 0 e = e"
| "erased (Suc n) e = AnyIo (io_other (erased n e))"

lemma recover_erased: "recover (erased n e) = recover e"
  by (induction n) (simp_all add: io_other_def)

section \<open>Properties\<close>

text \<open>C36: The category of an error survives its erasure: a core error behind any number of layers of
  \<open>io::Error::other\<close> comes back as itself, from a boxed error and from an I/O error, so that the SDK
  gives it the code it has without the layers.  An SDK error comes back as itself from a box, and from
  behind one such layer as an I/O error; a box of that I/O error, however, is reported as an I/O failure.\<close>
theorem erased_errors_recovered:
  "core_from_box (erased n (AnyCore e)) = e
   \<and> core_from_io (io_other (erased n (AnyCore e))) = e
   \<and> sdk_from_box display (erased n (AnyCore e)) = sdk_from_core display e
   \<and> sdk_from_io display (io_other (erased n (AnyCore e))) = sdk_from_core display e
   \<and> sdk_from_box display (AnySdk s) = s
   \<and> sdk_from_io display (io_other (AnySdk s)) = s
   \<and> sdk_code (sdk_from_box display (erased (Suc n) (AnySdk s))) = CodeIo"
proof -
  have box: "core_from_box (erased n (AnyCore e)) = e"
    and io: "core_from_io (io_other (erased n (AnyCore e))) = e"
    by (simp_all add: core_from_box_def core_from_io_def recover_erased io_other_def)
  have "sdk_from_box display (erased n (AnyCore e)) = sdk_from_core display e"
    using box by (cases n) (simp_all add: sdk_from_box_def)
  moreover have "sdk_from_io display (io_other (AnySdk s)) = s"
    by (simp add: sdk_from_io_def sdk_from_core_def core_from_io_def io_other_def)
  moreover have "core_from_box (erased (Suc n) (AnySdk s))
      = IoError (io_other (AnyIo (io_other (erased n (AnySdk s)))))"
    using recover_erased [of n "AnySdk s"] by (simp add: core_from_box_def io_other_def)
  then have "sdk_code (sdk_from_box display (erased (Suc n) (AnySdk s))) = CodeIo"
    by (simp add: sdk_from_box_def sdk_from_core_def io_other_def)
  moreover have "sdk_from_box display (AnySdk s) = s" by (simp add: sdk_from_box_def)
  ultimately show ?thesis using box io by (simp add: sdk_from_io_def)
qed

end
