(* ===== verification/RequestUri.thy ===== *)
theory RequestUri
  imports Errors
begin

text \<open>
  Request URIs of the crate \<open>dhttp\<close>, file \<open>dhttp/src/uri.rs\<close>: the expansion of the \<open>~\<close> shorthand
  and the name a request is routed to.  The parsers of the crates \<open>http\<close> and \<open>qtls\<close> are the parameters
  of the record \<open>http_crate\<close>; a URI is its parts.
\<close>

section \<open>The parameters\<close>

record uri =
  uri_scheme :: "string option"
  uri_authority :: "string option"
  uri_path :: "string option"

record http_crate =
  authority_host :: "string \<Rightarrow> string"
  parse_authority :: "string \<Rightarrow> string + string"
  uri_from_parts :: "uri \<Rightarrow> string + uri"
  dns_server_name :: "string \<Rightarrow> bool"

section \<open>Expansion\<close>

definition dhttp_host :: "string \<Rightarrow> bool" where
  "dhttp_host host \<longleftrightarrow>
     length DHTTP_SUFFIX \<le> length host
     \<and> eq_ignore_ascii_case (drop (length host - length DHTTP_SUFFIX) host) DHTTP_SUFFIX"

text \<open>The name that replaces a host, or \<open>None\<close> when the authority is returned as it is.\<close>

definition replacement_host :: "string option \<Rightarrow> string \<Rightarrow> core_error + string option" where
  "replacement_host base host =
     (if host = ''~'' then
        (case base of
           None \<Rightarrow> Inl (InvalidRequest ''cannot expand bare dhttp shorthand without a base name'')
         | Some b \<Rightarrow>
             (case normalize_name b of
                None \<Rightarrow> Inl (InvalidRequest ''invalid local DHTTP name'')
              | Some name \<Rightarrow> Inr (Some name)))
      else if CHR ''~'' \<in> set host then
        (let expanded = to_ascii_lowercase (replace_char CHR ''~'' DHTTP_SUFFIX host)
         in if \<not> is_valid_dns_name expanded
            then Inl (InvalidRequest (''invalid DHTTP shorthand host: '' @ host))
            else Inr (Some expanded))
      else if dhttp_host host then
        (case normalize_name host of
           None \<Rightarrow> Inl (InvalidRequest (''invalid DHTTP authority host: '' @ host))
         | Some name \<Rightarrow> Inr (Some name))
      else Inr None)"

definition user_info_len :: "string \<Rightarrow> nat" where
  "user_info_len raw = (case split_once CHR ''@'' raw of Some (u, _) \<Rightarrow> length u + 1 | None \<Rightarrow> 0)"

definition replace_host :: "string \<Rightarrow> string \<Rightarrow> string \<Rightarrow> string" where
  "replace_host raw host replacement =
     (if raw = host then replacement
      else take (user_info_len raw) raw @ replacement @ drop (user_info_len raw + length host) raw)"

definition expand_authority_with_base ::
    "http_crate \<Rightarrow> string option \<Rightarrow> string \<Rightarrow> core_error + string" where
  "expand_authority_with_base h base raw =
     (let host = authority_host h raw
      in and_then (replacement_host base host)
           (\<lambda>r. case r of
                  None \<Rightarrow> Inr raw
                | Some replacement \<Rightarrow>
                    map_err InvalidUriError (parse_authority h (replace_host raw host replacement))))"

definition expand_uri_with_base :: "http_crate \<Rightarrow> string option \<Rightarrow> uri \<Rightarrow> core_error + uri" where
  "expand_uri_with_base h base u =
     and_then
       (case uri_authority u of
          None \<Rightarrow> Inr u
        | Some authority \<Rightarrow>
            and_then (expand_authority_with_base h base authority)
              (\<lambda>expanded. Inr (u\<lparr>uri_authority := Some expanded\<rparr>)))
       (\<lambda>parts. map_err InvalidRequest (uri_from_parts h parts))"

section \<open>Routing\<close>

definition request_schemes :: "string list" where
  "request_schemes = [''https'', ''http'', ''dhttp'', ''wss'', ''ws'']"

definition checked_port :: "string \<Rightarrow> core_error + nat" where
  "checked_port port =
     (case parse_uint 65535 port of
        Inr p \<Rightarrow> if p \<noteq> 0 then Inr p
                 else Inl (InvalidRequest ''URI port must be between 1 and 65535'')
      | Inl _ \<Rightarrow> Inl (InvalidRequest ''URI port must be between 1 and 65535''))"

definition request_remote :: "string \<Rightarrow> string \<Rightarrow> core_error + string" where
  "request_remote authority host =
     (let name = to_ascii_lowercase (strip_suffix_or ''.'' host)
      in if ends_with DHTTP_SUFFIX name then Inr name
         else case rsplit_once CHR '':'' (last (split_on CHR ''@'' authority)) of
                Some (_, port) \<Rightarrow>
                  and_then (checked_port port) (\<lambda>p. Inr (name @ '':'' @ show_nat p))
              | None \<Rightarrow> Inr name)"

definition check_scheme :: "uri \<Rightarrow> core_error + unit" where
  "check_scheme u =
     (case uri_scheme u of
        Some scheme \<Rightarrow>
          if scheme \<notin> set request_schemes then Inl (InvalidRequest ''unsupported URI scheme'')
          else Inr ()
      | None \<Rightarrow> Inr ())"

definition resolve_request_uri ::
    "http_crate \<Rightarrow> string option \<Rightarrow> uri \<Rightarrow> core_error + uri \<times> string" where
  "resolve_request_uri h local_name u =
     and_then (expand_uri_with_base h local_name u) (\<lambda>u.
     and_then (check_scheme u) (\<lambda>_.
     case uri_authority u of
       None \<Rightarrow> Inl (InvalidRequest ''URI has no remote authority'')
     | Some authority \<Rightarrow>
         let host = authority_host h authority
         in if CHR ''_'' \<in> set host \<or> \<not> dns_server_name h host then Inl (InvalidNameError host)
            else and_then (request_remote authority host) (\<lambda>remote. Inr (u, remote))))"

section \<open>The contract of the parameters\<close>

text \<open>An authority is the user information up to its \<open>@\<close>, a host, and a port after its \<open>:\<close>.\<close>

definition plain_host :: "string \<Rightarrow> bool" where
  "plain_host host \<longleftrightarrow>
     host \<noteq> [] \<and> list_all (\<lambda>c. c \<notin> {CHR ''@'', CHR '':'', CHR ''['', CHR '']''}) host"

definition port_text :: "string \<Rightarrow> bool" where
  "port_text s \<longleftrightarrow>
     (case s of [] \<Rightarrow> True | c # p \<Rightarrow> c = CHR '':'' \<and> CHR '':'' \<notin> set p \<and> CHR ''@'' \<notin> set p)"

definition user_info :: "string \<Rightarrow> bool" where
  "user_info s \<longleftrightarrow> s = [] \<or> (\<exists>u. s = u @ ''@'' \<and> CHR ''@'' \<notin> set u)"

definition http_contract :: "http_crate \<Rightarrow> bool" where
  "http_contract h \<longleftrightarrow>
     (\<forall>s a. parse_authority h s = Inr a \<longrightarrow> a = s)
     \<and> (\<forall>p u. uri_from_parts h p = Inr u \<longrightarrow> u = p)
     \<and> (\<forall>ui host port. user_info ui \<longrightarrow> plain_host host \<longrightarrow> port_text port
          \<longrightarrow> authority_host h (ui @ host @ port) = host)"

section \<open>Facts\<close>

lemma port_text_cases:
  assumes "port_text port"
  obtains "port = []" | p where "port = CHR '':'' # p" "CHR '':'' \<notin> set p" "CHR ''@'' \<notin> set p"
  using assms by (auto simp: port_text_def split: list.splits)

lemma port_text_no_at: "port_text port \<Longrightarrow> CHR ''@'' \<notin> set port"
  by (erule port_text_cases) auto

lemma plain_host_free:
  "plain_host host \<Longrightarrow> CHR ''@'' \<notin> set host \<and> CHR '':'' \<notin> set host"
  by (auto simp: plain_host_def list_all_iff)

lemma user_info_len_decorated:
  assumes "user_info ui" "plain_host host" "port_text port"
  shows "user_info_len (ui @ host @ port) = length ui"
proof (cases "ui = []")
  case True
  have "CHR ''@'' \<notin> set (host @ port)" using assms plain_host_free port_text_no_at by auto
  then have "split_once CHR ''@'' (host @ port) = None" unfolding split_once_None .
  with True show ?thesis by (simp add: user_info_len_def del: split_once_None)
next
  case False
  with assms(1) obtain u where "ui = u @ ''@''" "CHR ''@'' \<notin> set u" by (auto simp: user_info_def)
  then show ?thesis using split_once_append [of "CHR ''@''" u "host @ port"]
    by (simp add: user_info_len_def)
qed

lemma replace_host_decorated:
  assumes "user_info ui" "plain_host host" "port_text port"
  shows "replace_host (ui @ host @ port) host name = ui @ name @ port"
proof (cases "ui @ host @ port = host")
  case True
  then have "length (ui @ host @ port) = length host" by (rule arg_cong)
  then have "ui = []" "port = []" by simp_all
  then show ?thesis by (simp add: replace_host_def)
next
  case False
  then show ?thesis using user_info_len_decorated [OF assms] by (simp add: replace_host_def)
qed

lemma host_port:
  assumes "user_info ui" "plain_host host" "port_text port"
  shows "last (split_on CHR ''@'' (ui @ host @ port)) = host @ port"
proof -
  have "CHR ''@'' \<notin> set (host @ port)"
    using assms plain_host_free port_text_no_at by auto
  then have free: "split_on CHR ''@'' (host @ port) = [host @ port]" by (rule split_on_free)
  with assms(1) show ?thesis
    using split_on_sep [of "CHR ''@''" _ "host @ port"] by (auto simp: user_info_def)
qed

lemma port_split:
  assumes "plain_host host"
  shows "rsplit_once CHR '':'' host = None"
    and "CHR '':'' \<notin> set p \<Longrightarrow> rsplit_once CHR '':'' (host @ CHR '':'' # p) = Some (host, p)"
proof -
  have "CHR '':'' \<notin> set (rev host)" using plain_host_free [OF assms] by simp
  then have "split_once CHR '':'' (rev host) = None" unfolding split_once_None .
  then show "rsplit_once CHR '':'' host = None" by (simp add: rsplit_once_def del: split_once_None)
  assume "CHR '':'' \<notin> set p"
  then show "rsplit_once CHR '':'' (host @ CHR '':'' # p) = Some (host, p)"
    using split_once_append [of "CHR '':''" "rev p" "rev host"] by (simp add: rsplit_once_def)
qed

lemma valid_name_host:
  assumes "is_valid_dns_name name"
  shows "plain_host name \<and> CHR ''~'' \<notin> set name \<and> to_ascii_lowercase name = name"
proof -
  have labels: "list_all valid_label (split_on CHR ''.'' name)"
    using assms by (rule valid_name_labels)
  have "c \<notin> {CHR ''@'', CHR '':'', CHR ''['', CHR '']''} \<and> c \<noteq> CHR ''~''" if "c \<in> set name" for c
    using valid_labels_bytes [OF labels that]
    by (auto simp: name_byte_def label_byte_def is_ascii_lowercase_def is_ascii_digit_def code_def)
  then show ?thesis using labels valid_labels_nonempty valid_labels_lower
    by (auto simp: plain_host_def list_all_iff)
qed

text \<open>The name a host stands for.\<close>

definition host_name :: "string option \<Rightarrow> string \<Rightarrow> string \<Rightarrow> bool" where
  "host_name base host name \<longleftrightarrow>
     (if host = ''~'' then \<exists>b. base = Some b \<and> normalize_name b = Some name
      else if CHR ''~'' \<in> set host
        then name = to_ascii_lowercase (replace_char CHR ''~'' DHTTP_SUFFIX host)
          \<and> is_valid_dns_name name
      else if dhttp_host host then normalize_name host = Some name
      else name = host)"

lemma replacement_host_Some:
  "replacement_host base host = Inr (Some name) \<Longrightarrow> host_name base host name \<and> is_valid_dns_name name"
  by (auto simp: replacement_host_def host_name_def Let_def split: if_splits option.splits
      dest: normalize_name_canonical simp: canonical_def)

lemma replacement_host_None:
  "replacement_host base host = Inr None \<Longrightarrow>
     CHR ''~'' \<notin> set host \<and> \<not> dhttp_host host \<and> host_name base host host"
  by (auto simp: replacement_host_def host_name_def Let_def split: if_splits option.splits)

lemma dhttp_host_canonical:
  assumes "is_valid_dns_name name" "dhttp_host name"
  shows "canonical name"
proof -
  have "to_ascii_lowercase (drop k name) = drop k (to_ascii_lowercase name)" for k
    by (simp add: to_ascii_lowercase_def drop_map)
  moreover have "to_ascii_lowercase DHTTP_SUFFIX = DHTTP_SUFFIX" by code_simp
  ultimately have "drop (length name - length DHTTP_SUFFIX) name = DHTTP_SUFFIX"
    using assms valid_name_host [OF assms(1)]
    by (simp add: dhttp_host_def eq_ignore_ascii_case_def)
  with assms show ?thesis by (simp add: canonical_def ends_with_def dhttp_host_def)
qed

lemma replacement_host_again:
  assumes "is_valid_dns_name name"
  shows "replacement_host base name = Inr (if dhttp_host name then Some name else None)"
proof -
  have "CHR ''~'' \<notin> set name" using valid_name_host [OF assms] by simp
  then have "name \<noteq> ''~''" by auto
  then show ?thesis
    using \<open>CHR ''~'' \<notin> set name\<close> normalize_name_id [OF dhttp_host_canonical [OF assms]]
    by (simp add: replacement_host_def)
qed

lemma expand_authority_decorated:
  assumes h: "http_contract h" and ui: "user_info ui" and host: "plain_host host"
    and port: "port_text port"
    and expand: "expand_authority_with_base h base (ui @ host @ port) = Inr a"
  obtains name where "a = ui @ name @ port" "host_name base host name" "plain_host name"
    "CHR ''~'' \<notin> set name" "\<And>b. expand_authority_with_base h b a = Inr a"
proof -
  have at: "authority_host h (ui @ x @ port) = x" if "plain_host x" for x
    using h ui port that by (auto simp: http_contract_def)
  have parsed: "parse_authority h s = Inr a' \<Longrightarrow> a' = s" for s a'
    using h by (simp add: http_contract_def)
  have "replacement_host base host \<noteq> Inl e" for e
    using expand at [OF host] by (auto simp: expand_authority_with_base_def)
  then obtain r where r: "replacement_host base host = Inr r"
    by (cases "replacement_host base host") auto
  show thesis
  proof (cases r)
    case None
    then have a: "a = ui @ host @ port"
      using expand r at [OF host] by (simp add: expand_authority_with_base_def)
    have facts: "CHR ''~'' \<notin> set host" "\<not> dhttp_host host" "host_name base host host"
      using replacement_host_None r None by auto
    then have "replacement_host b host = Inr None" for b by (auto simp: replacement_host_def)
    then have "expand_authority_with_base h b a = Inr a" for b
      using a at [OF host] by (simp add: expand_authority_with_base_def)
    then show thesis using that [OF a] facts host by blast
  next
    case (Some name)
    then have parse: "parse_authority h (ui @ name @ port) = Inr a"
      using expand r at [OF host] replace_host_decorated [OF ui host port]
      by (simp add: expand_authority_with_base_def)
    then have a: "a = ui @ name @ port" using parsed by blast
    have facts: "host_name base host name" "is_valid_dns_name name"
      using replacement_host_Some r Some by auto
    have name: "plain_host name" "CHR ''~'' \<notin> set name" using valid_name_host [OF facts(2)] by auto
    have "expand_authority_with_base h b a = Inr a" for b
      using a parse at [OF name(1)] replacement_host_again [OF facts(2)]
        replace_host_decorated [OF ui name(1) port]
      by (simp add: expand_authority_with_base_def)
    then show thesis using that [OF a facts(1) name] by blast
  qed
qed

text \<open>What a request is routed to, for its authority host and the port text behind it.\<close>

definition routed :: "string \<Rightarrow> string \<Rightarrow> string \<Rightarrow> bool" where
  "routed name port remote \<longleftrightarrow>
     (let host = to_ascii_lowercase (strip_suffix_or ''.'' name)
      in if ends_with DHTTP_SUFFIX host \<or> port = [] then remote = host
         else \<exists>p. parse_uint 65535 (tl port) = Inr p \<and> 0 < p \<and> p \<le> 65535
                \<and> remote = host @ '':'' @ show_nat p)"

lemma request_remote_routed:
  assumes "user_info ui" "plain_host name" "port_text port"
    and "request_remote (ui @ name @ port) name = Inr remote"
  shows "routed name port remote"
  using assms(3)
proof (cases rule: port_text_cases)
  case 1
  then show ?thesis using assms(4) port_split(1) [OF assms(2)] host_port [OF assms(1-3)]
    by (simp add: request_remote_def routed_def Let_def split: if_splits)
next
  case (2 p)
  then show ?thesis
    using assms(4) port_split(2) [OF assms(2) 2(2)] host_port [OF assms(1-3)]
    by (auto simp: request_remote_def routed_def Let_def checked_port_def and_then_eq_Inr
        dest: parse_uint_bound split: if_splits sum.splits)
qed

lemma resolve_request_uri_name:
  assumes h: "http_contract h"
    and u: "uri_authority u = Some (ui @ host @ port)"
    and parts: "user_info ui" "plain_host host" "port_text port"
    and resolve: "resolve_request_uri h base u = Inr (v, remote)"
  shows "\<exists>name. v = u\<lparr>uri_authority := Some (ui @ name @ port)\<rparr> \<and> host_name base host name
    \<and> CHR ''~'' \<notin> set name \<and> CHR ''_'' \<notin> set name \<and> dns_server_name h name
    \<and> routed name port remote \<and> (\<forall>b. resolve_request_uri h b v = Inr (v, remote))"
proof -
  obtain a where a: "expand_authority_with_base h base (ui @ host @ port) = Inr a"
    and made: "uri_from_parts h (u\<lparr>uri_authority := Some a\<rparr>) = Inr v"
  proof -
    obtain x where "expand_uri_with_base h base u = Inr x" "x = v"
      using resolve by (auto simp: resolve_request_uri_def Let_def and_then_eq_Inr
          split: option.splits if_splits)
    then show ?thesis
      using that u by (auto simp: expand_uri_with_base_def and_then_eq_Inr)
  qed
  have v: "v = u\<lparr>uri_authority := Some a\<rparr>" using h made by (simp add: http_contract_def)
  obtain name where name: "a = ui @ name @ port" "host_name base host name" "plain_host name"
    "CHR ''~'' \<notin> set name" and again: "\<And>b. expand_authority_with_base h b a = Inr a"
    using expand_authority_decorated [OF h parts a] by metis
  have at: "authority_host h a = name"
    using h parts name by (simp add: http_contract_def)
  have expanded: "expand_uri_with_base h base u = Inr v" "expand_uri_with_base h b v = Inr v" for b
    using u a made v again by (simp_all add: expand_uri_with_base_def)
  have "CHR ''_'' \<notin> set name" "dns_server_name h name" "request_remote a name = Inr remote"
    using resolve expanded(1) v at
    by (auto simp: resolve_request_uri_def Let_def and_then_eq_Inr split: if_splits)
  moreover have "resolve_request_uri h b v = Inr (v, remote)" for b
    using resolve expanded by (simp add: resolve_request_uri_def)
  ultimately show ?thesis
    using v name request_remote_routed [OF parts(1) name(3) parts(3)] by blast
qed

section \<open>Properties\<close>

text \<open>C23: A request is sent where its URI says.  Given what \<open>http\<close> documents of an authority, a resolved
  URI differs from the given one in the host only: the user information and the port keep their text, the
  host is the name it stands for, with every \<open>~\<close> expanded, valid as a DNS name and without an underscore.
  The request goes to that name in lower case without a final dot: alone when it is a DHTTP name, whose
  port text is a sequence number, and otherwise with the port, which is between 1 and 65535.  Resolving
  the result again, under any local name, changes nothing.\<close>
theorem request_uri_resolved:
  assumes h: "http_contract h"
    and u: "uri_authority u = Some (ui @ host @ port)"
    and parts: "user_info ui" "plain_host host" "port_text port"
    and resolve: "resolve_request_uri h base u = Inr (v, remote)"
  shows "\<exists>name. v = u\<lparr>uri_authority := Some (ui @ name @ port)\<rparr> \<and> host_name base host name
    \<and> CHR ''~'' \<notin> set name \<and> CHR ''_'' \<notin> set name \<and> dns_server_name h name
    \<and> routed name port remote \<and> (\<forall>b. resolve_request_uri h b v = Inr (v, remote))"
  by (rule resolve_request_uri_name [OF assms])

text \<open>An instance of the parameters, for the example.\<close>

definition plain_http :: http_crate where
  "plain_http = \<lparr>authority_host = (\<lambda>s. takeWhile (\<lambda>c. c \<noteq> CHR '':'') (last (split_on CHR ''@'' s))),
     parse_authority = Inr, uri_from_parts = Inr, dns_server_name = (\<lambda>s. s \<noteq> [])\<rparr>"

lemma plain_http_contract: "http_contract plain_http"
proof -
  have "takeWhile (\<lambda>c. c \<noteq> CHR '':'') (host @ port) = host" if "plain_host host" "port_text port" for host port
    using that(2) plain_host_free [OF that(1)]
    by (cases rule: port_text_cases) (auto simp: takeWhile_append)
  then show ?thesis by (auto simp: http_contract_def plain_http_def host_port)
qed

lemma two_at_signs:
  "expand_authority_with_base plain_http None ''a@b@bob~'' = Inr ''a@bob.dhttp.netb~''"
  by code_simp

theorem request_uri_resolved_witness:
  "resolve_request_uri plain_http None
     \<lparr>uri_scheme = Some ''https'', uri_authority = Some ''alice@Reimu.Pilot~:443'', uri_path = Some ''/api''\<rparr>
     = Inr (\<lparr>uri_scheme = Some ''https'', uri_authority = Some ''alice@reimu.pilot.dhttp.net:443'',
              uri_path = Some ''/api''\<rparr>, ''reimu.pilot.dhttp.net'')
   \<and> (\<exists>name. host_name None ''Reimu.Pilot~'' name \<and> routed name '':443'' ''reimu.pilot.dhttp.net'')"
proof -
  let ?u = "\<lparr>uri_scheme = Some ''https'', uri_authority = Some ''alice@Reimu.Pilot~:443'', uri_path = Some ''/api''\<rparr>"
  let ?v = "\<lparr>uri_scheme = Some ''https'', uri_authority = Some ''alice@reimu.pilot.dhttp.net:443'', uri_path = Some ''/api''\<rparr>"
  have r: "resolve_request_uri plain_http None ?u = Inr (?v, ''reimu.pilot.dhttp.net'')" by code_simp
  have "user_info ''alice@''" "plain_host ''Reimu.Pilot~''" "port_text '':443''"
    by (auto simp: user_info_def plain_host_def port_text_def intro!: exI [of _ "''alice''"])
  from request_uri_resolved [OF plain_http_contract _ this r] show ?thesis using r by auto
qed

end
