(* ===== verification/Lifecycle.thy ===== *)
theory Lifecycle
  imports Errors
begin

text \<open>
  The lifetime of the operations behind an SDK handle: the crate \<open>dhttp-api\<close>, file
  \<open>api/src/lifecycle.rs\<close>.  A \<open>Scope\<close> is the handle's switch, its cancellation token and its task
  tracker; a child token is cancelled when it or its parent is.  Concurrent tasks are interleaved at the
  accesses to the shared cells: one poll of a future is one step, and \<open>close\<close>, which touches three cells,
  is three steps and a wait.
\<close>

named_theorems operation_simps \<open>the operations of an operation state\<close>

section \<open>Operations\<close>

text \<open>\<open>OperationState\<close>: whether its own token is cancelled, whether the token is a child of an owner's,
  and the first error.\<close>

record operation_state =
  own_cancel :: bool
  owner_cancel :: bool
  first_error :: "sdk_error option"

definition operation_new :: operation_state where
  "operation_new = \<lparr>own_cancel = False, owner_cancel = False, first_error = None\<rparr>"

definition owned_by :: operation_state where
  "owned_by = \<lparr>own_cancel = False, owner_cancel = True, first_error = None\<rparr>"

text \<open>The state \<open>owner\<close> of the owner's token is an argument.\<close>

definition is_cancelled :: "bool \<Rightarrow> operation_state \<Rightarrow> bool" where
  "is_cancelled owner p \<longleftrightarrow> own_cancel p \<or> owner_cancel p \<and> owner"

definition operation_fail :: "sdk_error \<Rightarrow> operation_state \<Rightarrow> operation_state" where
  "operation_fail e p =
     p\<lparr>first_error := Some (case first_error p of Some e' \<Rightarrow> e' | None \<Rightarrow> e), own_cancel := True\<rparr>"

definition handle_closed :: sdk_error where
  "handle_closed = sdk_new CodeClosed ''SDK handle is closed''"

definition operation_error :: "bool \<Rightarrow> operation_state \<Rightarrow> sdk_error" where
  "operation_error owner p =
     (case first_error p of
        Some e \<Rightarrow> e
      | None \<Rightarrow> if owner_cancel p \<and> owner then handle_closed else sdk_cancelled)"

text \<open>One poll of \<open>run\<close>: the cancellation is looked at first; \<open>None\<close> is a pending future.\<close>

definition run_poll ::
    "bool \<Rightarrow> operation_state \<Rightarrow> (sdk_error + 'a) option \<Rightarrow> (sdk_error + 'a) option" where
  "run_poll owner p future =
     (if is_cancelled owner p then Some (Inl (operation_error owner p)) else future)"

lemma operation_state_simps [operation_simps]:
  "own_cancel (operation_fail e p)"
  "owner_cancel (operation_fail e p) = owner_cancel p"
  "first_error (operation_fail e p) \<noteq> None"
  "is_cancelled owner (operation_fail e p)"
  "\<not> is_cancelled owner operation_new"
  "is_cancelled owner owned_by = owner"
  by (simp_all add: operation_fail_def is_cancelled_def operation_new_def owned_by_def)

lemma operation_fail_twice [operation_simps]:
  "operation_fail e (operation_fail e' p) = operation_fail e' p"
  by (simp add: operation_fail_def)

lemma operation_error_first [operation_simps]:
  "operation_error owner (operation_fail e p) = (case first_error p of Some e' \<Rightarrow> e' | None \<Rightarrow> e)"
  by (simp add: operation_error_def operation_fail_def)

section \<open>Scopes\<close>

text \<open>\<open>tracked\<close> counts the tokens of the task tracker that are alive.\<close>

record scope =
  scope_closed :: bool
  scope_cancelled :: bool
  tracker_closed :: bool
  tracked :: nat

definition scope_new :: scope where
  "scope_new = \<lparr>scope_closed = False, scope_cancelled = False, tracker_closed = False, tracked = 0\<rparr>"

definition ensure_open :: "scope \<Rightarrow> sdk_error + unit" where
  "ensure_open s = (if scope_closed s then Inl handle_closed else Inr ())"

definition register :: "scope \<Rightarrow> (sdk_error + operation_state) \<times> scope" where
  "register s =
     (if scope_closed s then (Inl handle_closed, s)
      else (Inr owned_by, s\<lparr>tracked := tracked s + 1\<rparr>))"

definition drop_operation :: "scope \<Rightarrow> scope" where
  "drop_operation s = s\<lparr>tracked := tracked s - 1\<rparr>"

text \<open>The three statements of \<open>cancel\<close>, and the wait of \<open>close\<close>.\<close>

definition set_closed :: "scope \<Rightarrow> scope" where
  "set_closed s = s\<lparr>scope_closed := True\<rparr>"

definition cancel_token :: "scope \<Rightarrow> scope" where
  "cancel_token s = s\<lparr>scope_cancelled := True\<rparr>"

definition close_tracker :: "scope \<Rightarrow> scope" where
  "close_tracker s = s\<lparr>tracker_closed := True\<rparr>"

definition scope_cancel :: "scope \<Rightarrow> scope" where
  "scope_cancel s = close_tracker (cancel_token (set_closed s))"

definition wait_ready :: "scope \<Rightarrow> bool" where
  "wait_ready s \<longleftrightarrow> tracker_closed s \<and> tracked s = 0"

lemmas scope_defs = register_def drop_operation_def set_closed_def cancel_token_def
  close_tracker_def wait_ready_def

section \<open>A handle and its tasks\<close>

datatype closer = Entered | Flagged | Cancelled | Waiting | Returned

text \<open>The operations registered so far, each with whether it is alive, and the calls of \<open>close\<close>.\<close>

record handle =
  handle_scope :: scope
  operations :: "(bool \<times> operation_state) list"
  closers :: "closer list"

definition handle_new :: handle where
  "handle_new = \<lparr>handle_scope = scope_new, operations = [], closers = []\<rparr>"

definition live :: "handle \<Rightarrow> nat" where
  "live h = length (filter fst (operations h))"

inductive handle_step :: "handle \<Rightarrow> handle \<Rightarrow> bool" where
  registered: "register (handle_scope h) = (Inr p, s) \<Longrightarrow>
    handle_step h (h\<lparr>handle_scope := s, operations := operations h @ [(True, p)]\<rparr>)"
| failed: "i < length (operations h) \<Longrightarrow> operations h ! i = (alive, p) \<Longrightarrow>
    handle_step h (h\<lparr>operations := (operations h)[i := (alive, operation_fail e p)]\<rparr>)"
| dropped: "i < length (operations h) \<Longrightarrow> operations h ! i = (True, p) \<Longrightarrow>
    handle_step h (h\<lparr>handle_scope := drop_operation (handle_scope h),
                     operations := (operations h)[i := (False, p)]\<rparr>)"
| close_called: "handle_step h (h\<lparr>closers := closers h @ [Entered]\<rparr>)"
| close_flagged: "i < length (closers h) \<Longrightarrow> closers h ! i = Entered \<Longrightarrow>
    handle_step h (h\<lparr>handle_scope := set_closed (handle_scope h), closers := (closers h)[i := Flagged]\<rparr>)"
| close_cancelled: "i < length (closers h) \<Longrightarrow> closers h ! i = Flagged \<Longrightarrow>
    handle_step h (h\<lparr>handle_scope := cancel_token (handle_scope h), closers := (closers h)[i := Cancelled]\<rparr>)"
| close_tracked: "i < length (closers h) \<Longrightarrow> closers h ! i = Cancelled \<Longrightarrow>
    handle_step h (h\<lparr>handle_scope := close_tracker (handle_scope h), closers := (closers h)[i := Waiting]\<rparr>)"
| close_returned: "i < length (closers h) \<Longrightarrow> closers h ! i = Waiting \<Longrightarrow> wait_ready (handle_scope h) \<Longrightarrow>
    handle_step h (h\<lparr>closers := (closers h)[i := Returned]\<rparr>)"

text \<open>What the place of a call of \<open>close\<close> says of the scope.\<close>

fun closer_ok :: "scope \<Rightarrow> closer \<Rightarrow> bool" where
  "closer_ok s Entered = True"
| "closer_ok s Flagged = scope_closed s"
| "closer_ok s Cancelled = (scope_closed s \<and> scope_cancelled s)"
| "closer_ok s Waiting = (scope_closed s \<and> scope_cancelled s \<and> tracker_closed s)"
| "closer_ok s Returned = (scope_closed s \<and> scope_cancelled s \<and> wait_ready s)"

definition handle_ok :: "handle \<Rightarrow> bool" where
  "handle_ok h \<longleftrightarrow>
     tracked (handle_scope h) = live h
     \<and> list_all (closer_ok (handle_scope h)) (closers h)
     \<and> list_all (\<lambda>(alive, p). owner_cancel p) (operations h)"

lemma list_all_update: "list_all P xs \<Longrightarrow> P y \<Longrightarrow> list_all P (xs[i := y])"
  by (auto simp: list_all_iff dest!: set_update_subset_insert [THEN subsetD])

lemma list_all_at: "list_all P xs \<Longrightarrow> i < length xs \<Longrightarrow> P (xs ! i)"
  by (simp add: list_all_length)

lemma closer_ok_mono:
  assumes "closer_ok s c" "scope_closed s \<longrightarrow> scope_closed s'" "scope_cancelled s \<longrightarrow> scope_cancelled s'"
    and "tracker_closed s \<longrightarrow> tracker_closed s'" "scope_closed s \<longrightarrow> tracked s' \<le> tracked s"
  shows "closer_ok s' c"
  using assms by (cases c) (auto simp: wait_ready_def)

lemma closers_mono:
  assumes "list_all (closer_ok s) cs" "scope_closed s \<longrightarrow> scope_closed s'"
    and "scope_cancelled s \<longrightarrow> scope_cancelled s'" "tracker_closed s \<longrightarrow> tracker_closed s'"
    and "scope_closed s \<longrightarrow> tracked s' \<le> tracked s"
  shows "list_all (closer_ok s') cs"
  using assms(1) by (rule list.pred_mono_strong) (rule closer_ok_mono [OF _ assms(2-5)])

lemma live_update:
  assumes "i < length ops" "ops ! i = (a, p)"
  shows "length (filter fst (ops[i := (b, q)])) + (if a then 1 else 0) =
    length (filter fst ops) + (if b then 1 else 0)"
proof -
  have "filter fst ops = filter fst (take i ops) @ filter fst ((a, p) # drop (Suc i) ops)"
    using assms id_take_nth_drop filter_append by metis
  moreover have "ops[i := (b, q)] = take i ops @ (b, q) # drop (Suc i) ops"
    using assms(1) by (simp add: upd_conv_take_nth_drop)
  ultimately show ?thesis by simp
qed

lemma handle_step_ok:
  assumes "handle_step h h'" "handle_ok h"
  shows "handle_ok h'"
  using assms
proof cases
  case (registered p s)
  have "list_all (closer_ok s) (closers h)"
    by (rule closers_mono) (use registered assms(2) in \<open>auto simp: handle_ok_def register_def split: if_splits\<close>)
  then show ?thesis using registered assms(2)
    by (auto simp: handle_ok_def live_def register_def owned_by_def split: if_splits)
next
  case (failed i alive p e)
  have "owner_cancel p" using failed assms(2) list_all_at [of _ "operations h" i]
    by (fastforce simp: handle_ok_def)
  then show ?thesis using failed assms(2) live_update [OF failed(2,3), of alive "operation_fail e p"]
    by (auto simp: handle_ok_def live_def operation_simps intro: list_all_update)
next
  case (dropped i p)
  have "owner_cancel p" using dropped assms(2) list_all_at [of _ "operations h" i]
    by (fastforce simp: handle_ok_def)
  moreover have "list_all (closer_ok (drop_operation (handle_scope h))) (closers h)"
    by (rule closers_mono) (use assms(2) in \<open>auto simp: handle_ok_def drop_operation_def\<close>)
  ultimately show ?thesis using dropped assms(2) live_update [OF dropped(2,3), of False p]
    by (auto simp: handle_ok_def live_def drop_operation_def intro: list_all_update)
next
  case close_called
  then show ?thesis using assms(2) by (simp add: handle_ok_def live_def)
next
  case (close_flagged i)
  have "list_all (closer_ok (set_closed (handle_scope h))) (closers h)"
    by (rule closers_mono) (use assms(2) in \<open>auto simp: handle_ok_def set_closed_def\<close>)
  then show ?thesis using close_flagged assms(2)
    by (auto simp: handle_ok_def live_def set_closed_def intro: list_all_update)
next
  case (close_cancelled i)
  have "list_all (closer_ok (cancel_token (handle_scope h))) (closers h)"
    by (rule closers_mono) (use assms(2) in \<open>auto simp: handle_ok_def cancel_token_def\<close>)
  then show ?thesis using close_cancelled assms(2) list_all_at [of _ "closers h" i]
    by (fastforce simp: handle_ok_def live_def cancel_token_def intro: list_all_update)
next
  case (close_tracked i)
  have "list_all (closer_ok (close_tracker (handle_scope h))) (closers h)"
    by (rule closers_mono) (use assms(2) in \<open>auto simp: handle_ok_def close_tracker_def\<close>)
  then show ?thesis using close_tracked assms(2) list_all_at [of _ "closers h" i]
    by (fastforce simp: handle_ok_def live_def close_tracker_def intro: list_all_update)
next
  case (close_returned i)
  then show ?thesis using assms(2) list_all_at [of _ "closers h" i]
    by (fastforce simp: handle_ok_def live_def intro: list_all_update)
qed

lemma handle_steps_ok: "handle_step\<^sup>*\<^sup>* h h' \<Longrightarrow> handle_ok h \<Longrightarrow> handle_ok h'"
  by (induction rule: rtranclp_induct) (auto intro: handle_step_ok)

lemma handle_new_ok: "handle_ok handle_new"
  by (simp add: handle_ok_def handle_new_def live_def scope_new_def)

lemma closed_stays: "handle_step\<^sup>*\<^sup>* h h' \<Longrightarrow> scope_closed (handle_scope h) \<Longrightarrow>
    scope_closed (handle_scope h') \<and> length (operations h') = length (operations h)"
proof (induction rule: rtranclp_induct)
  case (step y z)
  from step(2,3,4) show ?case by cases (auto simp: scope_defs split: if_splits)
qed simp

lemma first_error_stays:
  "handle_step\<^sup>*\<^sup>* h h' \<Longrightarrow> i < length (operations h) \<Longrightarrow>
     first_error (snd (operations h ! i)) = Some e \<Longrightarrow>
     i < length (operations h') \<and> first_error (snd (operations h' ! i)) = Some e"
proof (induction rule: rtranclp_induct)
  case (step y z)
  from step(2,3,4,5) show ?case
    by cases (auto simp: nth_append nth_list_update operation_fail_def)
qed simp

lemma closed_operation_poll:
  assumes "handle_ok h" "scope_cancelled (handle_scope h)" "(alive, p) \<in> set (operations h)"
  shows "run_poll (scope_cancelled (handle_scope h)) p future
    = Some (Inl (case first_error p of Some e \<Rightarrow> e | None \<Rightarrow> handle_closed))"
  using assms by (auto simp: run_poll_def is_cancelled_def operation_error_def handle_ok_def list_all_iff)

lemma update_stays: "x \<in> set xs \<Longrightarrow> xs ! i \<noteq> x \<Longrightarrow> x \<in> set (xs[i := y])"
  by (metis in_set_conv_nth length_list_update nth_list_update_neq)

lemma returned_stays:
  "handle_step\<^sup>*\<^sup>* h h' \<Longrightarrow> Returned \<in> set (closers h) \<Longrightarrow> Returned \<in> set (closers h')"
proof (induction rule: rtranclp_induct)
  case (step y z)
  from step(2,3,4) show ?case
    by cases (auto intro: update_stays set_update_memI)
qed simp

section \<open>Properties\<close>

text \<open>C26: A closed handle is final.  Once a call of \<open>close\<close> has returned, in whatever order the tasks
  behind the handle and other calls of \<open>close\<close> ran and go on running, no operation is alive and none is
  ever registered again: registering is refused with the category of a closed handle.  Whatever is polled
  of an operation of the handle then ends with its first error or with that category, and the first error
  of an operation never changes.\<close>
theorem close_is_final:
  assumes before: "handle_step\<^sup>*\<^sup>* handle_new h" and returned: "Returned \<in> set (closers h)"
    and after: "handle_step\<^sup>*\<^sup>* h h'"
  shows "live h' = 0 \<and> tracked (handle_scope h') = 0
    \<and> length (operations h') = length (operations h)
    \<and> register (handle_scope h') = (Inl handle_closed, handle_scope h')
    \<and> ensure_open (handle_scope h') = Inl handle_closed
    \<and> (\<forall>(alive, p) \<in> set (operations h'). \<forall>future :: (sdk_error + 'a) option.
         run_poll (scope_cancelled (handle_scope h')) p future
           = Some (Inl (case first_error p of Some e \<Rightarrow> e | None \<Rightarrow> handle_closed)))
    \<and> (\<forall>i < length (operations h). \<forall>e. first_error (snd (operations h ! i)) = Some e
         \<longrightarrow> first_error (snd (operations h' ! i)) = Some e)"
proof -
  have ok: "handle_ok h" using handle_steps_ok [OF before handle_new_ok] .
  then have s: "closer_ok (handle_scope h) Returned" using returned
    by (auto simp: handle_ok_def list_all_iff)
  have ok': "handle_ok h'" using handle_steps_ok [OF after ok] .
  have closed: "scope_closed (handle_scope h')" "length (operations h') = length (operations h)"
    using closed_stays [OF after] s by auto
  have s': "closer_ok (handle_scope h') Returned"
    using returned_stays [OF after returned] ok' by (auto simp: handle_ok_def list_all_iff)
  then have "live h' = 0" "tracked (handle_scope h') = 0" "scope_cancelled (handle_scope h')"
    using ok' by (auto simp: wait_ready_def handle_ok_def)
  then show ?thesis
    using closed closed_operation_poll [OF ok'] first_error_stays [OF after]
    by (auto simp: register_def ensure_open_def)
qed

text \<open>A handle with one operation, closed while the operation runs.\<close>

definition closed_run :: "handle list" where
  "closed_run =
     (let s = snd (register scope_new); p = owned_by; f = set_closed s; c = cancel_token f;
          t = close_tracker c; d = drop_operation t
      in [handle_new,
          \<lparr>handle_scope = s, operations = [(True, p)], closers = []\<rparr>,
          \<lparr>handle_scope = s, operations = [(True, p)], closers = [Entered]\<rparr>,
          \<lparr>handle_scope = f, operations = [(True, p)], closers = [Flagged]\<rparr>,
          \<lparr>handle_scope = c, operations = [(True, p)], closers = [Cancelled]\<rparr>,
          \<lparr>handle_scope = t, operations = [(True, p)], closers = [Waiting]\<rparr>,
          \<lparr>handle_scope = d, operations = [(False, p)], closers = [Waiting]\<rparr>,
          \<lparr>handle_scope = d, operations = [(False, p)], closers = [Returned]\<rparr>])"

lemma closed_run_steps: "i < 7 \<Longrightarrow> handle_step (closed_run ! i) (closed_run ! Suc i)"
proof -
  assume "i < 7"
  then have "i = 0 \<or> i = 1 \<or> i = 2 \<or> i = 3 \<or> i = 4 \<or> i = 5 \<or> i = 6" by linarith
  then show ?thesis
    using registered [of handle_new owned_by "snd (register scope_new)"]
      close_called [of "closed_run ! 1"] close_flagged [of 0 "closed_run ! 2"]
      close_cancelled [of 0 "closed_run ! 3"] close_tracked [of 0 "closed_run ! 4"]
      dropped [of 0 "closed_run ! 5" owned_by] close_returned [of 0 "closed_run ! 6"]
    by (auto simp: closed_run_def Let_def handle_new_def scope_new_def scope_defs)
qed

lemma closed_run_reachable: "handle_step\<^sup>*\<^sup>* handle_new (closed_run ! 7)"
proof -
  have "n \<le> 7 \<Longrightarrow> handle_step\<^sup>*\<^sup>* handle_new (closed_run ! n)" for n
  proof (induction n)
    case (Suc n)
    then show ?case using closed_run_steps [of n] by (auto intro: rtranclp.rtrancl_into_rtrancl)
  qed (simp add: closed_run_def Let_def)
  then show ?thesis by simp
qed

theorem close_is_final_witness:
  "register (handle_scope (closed_run ! 7)) = (Inl handle_closed, handle_scope (closed_run ! 7))
   \<and> run_poll True owned_by (Some (Inr ''late'')) = Some (Inl handle_closed)"
proof -
  have "Returned \<in> set (closers (closed_run ! 7))" "(False, owned_by) \<in> set (operations (closed_run ! 7))"
    "scope_cancelled (handle_scope (closed_run ! 7))"
    by (simp_all add: closed_run_def Let_def scope_new_def scope_defs)
  then show ?thesis
    using close_is_final [OF closed_run_reachable, of "closed_run ! 7", where 'a = string]
    by (fastforce simp: owned_by_def)
qed

end
