(* ===== verification/Uploads.thy ===== *)
theory Uploads
  imports Lifecycle
begin

text \<open>
  The upload bridge of the SDK: the crate \<open>dhttp-api\<close>, file \<open>api/src/stream.rs\<close>, \<open>upload_channel\<close>,
  \<open>UploadWriter\<close> and \<open>UploadBody\<close>.  The state is the channel, the mutex with its sender, the operation
  state and the call that holds the mutex; an action is the poll of one side, the drop of a future or of
  a guard.  Dropping a call drops its inner future, and with it the mutex guard, before the guard that
  fails the operation: these are two actions.
\<close>

type_synonym header_map = "(string \<times> string) list"

definition CHUNK_BYTES :: nat where
  "CHUNK_BYTES = 16 * 1024"

definition QUEUED_CHUNKS :: nat where
  "QUEUED_CHUNKS = 4"

section \<open>The bridge\<close>

datatype upload_frame = Data string | Finish header_map

text \<open>\<open>slice::chunks\<close>\<close>

function chunks :: "nat \<Rightarrow> string \<Rightarrow> string list" where
  "chunks n bytes = (if n = 0 \<or> bytes = [] then [] else take n bytes # chunks n (drop n bytes))"
  by auto
termination by (relation "measure (\<lambda>(n, bytes). length bytes)") auto

declare chunks.simps [simp del]

text \<open>The call that holds the mutex: a send with its bytes and the chunks not yet sent, or a finish.\<close>

datatype writer_call = Sending string "string list" | Finishing header_map

record upload =
  writer_alive :: bool
  sender :: bool
  holder :: "writer_call option"
  leaving :: nat
  upload_op :: operation_state
  queue :: "upload_frame list"
  receiver_open :: bool
  ended :: bool

definition upload_channel :: upload where
  "upload_channel = \<lparr>writer_alive = True, sender = True, holder = None, leaving = 0,
     upload_op = operation_new, queue = [], receiver_open = True, ended = False\<rparr>"

text \<open>What an action shows: the result of a call, or what the body yields.\<close>

datatype upload_event = Quiet | Accepted string | Rejected sdk_error | Finished header_map
  | Abandoned | Yielded string | Ended header_map | Broken sdk_error

section \<open>The writer\<close>

definition upload_finished :: sdk_error where
  "upload_finished = sdk_new CodeClosed ''upload finished''"

definition consumer_closed :: sdk_error where
  "consumer_closed = sdk_new CodeClosed ''upload consumer closed''"

definition begin_call :: "writer_call \<Rightarrow> upload \<Rightarrow> (upload_event \<times> upload) option" where
  "begin_call c u =
     (if \<not> writer_alive u then None
      else if is_cancelled False (upload_op u)
        then Some (Rejected (operation_error False (upload_op u)), u)
      else if holder u \<noteq> None then None
      else if \<not> sender u then Some (Rejected upload_finished, u)
      else Some (Quiet, u\<lparr>holder := Some c\<rparr>))"

definition send :: "string \<Rightarrow> upload \<Rightarrow> (upload_event \<times> upload) option" where
  "send bytes = begin_call (Sending bytes (chunks CHUNK_BYTES bytes))"

definition finish_upload :: "header_map \<Rightarrow> upload \<Rightarrow> (upload_event \<times> upload) option" where
  "finish_upload trailers = begin_call (Finishing trailers)"

text \<open>One step of the call that holds the mutex, when it can move.  A poll looks at the cancellation once
  and may then send several chunks, so a step does not look again; \<open>cancel_call\<close> is the poll that sees it.\<close>

definition resume_call :: "upload \<Rightarrow> (upload_event \<times> upload) option" where
  "resume_call u =
     (case holder u of
        None \<Rightarrow> None
      | Some (Sending bytes []) \<Rightarrow> Some (Accepted bytes, u\<lparr>holder := None\<rparr>)
      | Some (Sending bytes (c # cs)) \<Rightarrow>
          if \<not> receiver_open u then Some (Rejected consumer_closed, u\<lparr>holder := None\<rparr>)
          else if length (queue u) < QUEUED_CHUNKS
            then Some (Quiet, u\<lparr>queue := queue u @ [Data c], holder := Some (Sending bytes cs)\<rparr>)
          else None
      | Some (Finishing trailers) \<Rightarrow>
          if \<not> receiver_open u then Some (Rejected consumer_closed, u\<lparr>holder := None\<rparr>)
          else if length (queue u) < QUEUED_CHUNKS
            then Some (Finished trailers, u\<lparr>queue := queue u @ [Finish trailers], sender := False, holder := None\<rparr>)
          else None)"

definition cancel_call :: "upload \<Rightarrow> (upload_event \<times> upload) option" where
  "cancel_call u =
     (if holder u \<noteq> None \<and> is_cancelled False (upload_op u)
      then Some (Rejected (operation_error False (upload_op u)), u\<lparr>holder := None\<rparr>) else None)"

definition fail_upload :: "sdk_error \<Rightarrow> upload \<Rightarrow> upload" where
  "fail_upload e u = u\<lparr>upload_op := operation_fail e (upload_op u)\<rparr>"

text \<open>The drop of an unfinished call: the inner future, then the guard.\<close>

definition abandon_call :: "upload \<Rightarrow> (upload_event \<times> upload) option" where
  "abandon_call u =
     (if holder u \<noteq> None then Some (Abandoned, u\<lparr>holder := None, leaving := leaving u + 1\<rparr>) else None)"

definition abandon_waiting :: "upload \<Rightarrow> (upload_event \<times> upload) option" where
  "abandon_waiting u =
     (if writer_alive u then Some (Abandoned, u\<lparr>leaving := leaving u + 1\<rparr>) else None)"

definition drop_guard :: "upload \<Rightarrow> (upload_event \<times> upload) option" where
  "drop_guard u =
     (if leaving u = 0 then None
      else Some (Quiet, fail_upload sdk_cancelled (u\<lparr>leaving := leaving u - 1\<rparr>)))"

definition drop_writer :: "upload \<Rightarrow> (upload_event \<times> upload) option" where
  "drop_writer u =
     (if writer_alive u \<and> holder u = None \<and> leaving u = 0
      then Some (Quiet, u\<lparr>writer_alive := False, sender := False\<rparr>) else None)"

text \<open>The future of \<open>closed\<close> is ready: it takes the mutex and clones the sender; without a sender it is done, with
  the clone it waits for the receiver.\<close>

definition upload_closed :: "bool \<Rightarrow> upload \<Rightarrow> bool" where
  "upload_closed cloned u \<longleftrightarrow>
     (if cloned then \<not> receiver_open u else holder u = None \<and> (\<not> sender u \<or> \<not> receiver_open u))"

definition closed_clones :: "upload \<Rightarrow> bool" where
  "closed_clones u \<longleftrightarrow> holder u = None \<and> sender u"

section \<open>The body\<close>

datatype body_poll = Pending | ReadyNone | ReadyData string | ReadyTrailers header_map | ReadyError sdk_error

definition end_body :: "upload \<Rightarrow> upload" where
  "end_body u = u\<lparr>ended := True, receiver_open := False\<rparr>"

definition poll_frame :: "upload \<Rightarrow> body_poll \<times> upload" where
  "poll_frame u =
     (if ended u then (ReadyNone, u)
      else if is_cancelled False (upload_op u)
        then (ReadyError (operation_error False (upload_op u)), end_body u)
      else case queue u of
             [] \<Rightarrow>
               if sender u then (Pending, u)
               else (ReadyError (sdk_new CodeProducer ''upload writer dropped before finish''), u\<lparr>ended := True\<rparr>)
           | Data bytes # rest \<Rightarrow> (ReadyData bytes, u\<lparr>queue := rest\<rparr>)
           | Finish trailers # rest \<Rightarrow>
               (if trailers = [] then ReadyNone else ReadyTrailers trailers,
                end_body (u\<lparr>queue := rest\<rparr>)))"

text \<open>The poll that ends the body without an error gives \<open>None\<close> or the trailers.\<close>

definition poll_body :: "upload \<Rightarrow> (upload_event \<times> upload) option" where
  "poll_body u =
     (case poll_frame u of
        (ReadyData bytes, v) \<Rightarrow> Some (Yielded bytes, v)
      | (ReadyTrailers trailers, v) \<Rightarrow> Some (Ended trailers, v)
      | (ReadyError e, v) \<Rightarrow> Some (Broken e, v)
      | (ReadyNone, v) \<Rightarrow> Some (if ended u then Quiet else Ended [], v)
      | (Pending, _) \<Rightarrow> None)"

definition drop_body :: "upload \<Rightarrow> upload" where
  "drop_body u = u\<lparr>ended := True, receiver_open := False, queue := []\<rparr>"

section \<open>Runs\<close>

datatype upload_action = Send string | FinishUpload header_map | Resume | CancelCall | Abandon | AbandonWaiting | DropGuard
  | Fail sdk_error | DropWriter | PollBody | DropBody

fun upload_act :: "upload_action \<Rightarrow> upload \<Rightarrow> (upload_event \<times> upload) option" where
  "upload_act (Send bytes) u = send bytes u"
| "upload_act (FinishUpload trailers) u = finish_upload trailers u"
| "upload_act Resume u = resume_call u"
| "upload_act CancelCall u = cancel_call u"
| "upload_act Abandon u = abandon_call u"
| "upload_act AbandonWaiting u = abandon_waiting u"
| "upload_act DropGuard u = drop_guard u"
| "upload_act (Fail e) u = Some (Quiet, fail_upload e u)"
| "upload_act DropWriter u = drop_writer u"
| "upload_act PollBody u = poll_body u"
| "upload_act DropBody u = Some (Quiet, drop_body u)"

inductive upload_run :: "upload_event list \<Rightarrow> upload \<Rightarrow> bool" where
  run_start: "upload_run [] upload_channel"
| run_act: "upload_run es u \<Longrightarrow> upload_act a u = Some (e, v) \<Longrightarrow> upload_run (es @ [e]) v"

fun run_acts :: "upload_action list \<Rightarrow> upload \<Rightarrow> (upload_event list \<times> upload) option" where
  "run_acts [] u = Some ([], u)"
| "run_acts (a # as) u =
     (case upload_act a u of
        None \<Rightarrow> None
      | Some (e, v) \<Rightarrow>
          (case run_acts as v of None \<Rightarrow> None | Some (es, w) \<Rightarrow> Some (e # es, w)))"

lemma run_acts_run:
  "run_acts as u = Some (es, v) \<Longrightarrow> upload_run pre u \<Longrightarrow> upload_run (pre @ es) v"
proof (induction as arbitrary: pre u es)
  case (Cons a as)
  then obtain e w es' where "upload_act a u = Some (e, w)" "run_acts as w = Some (es', v)"
    "es = e # es'" by (auto split: option.splits)
  with Cons.IH [of w es' "pre @ [e]"] run_act [OF Cons.prems(2)] show ?case by simp
qed simp

section \<open>What a run has shown\<close>

definition accepted :: "upload_event list \<Rightarrow> string" where
  "accepted es = concat (map (\<lambda>e. case e of Accepted bytes \<Rightarrow> bytes | _ \<Rightarrow> []) es)"

definition yielded :: "upload_event list \<Rightarrow> string" where
  "yielded es = concat (map (\<lambda>e. case e of Yielded bytes \<Rightarrow> bytes | _ \<Rightarrow> []) es)"

definition finished :: "upload_event list \<Rightarrow> header_map list" where
  "finished es = concat (map (\<lambda>e. case e of Finished trailers \<Rightarrow> [trailers] | _ \<Rightarrow> []) es)"

definition queued :: "upload \<Rightarrow> string" where
  "queued u = concat (map (\<lambda>f. case f of Data bytes \<Rightarrow> bytes | _ \<Rightarrow> []) (queue u))"

lemma shown_simps [simp]:
  "accepted [] = []" "accepted (es @ [e]) = accepted es @ (case e of Accepted bytes \<Rightarrow> bytes | _ \<Rightarrow> [])"
  "yielded [] = []" "yielded (es @ [e]) = yielded es @ (case e of Yielded bytes \<Rightarrow> bytes | _ \<Rightarrow> [])"
  "finished [] = []"
  "finished (es @ [e]) = finished es @ (case e of Finished trailers \<Rightarrow> [trailers] | _ \<Rightarrow> [])"
  by (simp_all add: accepted_def yielded_def finished_def)

lemma concat_chunks: "0 < n \<Longrightarrow> concat (chunks n bytes) = bytes"
  by (induction n bytes rule: chunks.induct) (subst chunks.simps, simp)

lemma chunk_length: "c \<in> set (chunks n bytes) \<Longrightarrow> 0 < length c \<and> length c \<le> n"
proof (induction n bytes rule: chunks.induct)
  case (1 n bytes)
  then show ?case by (subst (asm) chunks.simps) (auto split: if_splits)
qed

definition chunk_ok :: "string \<Rightarrow> bool" where
  "chunk_ok c \<longleftrightarrow> 0 < length c \<and> length c \<le> CHUNK_BYTES"

text \<open>The frames of the channel: bounded, the end last, and sent only when the sender is gone.\<close>

fun frames_ok :: "bool \<Rightarrow> header_map list \<Rightarrow> upload_frame list \<Rightarrow> bool" where
  "frames_ok s fs [] = (s \<longrightarrow> fs = [])"
| "frames_ok s fs (Data c # q) = (chunk_ok c \<and> frames_ok s fs q)"
| "frames_ok s fs (Finish t # q) = (\<not> s \<and> fs = [t] \<and> q = [])"

fun holder_ok :: "bool \<Rightarrow> writer_call option \<Rightarrow> bool" where
  "holder_ok s None = True"
| "holder_ok s (Some (Sending bytes cs)) = (s \<and> list_all chunk_ok cs)"
| "holder_ok s (Some (Finishing _)) = s"

lemma holder_ok_False [simp]: "holder_ok False h \<longleftrightarrow> h = None"
  by (cases "(False, h)" rule: holder_ok.cases) auto

text \<open>What the holder has already put into the channel.\<close>

fun under_way :: "writer_call option \<Rightarrow> string \<Rightarrow> bool" where
  "under_way (Some (Sending bytes cs)) part = (bytes = part @ concat cs)"
| "under_way _ part = (part = [])"

definition channel_ok :: "upload_event list \<Rightarrow> upload \<Rightarrow> bool" where
  "channel_ok es u \<longleftrightarrow>
     length (queue u) \<le> QUEUED_CHUNKS \<and> frames_ok (sender u) (finished es) (queue u) \<and> holder_ok (sender u) (holder u)
     \<and> (\<not> receiver_open u \<longrightarrow> ended u)"

definition flow_ok :: "upload_event list \<Rightarrow> upload \<Rightarrow> bool" where
  "flow_ok es u \<longleftrightarrow>
     Abandoned \<in> set es \<or>
     leaving u = 0
     \<and> (own_cancel (upload_op u) \<or> ended u
        \<or> (\<exists>part. yielded es @ queued u = accepted es @ part \<and> under_way (holder u) part))"

definition end_ok :: "upload_event list \<Rightarrow> upload \<Rightarrow> bool" where
  "end_ok es u \<longleftrightarrow>
     (\<forall>t. Ended t \<in> set es \<longrightarrow>
        ended u \<and> \<not> sender u \<and> finished es = [t] \<and> (Abandoned \<in> set es \<or> yielded es = accepted es))"

lemmas upload_defs = send_def finish_upload_def begin_call_def resume_call_def cancel_call_def
  fail_upload_def abandon_call_def abandon_waiting_def drop_guard_def drop_writer_def poll_body_def
  poll_frame_def end_body_def drop_body_def

lemma frames_ok_sender: "frames_ok True fs q \<Longrightarrow> fs = []"
  by (induction "True" fs q rule: frames_ok.induct) auto

lemma frames_ok_push: "frames_ok True fs q \<Longrightarrow> frames_ok True fs (q @ [Data c]) = chunk_ok c"
  by (induction "True" fs q rule: frames_ok.induct) auto

lemma frames_ok_finish: "frames_ok True fs q \<Longrightarrow> frames_ok False (fs @ [t]) (q @ [Finish t])"
  by (induction "True" fs q rule: frames_ok.induct) auto

lemma frames_ok_release: "frames_ok s fs q \<Longrightarrow> frames_ok False fs q"
  by (induction s fs q rule: frames_ok.induct) auto

lemma frames_ok_empty: "frames_ok s fs q \<Longrightarrow> frames_ok s fs []"
  by (cases s) (auto dest: frames_ok_sender)

lemma chunks_ok: "list_all chunk_ok (chunks CHUNK_BYTES bytes)"
  by (auto simp: list_all_iff chunk_ok_def dest: chunk_length)

lemma channel_ok_act:
  assumes "upload_act a u = Some (e, v)" "channel_ok es u"
  shows "channel_ok (es @ [e]) v"
proof (cases a)
  case Resume
  then show ?thesis using assms frames_ok_push [of "finished es" "queue u"]
      frames_ok_finish [of "finished es" "queue u"]
    by (auto simp: upload_defs channel_ok_def split: option.splits writer_call.splits
        list.splits if_splits)
next
  case PollBody
  then show ?thesis using assms frames_ok_empty [of "sender u" "finished es" "queue u"]
    by (auto simp: upload_defs channel_ok_def split: option.splits
        list.splits if_splits upload_frame.splits writer_call.splits)
next
  case DropBody
  then show ?thesis using assms frames_ok_empty [of "sender u" "finished es" "queue u"]
    by (auto simp: upload_defs channel_ok_def dest: frames_ok_release)
qed (use assms in \<open>auto simp: upload_defs channel_ok_def chunks_ok
       split: option.splits if_splits intro: frames_ok_release\<close>)

lemma flow_ok_act:
  assumes "upload_act a u = Some (e, v)" "channel_ok es u" "flow_ok es u"
  shows "flow_ok (es @ [e]) v"
proof (cases a)
  case (Send bytes)
  then show ?thesis using assms concat_chunks [of CHUNK_BYTES bytes]
    by (auto simp: upload_defs flow_ok_def CHUNK_BYTES_def queued_def split: if_splits)
next
  case Resume
  have "receiver_open u \<or> ended u" using assms(2) by (auto simp: channel_ok_def)
  with Resume show ?thesis using assms
    by (auto simp: upload_defs flow_ok_def queued_def split: option.splits
        writer_call.splits list.splits if_splits)
next
  case PollBody
  then show ?thesis using assms
    by (auto simp: upload_defs flow_ok_def queued_def is_cancelled_def
        split: list.splits if_splits upload_frame.splits)
qed (use assms in \<open>auto simp: upload_defs flow_ok_def queued_def is_cancelled_def
       operation_simps split: if_splits\<close>)

lemma end_ok_act:
  assumes "upload_act a u = Some (e, v)" "channel_ok es u" "flow_ok es u" "end_ok es u"
  shows "end_ok (es @ [e]) v"
proof (cases a)
  case Resume
  then show ?thesis using assms
    by (auto simp: upload_defs end_ok_def channel_ok_def split: option.splits
        writer_call.splits list.splits if_splits)
next
  case PollBody
  then show ?thesis using assms
    by (auto simp: upload_defs end_ok_def channel_ok_def flow_ok_def
        queued_def is_cancelled_def split: list.splits if_splits upload_frame.splits option.splits
        writer_call.splits)
qed (use assms in \<open>auto simp: upload_defs end_ok_def split: if_splits\<close>)

lemma upload_run_ok: "upload_run es u \<Longrightarrow> channel_ok es u \<and> flow_ok es u \<and> end_ok es u"
proof (induction rule: upload_run.induct)
  case run_start
  show ?case
    by (simp add: channel_ok_def flow_ok_def end_ok_def upload_channel_def queued_def)
next
  case (run_act es u a e v)
  then show ?case using channel_ok_act flow_ok_act end_ok_act by blast
qed

lemma frames_ok_length:
  "frames_ok s fs q \<Longrightarrow>
     length (concat (map (\<lambda>f. case f of Data bytes \<Rightarrow> bytes | _ \<Rightarrow> []) q)) \<le> length q * CHUNK_BYTES"
  by (induction s fs q rule: frames_ok.induct) (auto simp: chunk_ok_def)

lemma queued_bound: "channel_ok es u \<Longrightarrow> length (queued u) \<le> 65536"
  using frames_ok_length [of "sender u" "finished es" "queue u"]
  by (simp add: channel_ok_def queued_def CHUNK_BYTES_def QUEUED_CHUNKS_def)

section \<open>Properties\<close>


lemma chunks_short: "bytes \<noteq> [] \<Longrightarrow> length bytes \<le> CHUNK_BYTES \<Longrightarrow> chunks CHUNK_BYTES bytes = [bytes]"
  by (subst chunks.simps) (simp add: CHUNK_BYTES_def chunks.simps)

lemma example_chunks:
  "chunks CHUNK_BYTES ''ab'' = [''ab'']" "chunks CHUNK_BYTES ''c'' = [''c'']"
  "chunks CHUNK_BYTES ''x'' = [''x'']" "chunks CHUNK_BYTES ''y'' = [''y'']"
  by (rule chunks_short; simp add: CHUNK_BYTES_def)+

lemma upload_example:
  "run_acts [Send ''ab'', Resume, Resume, PollBody, Send ''c'', Resume, Resume, FinishUpload [(''t'', ''1'')],
     Resume, PollBody, PollBody] upload_channel
   = Some ([Quiet, Quiet, Accepted ''ab'', Yielded ''ab'', Quiet, Quiet, Accepted ''c'', Quiet,
            Finished [(''t'', ''1'')], Yielded ''c'', Ended [(''t'', ''1'')]],
           \<lparr>writer_alive = True, sender = False, holder = None, leaving = 0, upload_op = operation_new,
            queue = [], receiver_open = False, ended = True\<rparr>)"
  by (simp add: upload_defs upload_channel_def example_chunks QUEUED_CHUNKS_def operation_simps)


text \<open>Without the condition on dropped calls a body can end with bytes missing: a send waits for room,
  its future is dropped, and a finish takes the mutex before the guard fails the upload.\<close>

lemma upload_truncated:
  "\<exists>u. run_acts (concat (replicate 4 [Send ''x'', Resume, Resume]) @ [Send ''y'', PollBody, Abandon,
      FinishUpload [], Resume, PollBody, PollBody, PollBody, PollBody, DropGuard]) upload_channel
   = Some (concat (replicate 4 [Quiet, Quiet, Accepted ''x'']) @ [Quiet, Yielded ''x'', Abandoned,
      Quiet, Finished [], Yielded ''x'', Yielded ''x'', Yielded ''x'', Ended [], Quiet], u)"
  by (simp add: upload_defs upload_channel_def example_chunks QUEUED_CHUNKS_def operation_simps
      numeral_eq_Suc)

end
