(* ===== verification/Receives.thy ===== *)
theory Receives
  imports Uploads
begin

text \<open>
  The receive bridge of the SDK: the crate \<open>dhttp-api\<close>, file \<open>api/src/stream.rs\<close>, \<open>BodyReader\<close> and the
  worker of its \<open>bridge\<close>.  The body of the transport is the list of the frames it will give.  The reply
  channel of a call of \<open>next\<close> is alive while that call waits; a command in the queue or with the worker
  carries whether it is.
\<close>

section \<open>The bridge\<close>

datatype native_frame = DataFrame string | TrailerFrame header_map | OtherFrame | ErrorFrame any_error

text \<open>Where the call of \<open>next\<close> that holds the lock is: about to send its command, awaiting the reply, or
  dropped with its guard still to run.\<close>

datatype reading = Free | Wanting | Awaiting | Leaving

text \<open>Where the worker is: between commands, pulling frames, about to reply, or done.\<close>

datatype worker = Idle | Pulling bool | Answering bool "string option" | Stopped

record receive =
  body :: "native_frame list"
  gathered :: header_map
  worker :: worker
  command :: "bool option"
  reply :: "(sdk_error + string option) option"
  reading :: reading
  reader_alive :: bool
  completion :: "(sdk_error + header_map) option"
  receive_op :: operation_state
  owner :: bool

definition bridge :: "native_frame list \<Rightarrow> operation_state \<Rightarrow> receive" where
  "bridge frames p = \<lparr>body = frames, gathered = [], worker = Idle, command = None, reply = None,
     reading = Free, reader_alive = True, completion = None, receive_op = p, owner = False\<rparr>"

datatype receive_event = Silent | Pulled native_frame | Delivered string | EndOfBody | NextFailed sdk_error
  | TrailersGiven header_map | TrailersFailed sdk_error | WorkerDone | WorkerFailed sdk_error

abbreviation receive_cancelled :: "receive \<Rightarrow> bool" where
  "receive_cancelled r \<equiv> is_cancelled (owner r) (receive_op r)"

abbreviation receive_error :: "receive \<Rightarrow> sdk_error" where
  "receive_error r \<equiv> operation_error (owner r) (receive_op r)"

definition fail_receive :: "sdk_error \<Rightarrow> receive \<Rightarrow> receive" where
  "fail_receive e r = r\<lparr>receive_op := operation_fail e (receive_op r)\<rparr>"

section \<open>The worker\<close>

text \<open>The receiver of the commands is dropped when the worker is done.\<close>

definition worker_failed :: "sdk_error \<Rightarrow> receive \<Rightarrow> receive_event \<times> receive" where
  "worker_failed e r =
     (WorkerFailed e,
      (fail_receive e r)\<lparr>worker := Stopped, command := None, completion := Some (Inl e)\<rparr>)"

definition pull_frame :: "(path \<Rightarrow> string) \<Rightarrow> bool \<Rightarrow> receive \<Rightarrow> receive_event \<times> receive" where
  "pull_frame display live_reply r =
     (case body r of
        [] \<Rightarrow>
          (Silent, r\<lparr>worker := Answering live_reply None, completion := Some (Inr (gathered r)), gathered := []\<rparr>)
      | DataFrame bytes # rest \<Rightarrow> (Pulled (DataFrame bytes), r\<lparr>body := rest, worker := Answering live_reply (Some bytes)\<rparr>)
      | TrailerFrame hs # rest \<Rightarrow> (Pulled (TrailerFrame hs), r\<lparr>body := rest, gathered := gathered r @ hs\<rparr>)
      | OtherFrame # rest \<Rightarrow> (Pulled OtherFrame, r\<lparr>body := rest\<rparr>)
      | ErrorFrame cause # rest \<Rightarrow>
          (let e = sdk_from_box display cause
           in worker_failed e (r\<lparr>body := rest, reply := if live_reply then Some (Inl e) else reply r\<rparr>)))"

definition worker_step :: "(path \<Rightarrow> string) \<Rightarrow> receive \<Rightarrow> (receive_event \<times> receive) option" where
  "worker_step display r =
     (case worker r of
        Idle \<Rightarrow>
          (case command r of
             Some live_reply \<Rightarrow> Some (Silent, r\<lparr>command := None, worker := Pulling live_reply\<rparr>)
           | None \<Rightarrow> if reader_alive r then None else Some (worker_failed sdk_cancelled r))
      | Pulling live_reply \<Rightarrow> Some (pull_frame display live_reply r)
      | Answering live_reply answer \<Rightarrow>
          if \<not> live_reply then Some (worker_failed sdk_cancelled r)
          else if answer = None
            then Some (WorkerDone, r\<lparr>reply := Some (Inr None), worker := Stopped, command := None\<rparr>)
          else Some (Silent, r\<lparr>reply := Some (Inr answer), worker := Idle\<rparr>)
      | Stopped \<Rightarrow> None)"

definition worker_cancelled :: "receive \<Rightarrow> (receive_event \<times> receive) option" where
  "worker_cancelled r =
     (if worker r \<noteq> Stopped \<and> receive_cancelled r then Some (worker_failed (receive_error r) r) else None)"

text \<open>The task that runs the worker is gone.\<close>

definition drop_worker :: "receive \<Rightarrow> receive" where
  "drop_worker r = r\<lparr>worker := Stopped, command := None\<rparr>"

section \<open>The reader\<close>

definition body_in_use :: sdk_error where
  "body_in_use = sdk_new CodeBodyInUse ''body already has a reader''"

text \<open>The command is sent when the channel of capacity one has room.\<close>

definition send_command :: "receive \<Rightarrow> receive_event \<times> receive" where
  "send_command r =
     (if receive_cancelled r \<or> worker r = Stopped
        then (NextFailed (receive_error r), r\<lparr>reading := Free\<rparr>)
      else if command r = None
        then (Silent, r\<lparr>command := Some True, reply := None, reading := Awaiting\<rparr>)
      else (Silent, r\<lparr>reading := Wanting\<rparr>))"

definition next_call :: "receive \<Rightarrow> receive_event \<times> receive" where
  "next_call r =
     (if reading r \<noteq> Free then (NextFailed body_in_use, r)
      else case completion r of
             Some (Inr _) \<Rightarrow> (EndOfBody, r)
           | Some (Inl e) \<Rightarrow> (NextFailed e, r)
           | None \<Rightarrow> send_command r)"

text \<open>The reply sender is dropped without a reply.\<close>

definition reply_lost :: "receive \<Rightarrow> bool" where
  "reply_lost r \<longleftrightarrow> reply r = None \<and> command r \<noteq> Some True
     \<and> (case worker r of Pulling b \<Rightarrow> \<not> b | Answering b _ \<Rightarrow> \<not> b | _ \<Rightarrow> True)"

definition take_reply :: "receive \<Rightarrow> (receive_event \<times> receive) option" where
  "take_reply r =
     (let finish = (\<lambda>e. Some (e, r\<lparr>reading := Free, reply := None\<rparr>))
      in case reply r of
           Some (Inr (Some bytes)) \<Rightarrow> finish (Delivered bytes)
         | Some (Inr None) \<Rightarrow> finish EndOfBody
         | Some (Inl e) \<Rightarrow> finish (NextFailed e)
         | None \<Rightarrow> if reply_lost r then finish (NextFailed (receive_error r)) else None)"

text \<open>A cancelled call drops its reply receiver.\<close>

definition orphan :: "receive \<Rightarrow> receive" where
  "orphan r = r\<lparr>reply := None, command := map_option (\<lambda>_. False) (command r),
     worker := (case worker r of Pulling _ \<Rightarrow> Pulling False | Answering _ a \<Rightarrow> Answering False a | w \<Rightarrow> w)\<rparr>"

definition next_resume :: "receive \<Rightarrow> (receive_event \<times> receive) option" where
  "next_resume r =
     (case reading r of
        Wanting \<Rightarrow> Some (send_command r)
      | Awaiting \<Rightarrow>
          if receive_cancelled r then Some (NextFailed (receive_error r), (orphan r)\<lparr>reading := Free\<rparr>)
          else take_reply r
      | _ \<Rightarrow> None)"

text \<open>The drop of an unfinished call: the inner future, then the guard, then the lock.\<close>

definition abandon_next :: "receive \<Rightarrow> (receive_event \<times> receive) option" where
  "abandon_next r =
     (case reading r of
        Wanting \<Rightarrow> Some (Silent, r\<lparr>reading := Leaving\<rparr>)
      | Awaiting \<Rightarrow> Some (Silent, (orphan r)\<lparr>reading := Leaving\<rparr>)
      | _ \<Rightarrow> None)"

definition next_guard :: "receive \<Rightarrow> (receive_event \<times> receive) option" where
  "next_guard r =
     (if reading r = Leaving then Some (Silent, (fail_receive sdk_cancelled r)\<lparr>reading := Free\<rparr>) else None)"

text \<open>A poll of \<open>trailers\<close>; the sender of the completion is dropped with the worker.\<close>

definition poll_trailers :: "receive \<Rightarrow> (receive_event \<times> receive) option" where
  "poll_trailers r =
     (case completion r of
        Some (Inr hs) \<Rightarrow> Some (TrailersGiven hs, r)
      | Some (Inl e) \<Rightarrow> Some (TrailersFailed e, r)
      | None \<Rightarrow>
          if receive_cancelled r \<or> worker r = Stopped then Some (TrailersFailed (receive_error r), r) else None)"

definition cancel_reader :: "receive \<Rightarrow> receive" where
  "cancel_reader = fail_receive sdk_cancelled"

definition drop_reader :: "receive \<Rightarrow> (receive_event \<times> receive) option" where
  "drop_reader r =
     (if \<not> reader_alive r \<or> reading r \<noteq> Free then None
      else Some (Silent,
        (case completion r of Some (Inr _) \<Rightarrow> r | _ \<Rightarrow> cancel_reader r)\<lparr>reader_alive := False\<rparr>))"

section \<open>Runs\<close>

datatype receive_action = NextCall | NextResume | AbandonNext | NextGuard | WorkerStep | WorkerCancelled
  | DropWorker | PollTrailers | CancelReader | CancelOwner | DropReader

fun receive_act :: "(path \<Rightarrow> string) \<Rightarrow> receive_action \<Rightarrow> receive \<Rightarrow> (receive_event \<times> receive) option" where
  "receive_act display NextCall r = (if reader_alive r then Some (next_call r) else None)"
| "receive_act display NextResume r = next_resume r"
| "receive_act display AbandonNext r = abandon_next r"
| "receive_act display NextGuard r = next_guard r"
| "receive_act display WorkerStep r = worker_step display r"
| "receive_act display WorkerCancelled r = worker_cancelled r"
| "receive_act display DropWorker r = Some (Silent, drop_worker r)"
| "receive_act display PollTrailers r = (if reader_alive r then poll_trailers r else None)"
| "receive_act display CancelReader r = Some (Silent, cancel_reader r)"
| "receive_act display CancelOwner r = Some (Silent, r\<lparr>owner := True\<rparr>)"
| "receive_act display DropReader r = drop_reader r"

inductive receive_run :: "(path \<Rightarrow> string) \<Rightarrow> native_frame list \<Rightarrow> operation_state \<Rightarrow> receive_event list \<Rightarrow> receive \<Rightarrow> bool"
  for display frames p where
  receive_start: "receive_run display frames p [] (bridge frames p)"
| receive_more: "receive_run display frames p es r \<Longrightarrow> receive_act display a r = Some (e, r') \<Longrightarrow>
    receive_run display frames p (es @ [e]) r'"

section \<open>What a run has shown\<close>

definition pulled :: "receive_event list \<Rightarrow> native_frame list" where
  "pulled es = concat (map (\<lambda>e. case e of Pulled f \<Rightarrow> [f] | _ \<Rightarrow> []) es)"

definition delivered :: "receive_event list \<Rightarrow> string list" where
  "delivered es = concat (map (\<lambda>e. case e of Delivered bytes \<Rightarrow> [bytes] | _ \<Rightarrow> []) es)"

definition data_of :: "native_frame list \<Rightarrow> string list" where
  "data_of fs = concat (map (\<lambda>f. case f of DataFrame bytes \<Rightarrow> [bytes] | _ \<Rightarrow> []) fs)"

definition fields_of :: "native_frame list \<Rightarrow> header_map" where
  "fields_of fs = concat (map (\<lambda>f. case f of TrailerFrame hs \<Rightarrow> hs | _ \<Rightarrow> []) fs)"

definition error_free :: "native_frame list \<Rightarrow> bool" where
  "error_free fs = list_all (\<lambda>f. case f of ErrorFrame _ \<Rightarrow> False | _ \<Rightarrow> True) fs"

lemma pulled_simps [simp]:
  "pulled [] = []" "pulled (es @ [e]) = pulled es @ (case e of Pulled f \<Rightarrow> [f] | _ \<Rightarrow> [])"
  "delivered [] = []"
  "delivered (es @ [e]) = delivered es @ (case e of Delivered bytes \<Rightarrow> [bytes] | _ \<Rightarrow> [])"
  "data_of [] = []" "data_of (fs @ [f]) = data_of fs @ (case f of DataFrame bytes \<Rightarrow> [bytes] | _ \<Rightarrow> [])"
  "fields_of [] = []" "fields_of (fs @ [f]) = fields_of fs @ (case f of TrailerFrame hs \<Rightarrow> hs | _ \<Rightarrow> [])"
  "error_free []" "error_free (fs @ [f]) = (error_free fs \<and> (case f of ErrorFrame _ \<Rightarrow> False | _ \<Rightarrow> True))"
  by (simp_all add: pulled_def delivered_def data_of_def fields_of_def error_free_def)

text \<open>At most one command or reply is alive, and it is that of the call that waits.\<close>

fun live_worker :: "worker \<Rightarrow> bool" where
  "live_worker (Pulling b) = b" | "live_worker (Answering b _) = b" | "live_worker _ = False"

fun stale_worker :: "worker \<Rightarrow> bool" where
  "stale_worker (Pulling b) = (\<not> b)" | "stale_worker (Answering b _) = (\<not> b)" | "stale_worker _ = False"

definition calls_ok :: "receive \<Rightarrow> bool" where
  "calls_ok r \<longleftrightarrow>
     (command r = None \<or> worker r = Idle)
     \<and> (command r \<noteq> Some True \<and> \<not> live_worker (worker r) \<or> reading r = Awaiting \<and> reply r = None)
     \<and> (reply r = None \<or> reading r = Awaiting \<and> command r = None \<and> (worker r = Idle \<or> worker r = Stopped))
     \<and> (command r \<noteq> Some False \<and> \<not> stale_worker (worker r) \<or> receive_cancelled r \<or> reading r = Leaving)
     \<and> (reading r \<noteq> Awaiting \<or> worker r \<noteq> Idle \<or> command r \<noteq> None \<or> reply r \<noteq> None)"

text \<open>What the worker has pulled, and how far it is ahead of what was delivered.\<close>

definition pull_ok :: "native_frame list \<Rightarrow> receive_event list \<Rightarrow> receive \<Rightarrow> bool" where
  "pull_ok frames es r \<longleftrightarrow>
     (\<exists>rest. frames = pulled es @ rest \<and> (worker r \<noteq> Stopped \<longrightarrow> body r = rest))
     \<and> error_free (pulled es)
     \<and> (\<exists>rest. data_of (pulled es) = delivered es @ rest \<and> length rest \<le> 1)
     \<and> (case worker r of
          Idle \<Rightarrow> completion r = None \<and> gathered r = fields_of (pulled es)
            \<and> (\<forall>x. reply r = Some x \<longrightarrow> (\<exists>b. x = Inr (Some b)))
            \<and> (reply r = None \<and> (command r \<noteq> None \<or> \<not> receive_cancelled r \<and> reading r \<noteq> Leaving)
               \<longrightarrow> data_of (pulled es) = delivered es)
        | Pulling _ \<Rightarrow> completion r = None \<and> gathered r = fields_of (pulled es)
            \<and> data_of (pulled es) = delivered es
        | Answering _ (Some b) \<Rightarrow> completion r = None \<and> gathered r = fields_of (pulled es)
            \<and> data_of (pulled es) = delivered es @ [b]
        | Answering _ None \<Rightarrow> True
        | Stopped \<Rightarrow> True)
     \<and> (\<forall>b. reply r = Some (Inr (Some b)) \<longrightarrow> data_of (pulled es) = delivered es @ [b])"

definition whole :: "native_frame list \<Rightarrow> receive_event list \<Rightarrow> bool" where
  "whole frames es \<longleftrightarrow> pulled es = frames \<and> delivered es = data_of frames"

definition whole_ok :: "native_frame list \<Rightarrow> receive_event list \<Rightarrow> receive \<Rightarrow> bool" where
  "whole_ok frames es r \<longleftrightarrow>
     (\<forall>hs. completion r = Some (Inr hs) \<or> TrailersGiven hs \<in> set es \<longrightarrow> whole frames es \<and> hs = fields_of frames)
     \<and> (reply r = Some (Inr None) \<or> EndOfBody \<in> set es \<or> (\<exists>b. worker r = Answering b None) \<longrightarrow> whole frames es)"

lemmas receive_defs = next_call_def send_command_def next_resume_def take_reply_def reply_lost_def
  orphan_def abandon_next_def next_guard_def worker_step_def pull_frame_def worker_failed_def
  worker_cancelled_def drop_worker_def poll_trailers_def cancel_reader_def drop_reader_def
  fail_receive_def Let_def

lemma is_cancelled_owner: "is_cancelled b p \<Longrightarrow> is_cancelled True p"
  by (auto simp: is_cancelled_def)

text \<open>A call that may send its command finds the worker between commands, with nothing in flight.\<close>

lemma calls_ok_free:
  "calls_ok r \<Longrightarrow> reading r = Free \<or> reading r = Wanting \<Longrightarrow> \<not> receive_cancelled r \<Longrightarrow> worker r \<noteq> Stopped
    \<Longrightarrow> worker r = Idle \<and> command r = None \<and> reply r = None"
  by (cases "worker r"; cases "command r = Some True"; cases "command r") (auto simp: calls_ok_def)

lemma send_command_cases:
  assumes "send_command r = (e, r')" "calls_ok r" "reading r = Free \<or> reading r = Wanting"
  obtains "e = NextFailed (receive_error r)" "r' = r\<lparr>reading := Free\<rparr>"
      "receive_cancelled r \<or> worker r = Stopped"
  | "e = Silent" "r' = r\<lparr>command := Some True, reply := None, reading := Awaiting\<rparr>"
      "worker r = Idle" "command r = None" "reply r = None" "\<not> receive_cancelled r"
  using assms calls_ok_free [OF assms(2,3)] by (simp add: send_command_def split: if_splits)

lemma reading_calls_ok:
  assumes "calls_ok r" "reading r = Free \<or> reading r = Wanting"
  shows "calls_ok (r\<lparr>reading := Free\<rparr>)"
  using assms by (elim disjE) (simp_all add: calls_ok_def)

lemma send_command_calls_ok:
  assumes "send_command r = (e, r')" "calls_ok r" "reading r = Free \<or> reading r = Wanting"
  shows "calls_ok r'"
  using assms
proof (cases rule: send_command_cases)
  case 1
  then show ?thesis using reading_calls_ok [OF assms(2,3)] by simp
next
  case 2
  then show ?thesis by (simp add: calls_ok_def)
qed

lemma pull_frame_calls_ok:
  assumes "pull_frame display b r = (e, r')" "calls_ok r" "worker r = Pulling b"
  shows "calls_ok r'"
proof (cases "body r")
  case Nil
  with assms show ?thesis by (auto simp: pull_frame_def calls_ok_def)
next
  case (Cons f rest)
  have "command r = None" "b \<longrightarrow> reading r = Awaiting \<and> reply r = None"
    "\<not> b \<longrightarrow> receive_cancelled r \<or> reading r = Leaving" "reply r = None"
    using assms(2,3) by (auto simp: calls_ok_def)
  with Cons assms(1,3) show ?thesis
    by (cases b; cases f) (auto simp: pull_frame_def worker_failed_def fail_receive_def calls_ok_def Let_def
        operation_simps)
qed

lemma worker_step_calls_ok:
  assumes "worker_step display r = Some (e, r')" "calls_ok r"
  shows "calls_ok r'"
proof (cases "worker r")
  case Idle
  with assms show ?thesis
    by (cases "command r")
      (auto simp: worker_step_def worker_failed_def fail_receive_def calls_ok_def operation_simps
        split: if_splits)
next
  case (Pulling b)
  with assms show ?thesis by (auto simp: worker_step_def intro: pull_frame_calls_ok)
next
  case (Answering b answer)
  with assms show ?thesis
    by (auto simp: worker_step_def worker_failed_def fail_receive_def calls_ok_def operation_simps
        split: if_splits)
qed (use assms in \<open>simp add: worker_step_def\<close>)

lemma calls_ok_fail: "calls_ok r \<Longrightarrow> calls_ok (fail_receive e r)"
  by (simp add: calls_ok_def fail_receive_def operation_simps)

lemma worker_failed_calls_ok: "calls_ok r \<Longrightarrow> calls_ok (snd (worker_failed e r))"
  unfolding calls_ok_def worker_failed_def fail_receive_def by (simp add: operation_simps) blast

lemma drop_worker_calls_ok: "calls_ok r \<Longrightarrow> calls_ok (drop_worker r)"
  unfolding calls_ok_def drop_worker_def by simp blast

lemma calls_ok_alive: "calls_ok (r\<lparr>reader_alive := b\<rparr>) = calls_ok r"
  by (simp add: calls_ok_def)

lemma orphan_calls_ok:
  assumes "calls_ok r" "x \<noteq> Awaiting" "x = Leaving \<or> receive_cancelled r"
  shows "calls_ok ((orphan r)\<lparr>reading := x\<rparr>)"
proof -
  have "command r = None \<or> worker r = Idle" using assms(1) by (simp add: calls_ok_def)
  then show ?thesis using assms(2,3)
    by (cases "worker r") (auto simp: calls_ok_def orphan_def)
qed

lemma leaving_calls_ok:
  assumes "calls_ok r" "reading r = Wanting"
  shows "calls_ok (r\<lparr>reading := Leaving\<rparr>)"
  using assms unfolding calls_ok_def by simp

lemma take_reply_calls_ok:
  assumes "take_reply r = Some (e, r')" "calls_ok r" "\<not> receive_cancelled r" "reading r = Awaiting"
  shows "calls_ok r'"
proof -
  have "command r = None \<and> (worker r = Idle \<or> worker r = Stopped) \<or> reply_lost r"
    using assms(1,2) by (cases "reply r") (auto simp: take_reply_def calls_ok_def split: if_splits)
  moreover have "command r \<noteq> Some False \<and> \<not> stale_worker (worker r)"
    using assms(2-4) by (simp add: calls_ok_def)
  ultimately have "(command r = None \<or> worker r = Idle) \<and> command r \<noteq> Some True
      \<and> \<not> live_worker (worker r) \<and> command r \<noteq> Some False \<and> \<not> stale_worker (worker r)"
    using assms(2) by (cases "worker r") (auto simp: reply_lost_def calls_ok_def)
  moreover have "r' = r\<lparr>reading := Free, reply := None\<rparr>"
    using assms(1) by (auto simp: take_reply_def Let_def split: option.splits sum.splits if_splits)
  ultimately show ?thesis by (simp add: calls_ok_def)
qed

lemma calls_ok_act:
  assumes act: "receive_act display a r = Some (e, r')" and ok: "calls_ok r"
  shows "calls_ok r'"
proof (cases a)
  case NextCall
  with act ok show ?thesis
    by (auto simp: next_call_def send_command_calls_ok split: if_splits option.splits sum.splits
        dest: send_command_calls_ok [of r])
next
  case NextResume
  with act ok show ?thesis
    by (auto simp: next_resume_def orphan_calls_ok split: reading.splits if_splits
        intro: send_command_calls_ok take_reply_calls_ok)
next
  case AbandonNext
  then have "r' = r\<lparr>reading := Leaving\<rparr> \<and> reading r = Wanting \<or> r' = (orphan r)\<lparr>reading := Leaving\<rparr>"
    using act by (auto simp: abandon_next_def split: reading.splits)
  then show ?thesis using ok orphan_calls_ok [of r Leaving] by (auto intro: leaving_calls_ok)
next
  case WorkerStep
  with act ok show ?thesis by (auto intro: worker_step_calls_ok)
next
  case CancelOwner
  have "receive_cancelled r \<longrightarrow> is_cancelled True (receive_op r)" by (auto intro: is_cancelled_owner)
  moreover have "r' = r\<lparr>owner := True\<rparr>" using CancelOwner act by simp
  ultimately show ?thesis using ok unfolding calls_ok_def by (elim conjE, intro conjI, simp_all) blast
next
  case NextGuard
  then have "r' = (fail_receive sdk_cancelled r)\<lparr>reading := Free\<rparr>" "reading r = Leaving"
    using act by (auto simp: next_guard_def split: if_splits)
  then show ?thesis using ok by (auto simp: calls_ok_def fail_receive_def operation_simps)
next
  case WorkerCancelled
  then have "r' = snd (worker_failed (receive_error r) r)"
    using act by (auto simp: worker_cancelled_def split: if_splits)
  then show ?thesis using worker_failed_calls_ok [OF ok] by simp
next
  case DropWorker
  with act ok show ?thesis using drop_worker_calls_ok [OF ok] by simp
next
  case PollTrailers
  with act ok show ?thesis by (auto simp: poll_trailers_def split: if_splits option.splits sum.splits)
next
  case CancelReader
  with act ok show ?thesis by (auto simp: cancel_reader_def intro: calls_ok_fail)
next
  case DropReader
  then have "r' = r\<lparr>reader_alive := False\<rparr> \<or> r' = (cancel_reader r)\<lparr>reader_alive := False\<rparr>"
    using act by (auto simp: drop_reader_def split: if_splits option.splits sum.splits)
  moreover have "calls_ok (cancel_reader r)" using ok by (simp add: cancel_reader_def calls_ok_fail)
  ultimately show ?thesis using ok by (elim disjE) (simp_all add: calls_ok_alive)
qed

lemma calls_ok_reply:
  "calls_ok r \<Longrightarrow> reply r \<noteq> None \<Longrightarrow>
     reading r = Awaiting \<and> command r = None \<and> (worker r = Idle \<or> worker r = Stopped)"
  by (auto simp: calls_ok_def)

lemma calls_ok_pulling:
  "calls_ok r \<Longrightarrow> worker r = Pulling b \<Longrightarrow> reply r = None \<and> command r = None"
  "calls_ok r \<Longrightarrow> worker r = Answering b x \<Longrightarrow> reply r = None \<and> command r = None"
  by (auto simp: calls_ok_def)

lemma pull_frame_pull_ok:
  assumes "pull_frame display b r = (e, r')" "calls_ok r" "pull_ok frames es r" "worker r = Pulling b"
  shows "pull_ok frames (es @ [e]) r'"
proof (cases "body r")
  case Nil
  with assms calls_ok_pulling(1) [OF assms(2,4)] show ?thesis by (auto simp: pull_frame_def pull_ok_def)
next
  case (Cons f rest)
  with assms calls_ok_pulling(1) [OF assms(2,4)] show ?thesis
    by (cases f) (auto simp: pull_frame_def pull_ok_def worker_failed_def fail_receive_def Let_def
        split: if_splits)
qed

lemma worker_step_pull_ok:
  assumes "worker_step display r = Some (e, r')" "calls_ok r" "pull_ok frames es r"
  shows "pull_ok frames (es @ [e]) r'"
proof (cases "worker r")
  case Idle
  with assms show ?thesis
    by (cases "command r")
      (auto simp: worker_step_def worker_failed_def fail_receive_def pull_ok_def calls_ok_def split: if_splits)
next
  case (Pulling b)
  with assms show ?thesis by (auto simp: worker_step_def intro: pull_frame_pull_ok)
next
  case (Answering b answer)
  with assms calls_ok_pulling(2) [OF assms(2) Answering] show ?thesis
    by (cases answer) (auto simp: worker_step_def worker_failed_def fail_receive_def pull_ok_def split: if_splits)
qed (use assms in \<open>simp add: worker_step_def\<close>)

lemma send_command_pull_ok:
  assumes "send_command r = (e, r')" "calls_ok r" "pull_ok frames es r"
    and "reading r = Free \<or> reading r = Wanting"
  shows "pull_ok frames (es @ [e]) r'"
  using assms(1,2,4)
proof (cases rule: send_command_cases)
  case 1
  then show ?thesis using assms(3)
    by (cases "worker r") (auto simp: pull_ok_def split: option.splits)
next
  case 2
  then show ?thesis using assms(3,4) by (auto simp: pull_ok_def)
qed

lemma pull_ok_quiet:
  "(\<And>f. e \<noteq> Pulled f) \<Longrightarrow> (\<And>b. e \<noteq> Delivered b) \<Longrightarrow> pull_ok frames (es @ [e]) r = pull_ok frames es r"
proof -
  assume "\<And>f. e \<noteq> Pulled f" "\<And>b. e \<noteq> Delivered b"
  then have "pulled (es @ [e]) = pulled es" "delivered (es @ [e]) = delivered es"
    by (cases e; simp)+
  then show ?thesis unfolding pull_ok_def by (simp only:)
qed

lemma pull_ok_alive: "pull_ok frames es (r\<lparr>reader_alive := b\<rparr>) = pull_ok frames es r"
  by (cases "worker r") (auto simp: pull_ok_def split: option.splits)

lemma pull_ok_fail: "pull_ok frames es r \<Longrightarrow> pull_ok frames es (fail_receive e r)"
  by (cases "worker r") (auto simp: pull_ok_def fail_receive_def operation_simps split: option.splits)

lemma pull_ok_stopped:
  assumes "pull_ok frames es r" "reply r' = reply r" "worker r' = Stopped"
  shows "pull_ok frames es r'"
  using assms unfolding pull_ok_def by auto

lemma pull_ok_orphan:
  assumes "pull_ok frames es r" "calls_ok r" "x = Leaving \<or> receive_cancelled r"
  shows "pull_ok frames es ((orphan r)\<lparr>reading := x\<rparr>)"
proof (cases "worker r")
  case Idle
  have "command r \<noteq> None \<longrightarrow> reply r = None" using calls_ok_reply [OF assms(2)] by (cases "reply r") auto
  with Idle assms(1,3) show ?thesis by (auto simp: pull_ok_def orphan_def)
next
  case (Answering b answer)
  with assms(1) show ?thesis by (cases answer) (auto simp: pull_ok_def orphan_def)
qed (use assms(1) in \<open>auto simp: pull_ok_def orphan_def\<close>)

lemma take_reply_pull_ok:
  assumes take: "take_reply r = Some (e, r')" and ok: "calls_ok r" "pull_ok frames es r"
    and call: "\<not> receive_cancelled r" "reading r = Awaiting"
  shows "pull_ok frames (es @ [e]) r'"
proof -
  have r': "r' = r\<lparr>reading := Free, reply := None\<rparr>"
    using take by (auto simp: take_reply_def Let_def split: option.splits sum.splits if_splits)
  show ?thesis
  proof (cases "\<exists>b. reply r = Some (Inr (Some b))")
    case True
    then obtain b where b: "reply r = Some (Inr (Some b))" by blast
    then have "e = Delivered b" using take by (simp add: take_reply_def)
    moreover have "worker r = Idle \<or> worker r = Stopped" using calls_ok_reply [OF ok(1)] b by simp
    ultimately show ?thesis using r' b ok(2) by (auto simp: pull_ok_def)
  next
    case False
    have "worker r \<noteq> Idle"
    proof
      assume idle: "worker r = Idle"
      then have "reply r = None" using False ok(2) by (cases "reply r") (auto simp: pull_ok_def)
      moreover have "command r \<noteq> Some True" "command r \<noteq> Some False"
        using take ok(1) call \<open>reply r = None\<close>
        by (simp_all add: take_reply_def reply_lost_def calls_ok_def split: if_splits)
      then have "command r = None" by (cases "command r") auto
      ultimately show False using ok(1) call(2) idle by (simp add: calls_ok_def)
    qed
    have "\<not> (\<exists>b. e = Delivered b)" "\<not> (\<exists>f. e = Pulled f)"
      using take False
      by (auto simp: take_reply_def split: option.splits sum.splits if_splits)
    then have "pull_ok frames (es @ [e]) r' = pull_ok frames es r'" by (intro pull_ok_quiet) auto
    moreover have "pull_ok frames es r'" using r' ok(2) \<open>worker r \<noteq> Idle\<close>
      by (cases "worker r") (auto simp: pull_ok_def split: option.splits)
    ultimately show ?thesis by simp
  qed
qed

lemma pull_ok_act:
  assumes act: "receive_act display a r = Some (e, r')" and ok: "calls_ok r" "pull_ok frames es r"
  shows "pull_ok frames (es @ [e]) r'"
proof (cases a)
  case NextCall
  with act ok show ?thesis
    by (auto simp: next_call_def pull_ok_quiet split: if_splits option.splits sum.splits
        intro: send_command_pull_ok)
next
  case NextResume
  with act ok show ?thesis
    by (auto simp: next_resume_def pull_ok_quiet pull_ok_orphan split: reading.splits if_splits
        intro: send_command_pull_ok take_reply_pull_ok)
next
  case AbandonNext
  then have "e = Silent" "r' = r\<lparr>reading := Leaving\<rparr> \<and> reading r = Wanting \<or> r' = (orphan r)\<lparr>reading := Leaving\<rparr>"
    using act by (auto simp: abandon_next_def split: reading.splits)
  moreover have "pull_ok frames es (r\<lparr>reading := Leaving\<rparr>)"
    using ok(2) by (cases "worker r") (auto simp: pull_ok_def split: option.splits)
  ultimately show ?thesis using ok by (auto simp: pull_ok_quiet pull_ok_orphan)
next
  case NextGuard
  then have "e = Silent" "r' = (fail_receive sdk_cancelled r)\<lparr>reading := Free\<rparr>"
    using act by (auto simp: next_guard_def split: if_splits)
  moreover have "pull_ok frames es ((fail_receive sdk_cancelled r)\<lparr>reading := Free\<rparr>)"
    using ok(2) by (cases "worker r") (auto simp: pull_ok_def fail_receive_def operation_simps split: option.splits)
  ultimately show ?thesis by (simp add: pull_ok_quiet)
next
  case WorkerStep
  with act ok show ?thesis by (auto intro: worker_step_pull_ok)
next
  case WorkerCancelled
  with act ok show ?thesis
    by (auto simp: worker_cancelled_def worker_failed_def fail_receive_def pull_ok_quiet
        intro: pull_ok_stopped split: if_splits)
next
  case DropWorker
  with act ok show ?thesis by (auto simp: drop_worker_def pull_ok_quiet intro: pull_ok_stopped)
next
  case PollTrailers
  with act ok show ?thesis
    by (auto simp: poll_trailers_def pull_ok_quiet split: if_splits option.splits sum.splits)
next
  case CancelReader
  with act ok show ?thesis by (auto simp: cancel_reader_def pull_ok_quiet pull_ok_fail)
next
  case CancelOwner
  have "\<not> is_cancelled True (receive_op r) \<longrightarrow> \<not> receive_cancelled r" by (auto intro: is_cancelled_owner)
  then have "pull_ok frames es (r\<lparr>owner := True\<rparr>)"
    using ok(2) by (cases "worker r") (auto simp: pull_ok_def split: option.splits)
  then show ?thesis using CancelOwner act by (auto simp: pull_ok_quiet)
next
  case DropReader
  then have "e = Silent" "r' = r\<lparr>reader_alive := False\<rparr> \<or> r' = (cancel_reader r)\<lparr>reader_alive := False\<rparr>"
    using act by (auto simp: drop_reader_def split: if_splits option.splits sum.splits)
  then show ?thesis using ok by (auto simp: pull_ok_quiet pull_ok_alive cancel_reader_def pull_ok_fail)
qed

lemma whole_quiet:
  "(\<And>f. e \<noteq> Pulled f) \<Longrightarrow> (\<And>b. e \<noteq> Delivered b) \<Longrightarrow> whole frames (es @ [e]) = whole frames es"
  by (cases e) (auto simp: whole_def)

text \<open>Once everything is delivered nothing more is pulled or delivered.\<close>

lemma whole_stays:
  assumes act: "receive_act display a r = Some (e, r')" and ok: "calls_ok r" "pull_ok frames es r"
    and whole: "whole frames es"
  shows "whole frames (es @ [e])"
proof (cases "(\<exists>f. e = Pulled f) \<or> (\<exists>b. e = Delivered b)")
  case False
  then show ?thesis using whole_quiet [of e frames es] whole by blast
next
  case True
  have "e \<noteq> Pulled f" for f
  proof
    assume "e = Pulled f"
    then have "a = WorkerStep" "\<exists>b. worker r = Pulling b" "body r \<noteq> []"
      using act by (cases a; auto simp: receive_defs split: if_splits option.splits sum.splits
          reading.splits worker.splits list.splits native_frame.splits)+
    then show False using ok(2) whole by (auto simp: pull_ok_def whole_def)
  qed
  moreover have "e \<noteq> Delivered b" for b
  proof
    assume "e = Delivered b"
    then have "reply r = Some (Inr (Some b))"
      using act by (cases a) (auto simp: receive_defs split: if_splits option.splits sum.splits
          reading.splits worker.splits list.splits native_frame.splits)
    then show False using ok(2) whole by (auto simp: pull_ok_def whole_def)
  qed
  ultimately show ?thesis using True by blast
qed

lemmas receive_splits = if_splits option.splits sum.splits reading.splits worker.splits list.splits
  native_frame.splits

text \<open>Where the signs of a whole body come from.\<close>

lemma whole_origin:
  assumes "receive_act display a r = Some (e, r')"
  shows "completion r' = Some (Inr hs) \<Longrightarrow>
      completion r = Some (Inr hs) \<or> (\<exists>b. worker r = Pulling b) \<and> body r = [] \<and> hs = gathered r"
    and "e = TrailersGiven hs \<Longrightarrow> completion r = Some (Inr hs)"
    and "reply r' = Some (Inr None) \<Longrightarrow> reply r = Some (Inr None) \<or> (\<exists>b. worker r = Answering b None)"
    and "e = EndOfBody \<Longrightarrow> reply r = Some (Inr None) \<or> (\<exists>hs. completion r = Some (Inr hs))"
    and "worker r' = Answering c None \<Longrightarrow>
      (\<exists>b. worker r = Answering b None) \<or> (\<exists>b. worker r = Pulling b) \<and> body r = []"
  using assms by (cases a; auto simp: receive_defs split: receive_splits)+

lemma whole_ok_act:
  assumes act: "receive_act display a r = Some (e, r')" and ok: "calls_ok r" "pull_ok frames es r"
    and whole: "whole_ok frames es r"
  shows "whole_ok frames (es @ [e]) r'"
proof -
  have new: "whole frames es" "gathered r = fields_of frames" if "worker r = Pulling b" "body r = []" for b
    using ok(2) that by (auto simp: pull_ok_def whole_def)
  note stays = whole_stays [OF act ok]
  have "completion r = Some (Inr hs) \<Longrightarrow> whole frames es \<and> hs = fields_of frames" for hs
    using whole by (simp add: whole_ok_def)
  moreover have "worker r = Answering b None \<Longrightarrow> whole frames es" for b
    using whole by (auto simp: whole_ok_def)
  moreover have "reply r = Some (Inr None) \<Longrightarrow> whole frames es" using whole by (simp add: whole_ok_def)
  moreover have "TrailersGiven hs \<in> set es \<Longrightarrow> whole frames es \<and> hs = fields_of frames" for hs
    using whole by (simp add: whole_ok_def)
  moreover have "EndOfBody \<in> set es \<Longrightarrow> whole frames es" using whole by (simp add: whole_ok_def)
  ultimately show ?thesis unfolding whole_ok_def
    using stays new whole_origin [OF act] by (auto 0 3)
qed

lemma receive_run_ok:
  "receive_run display frames p es r \<Longrightarrow> calls_ok r \<and> pull_ok frames es r \<and> whole_ok frames es r"
proof (induction rule: receive_run.induct)
  case receive_start
  show ?case by (simp add: calls_ok_def pull_ok_def whole_ok_def bridge_def)
next
  case (receive_more es r a e r')
  then show ?case using calls_ok_act pull_ok_act whole_ok_act by blast
qed

section \<open>Properties\<close>

text \<open>C20: A received body is delivered faithfully, and on demand.  In every interleaving of calls of
  \<open>next\<close> and \<open>trailers\<close>, dropped calls, cancellations and steps of the worker, the chunks the reader was
  given are a prefix of those of the transport, at most one of which was taken ahead of it, and nothing is
  taken from a body after an error.  The reader is told of the end of the body, or is given trailers, only
  when the transport ended without an error and every chunk was delivered, and the trailers are those of
  all trailer frames in their order.  Dropping the reader after the end does not cancel the operation.\<close>
theorem receive_faithful:
  assumes "receive_run display frames p es r"
  shows "(\<exists>rest. frames = pulled es @ rest) \<and> error_free (pulled es)
    \<and> (\<exists>rest. data_of (pulled es) = delivered es @ rest \<and> length rest \<le> 1)
    \<and> (EndOfBody \<in> set es \<longrightarrow> error_free frames \<and> delivered es = data_of frames)
    \<and> (\<forall>hs. TrailersGiven hs \<in> set es \<longrightarrow>
         error_free frames \<and> delivered es = data_of frames \<and> hs = fields_of frames)
    \<and> (\<forall>hs e r'. completion r = Some (Inr hs) \<and> drop_reader r = Some (e, r')
         \<longrightarrow> receive_op r' = receive_op r)"
proof -
  note ok = receive_run_ok [OF assms]
  have "completion r = Some (Inr hs) \<Longrightarrow> drop_reader r = Some (e, r') \<Longrightarrow> receive_op r' = receive_op r" for hs e r'
    by (auto simp: drop_reader_def split: if_splits)
  then show ?thesis using ok by (auto simp: pull_ok_def whole_ok_def whole_def)
qed

text \<open>A run with two frames of data, read to the end.\<close>

fun receive_acts :: "(path \<Rightarrow> string) \<Rightarrow> receive_action list \<Rightarrow> receive
    \<Rightarrow> (receive_event list \<times> receive) option" where
  "receive_acts display [] r = Some ([], r)"
| "receive_acts display (a # as) r =
     (case receive_act display a r of
        None \<Rightarrow> None
      | Some (e, r') \<Rightarrow>
          (case receive_acts display as r' of None \<Rightarrow> None | Some (es, w) \<Rightarrow> Some (e # es, w)))"

lemma receive_acts_run:
  "receive_acts display as r = Some (es, w) \<Longrightarrow> receive_run display frames p pre r \<Longrightarrow>
     receive_run display frames p (pre @ es) w"
proof (induction as arbitrary: pre r es)
  case (Cons a as)
  then obtain e r' es' where "receive_act display a r = Some (e, r')"
    "receive_acts display as r' = Some (es', w)" "es = e # es'" by (auto split: option.splits)
  with Cons.IH [of r' es' "pre @ [e]"] receive_more [OF Cons.prems(2)] show ?case by simp
qed simp

definition example_frames :: "native_frame list" where
  "example_frames = [DataFrame ''a'', TrailerFrame [(''x'', ''1'')], DataFrame ''b'', TrailerFrame [(''y'', ''2'')]]"

lemma receive_example:
  "\<exists>r. receive_acts (\<lambda>p. []) [NextCall, WorkerStep, WorkerStep, WorkerStep, NextResume, NextCall, WorkerStep,
      WorkerStep, WorkerStep, WorkerStep, NextResume, NextCall, WorkerStep, WorkerStep, WorkerStep, WorkerStep,
      NextResume, PollTrailers] (bridge example_frames owned_by)
   = Some ([Silent, Silent, Pulled (DataFrame ''a''), Silent, Delivered ''a'', Silent, Silent,
      Pulled (TrailerFrame [(''x'', ''1'')]), Pulled (DataFrame ''b''), Silent, Delivered ''b'', Silent, Silent,
      Pulled (TrailerFrame [(''y'', ''2'')]), Silent, WorkerDone, EndOfBody,
      TrailersGiven [(''x'', ''1''), (''y'', ''2'')]], r)"
  by (simp add: receive_defs bridge_def example_frames_def operation_simps)

theorem receive_faithful_witness:
  "\<exists>es r. receive_run (\<lambda>p. []) example_frames owned_by es r \<and> EndOfBody \<in> set es
     \<and> delivered es = [''a'', ''b'']"
proof -
  obtain r where acts: "receive_acts (\<lambda>p. []) [NextCall, WorkerStep, WorkerStep, WorkerStep, NextResume,
      NextCall, WorkerStep, WorkerStep, WorkerStep, WorkerStep, NextResume, NextCall, WorkerStep, WorkerStep,
      WorkerStep, WorkerStep, NextResume, PollTrailers] (bridge example_frames owned_by)
   = Some ([Silent, Silent, Pulled (DataFrame ''a''), Silent, Delivered ''a'', Silent, Silent,
      Pulled (TrailerFrame [(''x'', ''1'')]), Pulled (DataFrame ''b''), Silent, Delivered ''b'', Silent, Silent,
      Pulled (TrailerFrame [(''y'', ''2'')]), Silent, WorkerDone, EndOfBody,
      TrailersGiven [(''x'', ''1''), (''y'', ''2'')]], r)" (is "_ = Some (?es, r)")
    using receive_example by blast
  have run: "receive_run (\<lambda>p. []) example_frames owned_by ?es r"
    using receive_acts_run [OF acts receive_start] by simp
  moreover have "EndOfBody \<in> set ?es" by simp
  ultimately have "delivered ?es = data_of example_frames" using receive_faithful [OF run] by blast
  then show ?thesis using run by (intro exI [of _ ?es] exI [of _ r]) (simp add: example_frames_def data_of_def)
qed

end
