(* ===== verification/Endpoints.thy ===== *)
theory Endpoints
  imports RequestUri IdentityStore Certificates
begin

text \<open>
  Named endpoints of the crate \<open>dhttp\<close>: loading credentials and the admission of
  incoming requests (\<open>dhttp/src/endpoint.rs\<close>), and the check of the peer of an outgoing request
  (\<open>dhttp/src/endpoint/request.rs\<close>).  The QUIC, TLS and HTTP/3 crates are
  parameters; an endpoint is what its credentials were built from.
\<close>

section \<open>Credentials\<close>

record 'k endpoint =
  endpoint_name :: string
  cert_chain :: "string list"
  signing_key :: 'k
  staple :: string

datatype endpoint_error = BadName string | NoHome load_home_error | BadProfile path profile_from_path_error
  | CertsFailed path load_certs_error | KeyFailed path load_key_error | OcspFailed path load_ocsp_error
  | BadCredentials string | OcspRefresh ocsp_error | NoTrust string

text \<open>The category of each error in \<open>dhttp::Error\<close>; the texts of the inner errors are parameters.\<close>

record error_texts =
  home_text :: "load_home_error \<Rightarrow> string"
  profile_text :: "profile_from_path_error \<Rightarrow> string"
  certs_text :: "load_certs_error \<Rightarrow> string"
  key_text :: "load_key_error \<Rightarrow> string"
  staple_text :: "load_ocsp_error \<Rightarrow> string"
  refresh_text :: "ocsp_error \<Rightarrow> string"

definition endpoint_core_error :: "error_texts \<Rightarrow> endpoint_error \<Rightarrow> core_error" where
  "endpoint_core_error t e =
     (case e of
        BadName name \<Rightarrow> InvalidNameError name
      | NoHome e \<Rightarrow> HomeUnavailable (home_text t e)
      | BadProfile p e \<Rightarrow> HomeError p (Opaque (profile_text t e))
      | CertsFailed p e \<Rightarrow> HomeError p (Opaque (certs_text t e))
      | KeyFailed p e \<Rightarrow> HomeError p (Opaque (key_text t e))
      | OcspFailed p e \<Rightarrow> HomeError p (Opaque (staple_text t e))
      | BadCredentials e \<Rightarrow> Credentials e
      | NoTrust e \<Rightarrow> TlsConfig e
      | OcspRefresh e \<Rightarrow> IoError (io_other (Opaque (refresh_text t e))))"

text \<open>What loading reads: the surroundings of the home, the files below a profile, the parsers of PEM
  material and the check of \<open>qbase::endpoint::Endpoint::new\<close>.\<close>

record 'k load_world =
  surroundings :: environment
  files_of :: "path \<Rightarrow> entries option"
  through_links :: "path \<Rightarrow> string \<Rightarrow> probe"
  next_pem :: "string \<Rightarrow> pem_error + (string \<times> string)"
  key_from_pem :: "string \<Rightarrow> 'k option"
  credentials_error :: "string \<Rightarrow> string list \<Rightarrow> 'k \<Rightarrow> string \<Rightarrow> string option"

text \<open>\<open>None\<close> is a chain file whose parse does not return, or a panic.\<close>

definition load_profile :: "'k load_world \<Rightarrow> identity_profile \<Rightarrow> (endpoint_error + 'k endpoint) option" where
  "load_profile w pr =
     (let files = files_of w (profile_path pr); other = through_links w (profile_path pr)
      in map_option (\<lambda>certs.
           and_then (map_err (CertsFailed (cert_path pr)) certs) (\<lambda>certs.
           and_then (map_err (KeyFailed (key_path pr)) (load_key other (key_from_pem w) files)) (\<lambda>key.
           and_then (map_err (OcspFailed (ocsp_path pr)) (load_ocsp other files)) (\<lambda>ocsp.
             case credentials_error w (profile_name pr) certs key ocsp of
               Some e \<Rightarrow> Inl (BadCredentials e)
             | None \<Rightarrow> Inr \<lparr>endpoint_name = profile_name pr, cert_chain = certs,
                           signing_key = key, staple = ocsp\<rparr>))))
         (load_certs other (next_pem w) files))"

definition endpoint_load :: "'k load_world \<Rightarrow> string \<Rightarrow> (endpoint_error + 'k endpoint) option" where
  "endpoint_load w name =
     (case normalize_name name of
        None \<Rightarrow> Some (Inl (BadName name))
      | Some name \<Rightarrow>
          (case load_home (surroundings w) User of
             Inl e \<Rightarrow> Some (Inl (NoHome e))
           | Inr home \<Rightarrow>
               (case identity_profile_of home name of
                  None \<Rightarrow> None
                | Some (Inl _) \<Rightarrow> Some (Inl (BadName name))
                | Some (Inr pr) \<Rightarrow> load_profile w pr)))"

definition endpoint_profile :: "path \<Rightarrow> endpoint_error + identity_profile" where
  "endpoint_profile path =
     and_then (map_err (BadProfile path) (try_from_path path)) (\<lambda>pr.
     if normalize_name (profile_name pr) \<noteq> Some (profile_name pr)
     then Inl (BadName (profile_name pr)) else Inr pr)"

definition load_from :: "'k load_world \<Rightarrow> path \<Rightarrow> (endpoint_error + 'k endpoint) option" where
  "load_from w path =
     (case endpoint_profile path of Inl e \<Rightarrow> Some (Inl e) | Inr pr \<Rightarrow> load_profile w pr)"

text \<open>The refresh leaves a response in the cache of \<open>o\<close>; \<open>with_cache\<close> is the profile with it.\<close>

definition load_from_with_ocsp ::
    "string option \<Rightarrow> 'k load_world \<Rightarrow> ocsp_world \<Rightarrow> (string option \<Rightarrow> 'k load_world) \<Rightarrow> string \<Rightarrow> path
      \<Rightarrow> (endpoint_error + 'k endpoint) option" where
  "load_from_with_ocsp trust w ocsp with_cache root path =
     (case and_then (case trust of Some e \<Rightarrow> Inl (NoTrust e) | None \<Rightarrow> Inr ()) (\<lambda>_. endpoint_profile path) of
        Inl e \<Rightarrow> Some (Inl e)
      | Inr pr \<Rightarrow>
          (case load_certs (through_links w (profile_path pr)) (next_pem w)
                  (files_of w (profile_path pr)) of
             None \<Rightarrow> None
           | Some (Inl e) \<Rightarrow> Some (Inl (CertsFailed (cert_path pr) e))
           | Some (Inr certificates) \<Rightarrow>
               (case load_or_refresh ocsp certificates root of
                  (Inl e, _) \<Rightarrow> Some (Inl (OcspRefresh e))
                | (Inr _, cache) \<Rightarrow> load_from (with_cache cache) path)))"

section \<open>Admission of incoming requests\<close>

text \<open>The URI of a request that is meant for this endpoint.\<close>

definition local_uri :: "http_crate \<Rightarrow> string option \<Rightarrow> uri \<Rightarrow> uri option" where
  "local_uri h local u =
     (case local of
        None \<Rightarrow> None
      | Some name \<Rightarrow>
          (case expand_uri_with_base h (Some name) u of
             Inl _ \<Rightarrow> None
           | Inr uri \<Rightarrow>
               (case uri_authority uri of
                  None \<Rightarrow> None
                | Some authority \<Rightarrow>
                    if CHR ''@'' \<notin> set authority
                      \<and> eq_ignore_ascii_case (strip_suffix_or ''.'' (authority_host h authority)) name
                    then Some uri else None)))"

definition MISDIRECTED_REQUEST :: nat where "MISDIRECTED_REQUEST = 421"
definition REQUEST_CANCELLED :: "64 word" where "REQUEST_CANCELLED = 0x10c"
definition NO_ERROR :: "64 word" where "NO_ERROR = 0x100"

text \<open>How the write direction ends: with the status of the response written, reset with a code, or given
  up by the failed write itself.\<close>

datatype writing = Wrote nat | Reset "64 word"

datatype serve_error = ReadFailed h3_error | AppFailed any_error | WriteFailed h3_error

text \<open>\<open>app\<close> is the service with its readiness, \<open>write\<close> the outcome of \<open>write_response\<close>: a stream error
  with its code, or success.  The result has the requests handed to the service.\<close>

definition handle_request ::
    "http_crate \<Rightarrow> (uri \<times> 'm \<Rightarrow> any_error + nat) \<Rightarrow> (nat \<Rightarrow> (bool \<times> h3_error) option)
      \<Rightarrow> string option \<Rightarrow> h3_error + uri \<times> 'm
      \<Rightarrow> (serve_error + unit) \<times> writing \<times> (uri \<times> 'm) list" where
  "handle_request h app write local request =
     (case request of
        Inl e \<Rightarrow> (Inl (ReadFailed e), Reset REQUEST_CANCELLED, [])
      | Inr (u, message) \<Rightarrow>
          (case local_uri h local u of
             None \<Rightarrow>
               (case write MISDIRECTED_REQUEST of
                  Some (_, e) \<Rightarrow> (Inl (WriteFailed e), Wrote MISDIRECTED_REQUEST, [])
                | None \<Rightarrow> (Inr (), Wrote MISDIRECTED_REQUEST, []))
           | Some uri \<Rightarrow>
               (case app (uri, message) of
                  Inl e \<Rightarrow> (Inl (AppFailed e), Reset REQUEST_CANCELLED, [(uri, message)])
                | Inr status \<Rightarrow>
                    (case write status of
                       Some (stream, e) \<Rightarrow>
                         (if stream \<and> h3_code e = NO_ERROR then Inr () else Inl (WriteFailed e),
                          Wrote status, [(uri, message)])
                     | None \<Rightarrow> (Inr (), Wrote status, [(uri, message)])))))"

section \<open>The peer of an outgoing request\<close>

definition check_peer ::
    "('c \<Rightarrow> extension list option) \<Rightarrow> owner_hash option \<Rightarrow> 'c list option \<Rightarrow> core_error + unit" where
  "check_peer parse expected peer =
     (case expected of
        None \<Rightarrow> Inr ()
      | Some owner \<Rightarrow>
          (case peer of
             None \<Rightarrow> Inl RemoteIdentityChanged
           | Some certificates \<Rightarrow>
               (case extract_dhttp_ski parse certificates of
                  Inl _ \<Rightarrow> Inl RemoteIdentityChanged
                | Inr identifier \<Rightarrow>
                    if ski_owner_hash identifier \<noteq> owner then Inl RemoteIdentityChanged else Inr ())))"

section \<open>Facts\<close>

lemma local_uri_Some:
  "local_uri h local u = Some v \<longleftrightarrow>
     (\<exists>name authority. local = Some name \<and> expand_uri_with_base h (Some name) u = Inr v
        \<and> uri_authority v = Some authority \<and> CHR ''@'' \<notin> set authority
        \<and> eq_ignore_ascii_case (strip_suffix_or ''.'' (authority_host h authority)) name)"
  by (auto simp: local_uri_def split: option.splits sum.splits)

lemma stem_directory:
  assumes "canonical (d @ DHTTP_SUFFIX)" "\<not> ends_with DHTTP_SUFFIX d"
  shows "normalize_profile_name d = Some (d @ DHTTP_SUFFIX)"
proof -
  have labels: "list_all valid_label (split_on CHR ''.'' d)"
    using canonical_stem [OF assms(1)] by auto
  have "c \<in> set d \<Longrightarrow> c \<noteq> CHR ''*''" for c
    using valid_labels_bytes [OF labels, of c] name_byte_code by blast
  then have "CHR ''*'' \<notin> set d" by blast
  then have "\<not> starts_with ''*.'' d" by (auto simp: starts_with_iff)
  moreover have "normalize_name d = Some (d @ DHTTP_SUFFIX)"
    using labels assms valid_labels_no_tilde_end [OF labels]
    by (simp add: normalize_name_def valid_labels_lower valid_labels_trim canonical_def
        strip_suffix_None Let_def strip_suffix_def)
  ultimately show ?thesis by (simp add: normalize_profile_name_def strip_prefix_def)
qed

lemma load_profile_Inr:
  assumes "load_profile w pr = Some (Inr e)"
  shows "endpoint_name e = profile_name pr
    \<and> credentials_error w (endpoint_name e) (cert_chain e) (signing_key e) (staple e) = None \<and> staple e \<noteq> []"
  using assms
  by (auto simp: load_profile_def Let_def and_then_eq_Inr load_ocsp_def split: option.splits if_splits)

lemma identity_profile_of_canonical:
  assumes "canonical (d @ DHTTP_SUFFIX)"
  shows "identity_profile_of home (d @ DHTTP_SUFFIX) = Some (Inr (dir_profile home d))"
proof -
  have "normalize_profile_name (d @ DHTTP_SUFFIX) = Some (d @ DHTTP_SUFFIX)"
    using assms normalize_profile_id by (simp add: profile_canonical_def)
  moreover from this obtain d' where "d @ DHTTP_SUFFIX = d' @ DHTTP_SUFFIX"
      "join_identity_name home (d @ DHTTP_SUFFIX) = Some (Inr (home @ [d']))"
    by (rule join_identity_name_Some [of "d @ DHTTP_SUFFIX" "d @ DHTTP_SUFFIX" home])
  ultimately show ?thesis by (simp add: identity_profile_of_def dir_profile_def)
qed

lemma handle_request_served:
  "local_uri h local w = Some x \<Longrightarrow>
     snd (snd (handle_request h app write local (Inr (w, m)))) = [(x, m)]"
  by (simp add: handle_request_def split: sum.splits option.splits)

lemma handle_request_misdirected:
  "local_uri h local w = None \<Longrightarrow>
     handle_request h app write local (Inr (w, m)) =
       (case write MISDIRECTED_REQUEST of Some (_, e) \<Rightarrow> Inl (WriteFailed e) | None \<Rightarrow> Inr (),
        Wrote MISDIRECTED_REQUEST, [])"
  by (simp add: handle_request_def split: option.splits)

lemma routed_dhttp:
  assumes "routed name port remote" "ends_with DHTTP_SUFFIX remote"
  shows "remote = to_ascii_lowercase (strip_suffix_or ''.'' name)"
proof (rule ccontr)
  assume "remote \<noteq> to_ascii_lowercase (strip_suffix_or ''.'' name)"
  then obtain p where "remote = to_ascii_lowercase (strip_suffix_or ''.'' name) @ '':'' @ show_nat p"
    using assms(1) by (auto simp: routed_def Let_def split: if_splits)
  then have "last remote = last (show_nat p)" by simp
  moreover have "last remote = CHR ''t''" using assms(2) by (auto simp: ends_with_iff DHTTP_SUFFIX_def)
  ultimately have "is_ascii_digit CHR ''t''"
    using show_nat_digits [of "CHR ''t''" p] last_in_set [of "show_nat p"] by simp
  then show False by (simp add: is_ascii_digit_def code_def)
qed

lemma host_name_plain: "host_name base host name \<Longrightarrow> plain_host host \<Longrightarrow> plain_host name"
  by (auto simp: host_name_def canonical_def split: if_splits
      dest!: normalize_name_canonical dest: valid_name_host)

section \<open>Properties\<close>

text \<open>Loading by name and loading by directory agree.  For a name and a home, the endpoint of the name is
  the one of its directory below the home, unless the short form of the name ends in the suffix itself; it
  carries the canonical name, credentials that were accepted for it and a staple.  An endpoint loaded from any
  directory has a canonical name, so never that of a wildcard profile.\<close>
theorem endpoint_load_agrees:
  assumes name: "normalize_name name = Some (d @ DHTTP_SUFFIX)"
    and home: "load_home (surroundings w) User = Inr home"
  shows "(\<not> ends_with DHTTP_SUFFIX d \<longrightarrow> endpoint_load w name = load_from w (home @ [d]))
    \<and> (\<forall>e. endpoint_load w name = Some (Inr e) \<longrightarrow> endpoint_name e = d @ DHTTP_SUFFIX
         \<and> credentials_error w (endpoint_name e) (cert_chain e) (signing_key e) (staple e) = None
         \<and> staple e \<noteq> [])
    \<and> (\<forall>p e. load_from w p = Some (Inr e) \<longrightarrow> canonical (endpoint_name e)
         \<and> \<not> starts_with ''*.'' (endpoint_name e))"
proof (intro conjI allI impI)
  have n: "canonical (d @ DHTTP_SUFFIX)" using name by (rule normalize_name_canonical)
  have load: "endpoint_load w name = load_profile w (dir_profile home d)"
    using name home identity_profile_of_canonical [OF n] by (simp add: endpoint_load_def)
  {
    assume "\<not> ends_with DHTTP_SUFFIX d"
    then have "try_from_path (home @ [d]) = Inr (dir_profile home d)"
      using stem_directory [OF n] try_from_path_dir by simp
    then show "endpoint_load w name = load_from w (home @ [d])"
      using load normalize_name_id [OF n] by (simp add: load_from_def endpoint_profile_def dir_profile_def)
  }
  fix e assume "endpoint_load w name = Some (Inr e)"
  then have "load_profile w (dir_profile home d) = Some (Inr e)" using load by simp
  from load_profile_Inr [OF this] show "endpoint_name e = d @ DHTTP_SUFFIX" "staple e \<noteq> []"
    "credentials_error w (endpoint_name e) (cert_chain e) (signing_key e) (staple e) = None"
    unfolding dir_profile_def by auto
next
  fix p e assume "load_from w p = Some (Inr e)"
  then obtain pr where "endpoint_profile p = Inr pr" "load_profile w pr = Some (Inr e)"
    by (auto simp: load_from_def split: sum.splits)
  then have "normalize_name (endpoint_name e) = Some (endpoint_name e)"
    using load_profile_Inr [of w pr e] by (auto simp: endpoint_profile_def and_then_eq_Inr split: if_splits)
  then show "canonical (endpoint_name e)" by (rule normalize_name_canonical)
  then show "\<not> starts_with ''*.'' (endpoint_name e)" by (rule canonical_no_star)
qed



definition example_world :: "string load_world" where
  "example_world = \<lparr>surroundings = \<lparr>env_home = Some [''/'', ''h''], env_global_home = None, home_dir = None,
       compiled_global = None, unix_or_windows = True, linux_or_macos = True\<rparr>,
     files_of = (\<lambda>p. if p = [''/'', ''h'', ''alice''] then Some [(''ssl'', Dir [(''fullchain.crt'', File 0x100 ''c''),
       (''privkey.pem'', File 0x100 ''k''), (''stapling.ocsp'', File 0x100 ''o'')])] else None),
     through_links = (\<lambda>_ _. (Inl NotFoundKind, Inl NotFoundKind)),
     next_pem = (\<lambda>s. if s = ''c'' then Inr (''c'', []) else Inl MissingHeader),
     key_from_pem = Some, credentials_error = (\<lambda>_ _ _ _. None)\<rparr>"

lemma example_load:
  "load_from example_world [''/'', ''h'', ''alice'']
   = Some (Inr \<lparr>endpoint_name = ''alice.dhttp.net'', cert_chain = [''c''], signing_key = ''k'', staple = ''o''\<rparr>)"
proof -
  have "parse_chain (next_pem example_world) ''c'' = Some (Inr [''c''])"
    by (simp add: parse_chain_def example_world_def) (subst read_pems.simps, simp)
  moreover have "endpoint_profile [''/'', ''h'', ''alice'']
      = Inr \<lparr>profile_path = [''/'', ''h'', ''alice''], profile_name = ''alice.dhttp.net''\<rparr>"
    by code_simp
  ultimately show ?thesis
    by (simp add: load_from_def load_profile_def load_certs_def load_key_def load_ocsp_def material_at_def
        example_world_def SSL_DIR_NAME_def CERT_FILE_NAME_def KEY_FILE_NAME_def OCSP_FILE_NAME_def MATERIAL_MODE_def)
qed

theorem endpoint_load_agrees_witness:
  "endpoint_load example_world ''Alice~''
   = Some (Inr \<lparr>endpoint_name = ''alice.dhttp.net'', cert_chain = [''c''], signing_key = ''k'', staple = ''o''\<rparr>)"
proof -
  have "normalize_name ''Alice~'' = Some (''alice'' @ DHTTP_SUFFIX)" by code_simp
  moreover have "load_home (surroundings example_world) User = Inr [''/'', ''h'']" by code_simp
  moreover have "\<not> ends_with DHTTP_SUFFIX ''alice''" by code_simp
  ultimately have "endpoint_load example_world ''Alice~'' = load_from example_world ([''/'', ''h''] @ [''alice''])"
    using endpoint_load_agrees [of "''Alice~''" "''alice''" example_world "[''/'', ''h'']"] by blast
  then show ?thesis using example_load by simp
qed

end
