(* ===== verification/Requests.thy ===== *)
theory Requests
  imports Endpoints Uploads
begin

text \<open>
  Outgoing requests of the crate \<open>dhttp\<close>, file \<open>dhttp/src/endpoint/request.rs\<close>: the builder, the
  connection with its check of the peer, and the writer of a streaming request.  Header fields are the list
  of the fields in the order they were appended; the window of the crate \<open>h3x\<close> is the list of the calls
  made on it, with the outcome of each poll as an argument.
\<close>

section \<open>Fields\<close>

definition fields_append :: "string \<Rightarrow> string \<Rightarrow> header_map \<Rightarrow> header_map" where
  "fields_append name v hs = hs @ [(name, v)]"

definition fields_set :: "string \<Rightarrow> string \<Rightarrow> header_map \<Rightarrow> header_map" where
  "fields_set name v hs = filter (\<lambda>(n, _). n \<noteq> name) hs @ [(name, v)]"

section \<open>The builder\<close>

definition REQUEST_WINDOW_BYTES :: nat where
  "REQUEST_WINDOW_BYTES = 64 * 1024"

datatype request_body = EmptyBody | Window nat string

record 'k request =
  endpoint_of :: "'k endpoint option"
  request_method :: string
  request_uri :: uri
  request_headers :: header_map
  request_trailers :: header_map
  request_body :: request_body
  expected_owner :: "owner_hash option"

definition empty_request :: "'k endpoint option \<Rightarrow> string \<Rightarrow> uri \<Rightarrow> 'k request" where
  "empty_request e http_method u = \<lparr>endpoint_of = e, request_method = http_method, request_uri = u,
     request_headers = [], request_trailers = [], request_body = EmptyBody, expected_owner = None\<rparr>"

definition with_body :: "request_body \<Rightarrow> 'k request \<Rightarrow> 'k request" where
  "with_body b r = r\<lparr>request_body := b\<rparr>"

definition streaming_request :: "'k endpoint option \<Rightarrow> string \<Rightarrow> uri \<Rightarrow> 'k request" where
  "streaming_request e http_method u = with_body (Window REQUEST_WINDOW_BYTES []) (empty_request e http_method u)"

text \<open>The methods of \<open>Endpoint\<close> and, with no endpoint, of \<open>Anonymous\<close>.\<close>

definition endpoint_get where "endpoint_get e u = empty_request e ''GET'' u"
definition endpoint_head where "endpoint_head e u = empty_request e ''HEAD'' u"
definition endpoint_delete where "endpoint_delete e u = empty_request e ''DELETE'' u"
definition endpoint_options where "endpoint_options e u = empty_request e ''OPTIONS'' u"
definition endpoint_post where "endpoint_post e u = streaming_request e ''POST'' u"
definition endpoint_put where "endpoint_put e u = streaming_request e ''PUT'' u"
definition endpoint_patch where "endpoint_patch e u = streaming_request e ''PATCH'' u"

definition expect_remote_owner_hash :: "owner_hash \<Rightarrow> 'k request \<Rightarrow> 'k request" where
  "expect_remote_owner_hash owner r = r\<lparr>expected_owner := Some owner\<rparr>"

definition set_header :: "string \<Rightarrow> string \<Rightarrow> 'k request \<Rightarrow> 'k request" where
  "set_header name v r = r\<lparr>request_headers := fields_set name v (request_headers r)\<rparr>"

definition append_header :: "string \<Rightarrow> string \<Rightarrow> 'k request \<Rightarrow> 'k request" where
  "append_header name v r = r\<lparr>request_headers := fields_append name v (request_headers r)\<rparr>"

definition set_request_trailer :: "string \<Rightarrow> string \<Rightarrow> 'k request \<Rightarrow> 'k request" where
  "set_request_trailer name v r = r\<lparr>request_trailers := fields_set name v (request_trailers r)\<rparr>"

definition append_request_trailer :: "string \<Rightarrow> string \<Rightarrow> 'k request \<Rightarrow> 'k request" where
  "append_request_trailer name v r = r\<lparr>request_trailers := fields_append name v (request_trailers r)\<rparr>"

definition write_initial :: "string \<Rightarrow> 'k request \<Rightarrow> 'k request" where
  "write_initial data = with_body (Window (max REQUEST_WINDOW_BYTES (length data)) data)"

section \<open>The connection\<close>

text \<open>\<open>network\<close> is the global network, if it was initialised: it finds or makes a connection for the local
  endpoint and the remote name, and gives the certificates of its peer.\<close>

definition connect_request ::
    "http_crate \<Rightarrow> ('c \<Rightarrow> extension list option)
      \<Rightarrow> ('k endpoint option \<Rightarrow> string \<Rightarrow> core_error + 'conn \<times> 'c list option) option
      \<Rightarrow> 'k request \<Rightarrow> core_error + 'conn \<times> 'k request" where
  "connect_request h parse network r =
     and_then (resolve_request_uri h (map_option endpoint_name (endpoint_of r)) (request_uri r)) (\<lambda>(u, remote).
     and_then (ok_or NetworkNotInitialized network) (\<lambda>get_connection.
     and_then (get_connection (endpoint_of r) remote) (\<lambda>(conn, peer).
     and_then (check_peer parse (expected_owner r) peer) (\<lambda>_.
       Inr (conn, r\<lparr>request_uri := u\<rparr>)))))"

text \<open>An empty request: both directions, except that the peer may decline the request.\<close>

definition declined :: "(bool \<times> h3_error) + unit \<Rightarrow> h3_error + unit" where
  "declined writing =
     (case writing of
        Inl (stream, e) \<Rightarrow> if stream \<and> h3_code e = NO_ERROR then Inr () else Inl e
      | Inr _ \<Rightarrow> Inr ())"

text \<open>\<open>try_join\<close> of the two directions, when the write direction fails first or both are done.\<close>

definition send_empty_request :: "(bool \<times> h3_error) + unit \<Rightarrow> h3_error + 'r \<Rightarrow> core_error + 'r" where
  "send_empty_request writing reading =
     (case declined writing of Inl e \<Rightarrow> Inl (Http3 e) | Inr _ \<Rightarrow> map_err Http3 reading)"

section \<open>The writer of a streaming request\<close>

datatype window_call = WindowWrite string | WindowFlush | WindowShutdown | WindowCancel "64 word"

text \<open>\<open>upload\<close> is the task that sends the request, taken once its result was seen: \<open>None\<close> inside while it
  runs.\<close>

record request_writer =
  window :: "window_call list"
  writer_trailers :: header_map
  writer_closed :: bool
  upload_task :: "(io_error + unit) option option"
  aborted :: bool

definition send_request :: "'k request \<Rightarrow> request_writer" where
  "send_request r = \<lparr>window = [], writer_trailers = request_trailers r, writer_closed = False,
     upload_task = Some None, aborted = False\<rparr>"

datatype writer_error = BrokenPipe | WindowError nat | UploadError io_error

definition writer_ensure_open :: "request_writer \<Rightarrow> writer_error + unit" where
  "writer_ensure_open w =
     (if writer_closed w \<or> upload_task w \<noteq> Some None then Inl BrokenPipe else Inr ())"

definition writer_trailer :: "string \<Rightarrow> string \<Rightarrow> request_writer \<Rightarrow> (writer_error + unit) \<times> request_writer" where
  "writer_trailer name v w =
     (case writer_ensure_open w of
        Inl e \<Rightarrow> (Inl e, w)
      | Inr _ \<Rightarrow> (Inr (), w\<lparr>writer_trailers := fields_set name v (writer_trailers w)\<rparr>))"

definition writer_append_trailer ::
    "string \<Rightarrow> string \<Rightarrow> request_writer \<Rightarrow> (writer_error + unit) \<times> request_writer" where
  "writer_append_trailer name v w =
     (case writer_ensure_open w of
        Inl e \<Rightarrow> (Inl e, w)
      | Inr _ \<Rightarrow> (Inr (), w\<lparr>writer_trailers := fields_append name v (writer_trailers w)\<rparr>))"

definition writer_cancel :: "64 word \<Rightarrow> request_writer \<Rightarrow> request_writer" where
  "writer_cancel ec w =
     (let w = w\<lparr>writer_closed := True\<rparr>
      in if upload_task w = Some None then w\<lparr>window := window w @ [WindowCancel ec], aborted := True\<rparr> else w)"

definition writer_drop :: "request_writer \<Rightarrow> request_writer" where
  "writer_drop = writer_cancel REQUEST_CANCELLED"

text \<open>A poll gives \<open>None\<close> while it is pending; \<open>answer\<close> is that of the window.\<close>

definition writer_poll_write ::
    "string \<Rightarrow> (writer_error + nat) option \<Rightarrow> request_writer \<Rightarrow> (writer_error + nat) option \<times> request_writer" where
  "writer_poll_write bytes answer w =
     (if writer_closed w then (Some (Inl BrokenPipe), w)
      else (answer, w\<lparr>window := window w @ [WindowWrite bytes]\<rparr>))"

definition writer_poll_flush ::
    "(writer_error + unit) option \<Rightarrow> request_writer \<Rightarrow> (writer_error + unit) option \<times> request_writer" where
  "writer_poll_flush answer w = (answer, w\<lparr>window := window w @ [WindowFlush]\<rparr>)"

definition writer_poll_shutdown ::
    "(writer_error + unit) option \<Rightarrow> request_writer \<Rightarrow> (writer_error + unit) option \<times> request_writer" where
  "writer_poll_shutdown answer w =
     (let w = w\<lparr>writer_closed := True, window := window w @ [WindowShutdown]\<rparr>
      in case answer of
           None \<Rightarrow> (None, w)
         | Some (Inl e) \<Rightarrow> (Some (Inl e), w)
         | Some (Inr _) \<Rightarrow>
             (case upload_task w of
                None \<Rightarrow> (Some (Inr ()), w)
              | Some None \<Rightarrow> (None, w)
              | Some (Some r) \<Rightarrow> (Some (map_err UploadError r), w\<lparr>upload_task := None\<rparr>)))"

section \<open>Runs of the writer\<close>

text \<open>What happens to a writer: calls on it, the end of its task, and a failed response, which cancels the
  window it shares.\<close>

datatype writer_action = SetTrailer string string | AppendTrailer string string
  | PollWrite string "(writer_error + nat) option" | PollFlush "(writer_error + unit) option"
  | PollShutdown "(writer_error + unit) option" | CancelWriter "64 word" | TaskDone "io_error + unit"
  | ResponseFailed "64 word"

fun writer_act :: "writer_action \<Rightarrow> request_writer \<Rightarrow> request_writer" where
  "writer_act (SetTrailer n v) w = snd (writer_trailer n v w)"
| "writer_act (AppendTrailer n v) w = snd (writer_append_trailer n v w)"
| "writer_act (PollWrite bytes answer) w = snd (writer_poll_write bytes answer w)"
| "writer_act (PollFlush answer) w = snd (writer_poll_flush answer w)"
| "writer_act (PollShutdown answer) w = snd (writer_poll_shutdown answer w)"
| "writer_act (CancelWriter ec) w = writer_cancel ec w"
| "writer_act (TaskDone r) w = (if upload_task w = Some None then w\<lparr>upload_task := Some (Some r)\<rparr> else w)"
| "writer_act (ResponseFailed ec) w = w\<lparr>window := window w @ [WindowCancel ec], aborted := True\<rparr>"

inductive writer_step :: "request_writer \<Rightarrow> request_writer \<Rightarrow> bool" where
  writer_step: "writer_step w (writer_act a w)"

inductive_cases writer_stepE: "writer_step w w'"

definition written :: "request_writer \<Rightarrow> string" where
  "written w = concat (map (\<lambda>c. case c of WindowWrite bytes \<Rightarrow> bytes | _ \<Rightarrow> []) (window w))"

lemmas writer_defs = writer_trailer_def writer_append_trailer_def writer_ensure_open_def writer_poll_write_def
  writer_poll_flush_def writer_poll_shutdown_def writer_cancel_def Let_def

lemma writer_act_closed:
  "writer_closed w \<Longrightarrow> writer_closed (writer_act a w) \<and> writer_trailers (writer_act a w) = writer_trailers w
     \<and> written (writer_act a w) = written w"
  by (cases a) (auto simp: writer_defs written_def split: option.splits sum.splits if_splits)

lemma writer_act_shutdown:
  "(WindowShutdown \<in> set (window w) \<longrightarrow> writer_closed w) \<Longrightarrow>
     WindowShutdown \<in> set (window (writer_act a w)) \<longrightarrow> writer_closed (writer_act a w)"
  by (cases a) (auto simp: writer_defs split: option.splits sum.splits if_splits)

lemma writer_steps_shutdown:
  "writer_step\<^sup>*\<^sup>* (send_request r) w \<Longrightarrow> WindowShutdown \<in> set (window w) \<longrightarrow> writer_closed w"
proof (induction rule: rtranclp_induct)
  case (step y z)
  then show ?case using writer_act_shutdown by (auto elim!: writer_stepE)
qed (simp add: send_request_def)

lemma writer_steps_closed:
  "writer_step\<^sup>*\<^sup>* w w' \<Longrightarrow> writer_closed w \<Longrightarrow>
     writer_closed w' \<and> writer_trailers w' = writer_trailers w \<and> written w' = written w"
proof (induction rule: rtranclp_induct)
  case (step y z)
  then show ?case using writer_act_closed by (auto elim!: writer_stepE)
qed simp

section \<open>Properties\<close>

text \<open>The end of a request is final.  The end of a request body is published only by a writer that is
  closed; once a writer is closed, by a shutdown or a cancellation, no call, no end of its task and no failed
  response changes the trailers or the bytes of the request, and every later trailer or write is refused.\<close>
theorem request_end_is_final:
  assumes start: "writer_step\<^sup>*\<^sup>* (send_request r) w" and later: "writer_step\<^sup>*\<^sup>* w w'"
    and ended: "writer_closed w \<or> WindowShutdown \<in> set (window w)"
  shows "writer_trailers w' = writer_trailers w \<and> written w' = written w
    \<and> writer_trailer n v w' = (Inl BrokenPipe, w') \<and> writer_append_trailer n v w' = (Inl BrokenPipe, w')
    \<and> writer_poll_write bytes answer w' = (Some (Inl BrokenPipe), w')"
  using writer_steps_closed [OF later] writer_steps_shutdown [OF start] ended
  by (auto simp: writer_trailer_def writer_append_trailer_def writer_ensure_open_def writer_poll_write_def)

theorem request_end_is_final_witness:
  "let w = writer_act (PollShutdown None) (writer_act (SetTrailer ''t'' ''1'') (send_request (endpoint_post
        (None :: unit endpoint option) \<lparr>uri_scheme = None, uri_authority = None, uri_path = None\<rparr>)));
       w' = writer_act (AppendTrailer ''t'' ''2'') w
   in writer_trailers w' = [(''t'', ''1'')] \<and> writer_trailer ''t'' ''3'' w' = (Inl BrokenPipe, w')"
proof -
  let ?r = "endpoint_post (None :: unit endpoint option) \<lparr>uri_scheme = None, uri_authority = None, uri_path = None\<rparr>"
  let ?w = "writer_act (PollShutdown None) (writer_act (SetTrailer ''t'' ''1'') (send_request ?r))"
  have start: "writer_step\<^sup>*\<^sup>* (send_request ?r) ?w"
    by (rule rtranclp_trans [OF r_into_rtranclp r_into_rtranclp]; rule writer_step)
  have later: "writer_step\<^sup>*\<^sup>* ?w (writer_act (AppendTrailer ''t'' ''2'') ?w)"
    by (rule r_into_rtranclp) (rule writer_step)
  have "writer_closed ?w" "writer_trailers ?w = [(''t'', ''1'')]"
    by (simp_all add: writer_defs send_request_def endpoint_post_def streaming_request_def with_body_def
        empty_request_def fields_set_def)
  with request_end_is_final [OF start later] show ?thesis by (simp add: Let_def)
qed

text \<open>A request that expects an owner is sent to no one else.  The connection it is given is that of the
  resolved URI and the endpoint, whichever side opened it, and the first certificate of its peer carries a
  subject key identifier with the expected owner; any other peer, or none, is refused as a changed identity.\<close>
theorem request_pinned_to_owner:
  assumes connect: "connect_request h parse network r = Inr (conn, r')"
  shows "\<exists>u remote get peer. resolve_request_uri h (map_option endpoint_name (endpoint_of r)) (request_uri r) = Inr (u, remote)
    \<and> network = Some get \<and> get (endpoint_of r) remote = Inr (conn, peer) \<and> r' = r\<lparr>request_uri := u\<rparr>
    \<and> (\<forall>owner. expected_owner r = Some owner \<longrightarrow>
         (\<exists>c cs exts ext bytes ski. peer = Some (c # cs) \<and> parse c = Some exts \<and> ext \<in> set exts
            \<and> ext_key_identifier ext = Some bytes \<and> ski_from_bytes bytes = Inr ski \<and> ski_owner_hash ski = owner))"
proof -
  obtain u remote get peer where parts:
    "resolve_request_uri h (map_option endpoint_name (endpoint_of r)) (request_uri r) = Inr (u, remote)"
    "network = Some get" "get (endpoint_of r) remote = Inr (conn, peer)" "r' = r\<lparr>request_uri := u\<rparr>"
    and check: "check_peer parse (expected_owner r) peer = Inr ()"
    using connect by (auto simp: connect_request_def and_then_eq_Inr)
  have "\<exists>c cs exts ext bytes ski. peer = Some (c # cs) \<and> parse c = Some exts \<and> ext \<in> set exts
      \<and> ext_key_identifier ext = Some bytes \<and> ski_from_bytes bytes = Inr ski \<and> ski_owner_hash ski = owner"
    if owner: "expected_owner r = Some owner" for owner
  proof -
    obtain chain ski where chain: "peer = Some chain" "extract_dhttp_ski parse chain = Inr ski"
      "ski_owner_hash ski = owner"
      using check owner by (auto simp: check_peer_def split: option.splits sum.splits if_splits)
    then obtain bytes where "extract_ski parse chain = Inr (Some bytes)" "ski_from_bytes bytes = Inr ski"
      by (auto simp: extract_dhttp_ski_def and_then_eq_Inr)
    moreover from this obtain c cs exts where "chain = c # cs" "parse c = Some exts" "first_ski exts = Inr (Some bytes)"
      by (auto simp: extract_ski_def split: list.splits option.splits)
    ultimately show ?thesis using chain(1,3) by (auto simp: first_ski_Some)
  qed
  with parts show ?thesis by blast
qed

definition example_ski :: dhttp_ski where
  "example_ski = \<lparr>ski_chain = \<lparr>chain_sequence = CertificateSequence 7, chain_usage = ClientOnly\<rparr>,
     ski_owner_hash = OwnerHash (replicate 64 CHR ''a'')\<rparr>"

lemma example_ski_read: "ski_from_bytes (show_ski example_ski) = Inr example_ski"
  by (rule ski_text_roundtrip)
     (simp add: example_ski_def ski_ok_def sequence_ok_def list_all_iff owner_hash_byte_def code_def)

theorem request_pinned_to_owner_witness:
  "\<exists>ski. ski_from_bytes (show_ski example_ski) = Inr ski \<and> ski_owner_hash ski = ski_owner_hash example_ski"
proof -
  let ?u = "\<lparr>uri_scheme = Some ''https'', uri_authority = Some ''bob~'', uri_path = None\<rparr>"
  let ?v = "\<lparr>uri_scheme = Some ''https'', uri_authority = Some ''bob.dhttp.net'', uri_path = None\<rparr>"
  let ?r = "expect_remote_owner_hash (ski_owner_hash example_ski) (endpoint_get (None :: unit endpoint option) ?u)"
  let ?parse = "\<lambda>c. Some [\<lparr>ext_key_identifier = Some c, ext_is_ski = True\<rparr>]"
  let ?get = "\<lambda>(e :: unit endpoint option) (remote :: string). Inr ((), Some [show_ski example_ski])"
  have "resolve_request_uri plain_http None ?u = Inr (?v, ''bob.dhttp.net'')" by code_simp
  then have "connect_request plain_http ?parse (Some ?get) ?r = Inr ((), ?r\<lparr>request_uri := ?v\<rparr>)"
    using example_ski_read
    by (simp add: connect_request_def expect_remote_owner_hash_def endpoint_get_def empty_request_def
        check_peer_def extract_dhttp_ski_def extract_ski_def)
  from request_pinned_to_owner [OF this] show ?thesis by (auto simp: expect_remote_owner_hash_def)
qed

end
