(* ===== verification/NatMappings.thy ===== *)
theory NatMappings
  imports Prelude
begin

text \<open>
  The NAT state of a socket: the crate \<open>dhttp\<close>, file \<open>dhttp/src/network/interfaces/nat.rs\<close>.  The QUIC
  protocol and the address book of \<open>qprotocol\<close> are parameters, records of their operations on an abstract
  state, with what the code relies on as a contract.  A hash map is the list of its entries in some order.
\<close>

section \<open>Addresses\<close>

record socket_addr =
  is_ipv4 :: bool
  addr_bits :: nat
  port :: nat

datatype endpoint_addr = Direct socket_addr | Mediate socket_addr socket_addr

datatype nat_type = FullCone | OtherNat nat

text \<open>STUN server to observed outer address.\<close>

type_synonym outer_addr_mappings = "(socket_addr \<times> socket_addr) list"

definition same_mappings :: "outer_addr_mappings \<Rightarrow> outer_addr_mappings \<Rightarrow> bool" where
  "same_mappings xs ys \<longleftrightarrow> set xs = set ys"

text \<open>The endpoints registered for a socket, sorted and without duplicates: \<open>arrange\<close> puts them into the
  order of \<open>EndpointAddr\<close>.\<close>

definition registered_endpoints ::
    "(endpoint_addr list \<Rightarrow> endpoint_addr list) \<Rightarrow> socket_addr \<Rightarrow> outer_addr_mappings \<Rightarrow> endpoint_addr list" where
  "registered_endpoints arrange bound mappings =
     arrange (remdups (Direct bound # concat (map (\<lambda>(server, outer). [Direct outer, Mediate server outer]) mappings)))"

definition published_endpoints ::
    "nat_type option \<Rightarrow> socket_addr \<Rightarrow> outer_addr_mappings \<Rightarrow> endpoint_addr list" where
  "published_endpoints kind bound mappings =
     remdups (filter (\<lambda>e. e \<noteq> Direct bound)
       (concat (map (\<lambda>(agent, outer).
          Mediate agent outer # (if kind = Some FullCone then [Direct outer] else [])) mappings)))"

section \<open>The parameters\<close>

record 'q quic_ops =
  quic_find :: "'q \<Rightarrow> endpoint_addr \<Rightarrow> nat option"
  quic_register :: "endpoint_addr \<Rightarrow> nat \<Rightarrow> 'q \<Rightarrow> string + 'q"
  quic_unregister :: "socket_addr \<Rightarrow> 'q \<Rightarrow> 'q"

record 'b book_ops =
  book_published :: "'b \<Rightarrow> endpoint_addr \<Rightarrow> bool"
  book_insert_outer :: "nat \<Rightarrow> endpoint_addr \<Rightarrow> 'b \<Rightarrow> string + 'b"
  book_set_nat :: "socket_addr \<Rightarrow> nat_type \<Rightarrow> 'b \<Rightarrow> 'b"
  book_remove :: "endpoint_addr \<Rightarrow> 'b \<Rightarrow> 'b"

datatype nat_error = NotConnected | AddrInUse endpoint_addr | OtherNatError string

section \<open>Applying mappings\<close>

fun register_all :: "'q quic_ops \<Rightarrow> nat \<Rightarrow> endpoint_addr list \<Rightarrow> 'q \<Rightarrow> (nat_error + unit) \<times> 'q" where
  "register_all ops socket [] q = (Inr (), q)"
| "register_all ops socket (e # es) q =
     (case quic_register ops e socket q of
        Inl err \<Rightarrow> (Inl (OtherNatError err), q)
      | Inr q' \<Rightarrow> register_all ops socket es q')"

text \<open>The publications made, in their order, whether or not one failed.\<close>

fun publish_all ::
    "'b book_ops \<Rightarrow> nat \<Rightarrow> endpoint_addr list \<Rightarrow> endpoint_addr list \<Rightarrow> 'b
      \<Rightarrow> (nat_error + unit) \<times> endpoint_addr list \<times> 'b" where
  "publish_all ops socket added [] b = (Inr (), added, b)"
| "publish_all ops socket added (e # es) b =
     (case book_insert_outer ops socket e b of
        Inl err \<Rightarrow> (Inl (OtherNatError err), added, b)
      | Inr b' \<Rightarrow> publish_all ops socket (added @ [e]) es b')"

text \<open>The registration of the roll-back ignores errors.\<close>

fun restore_all :: "'q quic_ops \<Rightarrow> nat \<Rightarrow> endpoint_addr list \<Rightarrow> 'q \<Rightarrow> 'q" where
  "restore_all ops socket [] q = q"
| "restore_all ops socket (e # es) q =
     restore_all ops socket es (case quic_register ops e socket q of Inl _ \<Rightarrow> q | Inr q' \<Rightarrow> q')"

definition remove_all :: "'b book_ops \<Rightarrow> endpoint_addr list \<Rightarrow> 'b \<Rightarrow> 'b" where
  "remove_all ops es b = foldl (\<lambda>b e. book_remove ops e b) b es"

definition conflict :: "'q quic_ops \<Rightarrow> nat \<Rightarrow> 'q \<Rightarrow> endpoint_addr \<Rightarrow> bool" where
  "conflict ops socket q e \<longleftrightarrow> (case quic_find ops q e of Some owner \<Rightarrow> owner \<noteq> socket | None \<Rightarrow> False)"

text \<open>\<open>registered\<close> is the test that the dock still has this socket at its address.\<close>

definition ensure_registered_socket :: "bool \<Rightarrow> nat_error + unit" where
  "ensure_registered_socket registered = (if registered then Inr () else Inl NotConnected)"

definition apply_outer_mappings ::
    "(endpoint_addr list \<Rightarrow> endpoint_addr list) \<Rightarrow> 'q quic_ops \<Rightarrow> 'b book_ops \<Rightarrow> bool \<Rightarrow> socket_addr \<Rightarrow> nat
      \<Rightarrow> nat_type option \<Rightarrow> outer_addr_mappings \<Rightarrow> outer_addr_mappings \<Rightarrow> 'q \<Rightarrow> 'b
      \<Rightarrow> (nat_error + unit) \<times> 'q \<times> 'b" where
  "apply_outer_mappings arrange quic book registered bound socket kind previous refreshed q b =
     (case ensure_registered_socket registered of
        Inl e \<Rightarrow> (Inl e, q, b)
      | Inr _ \<Rightarrow>
          if same_mappings previous refreshed then (Inr (), q, b)
          else
            let desired = registered_endpoints arrange bound refreshed in
            case find (conflict quic socket q) desired of
              Some e \<Rightarrow> (Inl (AddrInUse e), q, b)
            | None \<Rightarrow>
                let old = published_endpoints kind bound previous;
                    new = published_endpoints kind bound refreshed;
                    (registering, q1) = register_all quic socket desired (quic_unregister quic bound q);
                    (update, added, b1) =
                      (case registering of
                         Inl e \<Rightarrow> (Inl e, [], b)
                       | Inr _ \<Rightarrow> publish_all book socket [] (filter (\<lambda>e. e \<notin> set old) new) b)
                in case update of
                     Inl e \<Rightarrow>
                       (Inl e,
                        restore_all quic socket (registered_endpoints arrange bound previous) (quic_unregister quic bound q1),
                        remove_all book added b1)
                   | Inr _ \<Rightarrow> (Inr (), q1, remove_all book (filter (\<lambda>e. e \<notin> set new) old) b1))"

section \<open>Probing\<close>

text \<open>The answers of one discovery after another, each an error or the servers found; the loop ends with the
  first that has servers of the family of the socket.\<close>

fun discover_servers :: "socket_addr \<Rightarrow> (string + socket_addr list) list \<Rightarrow> socket_addr list option" where
  "discover_servers bound [] = None"
| "discover_servers bound (Inl _ # rest) = discover_servers bound rest"
| "discover_servers bound (Inr servers # rest) =
     (let servers = filter (\<lambda>s. is_ipv4 s = is_ipv4 bound) servers
      in if servers \<noteq> [] then Some servers else discover_servers bound rest)"

text \<open>A classification contacts the first server.\<close>

datatype probe = Initial | Classifying "socket_addr list" socket_addr
  | Heartbeat "socket_addr list" "nat_type option" outer_addr_mappings bool

definition nat_probe :: "socket_addr list \<Rightarrow> probe option" where
  "nat_probe servers = (case servers of [] \<Rightarrow> None | server # _ \<Rightarrow> Some (Classifying servers server))"

text \<open>The answer of a server that is kept; \<open>routable\<close> is \<open>is_globally_routable\<close>.\<close>

definition usable_outer :: "(socket_addr \<Rightarrow> bool) \<Rightarrow> socket_addr \<Rightarrow> socket_addr \<Rightarrow> bool" where
  "usable_outer routable bound outer \<longleftrightarrow> is_ipv4 outer = is_ipv4 bound \<and> port outer \<noteq> 0 \<and> routable outer"

definition measure_mappings ::
    "(socket_addr \<Rightarrow> bool) \<Rightarrow> socket_addr \<Rightarrow> (socket_addr \<Rightarrow> socket_addr option) \<Rightarrow> socket_addr list
      \<Rightarrow> outer_addr_mappings" where
  "measure_mappings routable bound answer servers =
     remdups (concat (map (\<lambda>server.
       case answer server of
         Some outer \<Rightarrow> if usable_outer routable bound outer then [(server, outer)] else []
       | None \<Rightarrow> []) servers))"

text \<open>The NAT state of a socket with the state of the protocols around it.\<close>

record ('q, 'b) nat_state =
  probe :: probe
  quic_state :: 'q
  book_state :: 'b

text \<open>What the future of a \<open>Nat\<close> goes through: the end of the discovery, of the classification, the tick of
  the heartbeat, the end of a measurement, and a resume.  \<open>None\<close> is a panic.\<close>

datatype nat_event = Found "(string + socket_addr list) list" | Classified "nat_type option" | Tick
  | Measured "socket_addr \<Rightarrow> socket_addr option" bool | Resumed

definition nat_step ::
    "(endpoint_addr list \<Rightarrow> endpoint_addr list) \<Rightarrow> 'q quic_ops \<Rightarrow> 'b book_ops \<Rightarrow> (socket_addr \<Rightarrow> bool)
      \<Rightarrow> socket_addr \<Rightarrow> nat \<Rightarrow> nat_event \<Rightarrow> ('q, 'b) nat_state \<Rightarrow> ('q, 'b) nat_state option" where
  "nat_step arrange quic book routable bound socket ev s =
     (case (probe s, ev) of
        (Initial, Found answers) \<Rightarrow>
          (case discover_servers bound answers of
             None \<Rightarrow> Some s
           | Some servers \<Rightarrow> map_option (\<lambda>p. s\<lparr>probe := p\<rparr>) (nat_probe servers))
      | (Classifying servers _, Classified kind) \<Rightarrow>
          Some (s\<lparr>probe := Heartbeat servers kind [] False,
            book_state := (case kind of Some k \<Rightarrow> book_set_nat book bound k (book_state s) | None \<Rightarrow> book_state s)\<rparr>)
      | (Classifying servers _, Resumed) \<Rightarrow> map_option (\<lambda>p. s\<lparr>probe := p\<rparr>) (nat_probe servers)
      | (Heartbeat servers kind mappings measuring, Tick) \<Rightarrow> Some (s\<lparr>probe := Heartbeat servers kind mappings True\<rparr>)
      | (Heartbeat servers kind mappings measuring, Resumed) \<Rightarrow>
          Some (s\<lparr>probe := Heartbeat servers kind mappings False\<rparr>)
      | (Heartbeat servers kind mappings True, Measured answer registered) \<Rightarrow>
          (let refreshed = measure_mappings routable bound answer servers;
               (r, q, b) = apply_outer_mappings arrange quic book registered bound socket kind mappings refreshed
                             (quic_state s) (book_state s)
           in Some \<lparr>probe = Heartbeat servers kind (case r of Inl _ \<Rightarrow> mappings | Inr _ \<Rightarrow> refreshed) False,
                    quic_state = q, book_state = b\<rparr>)
      | _ \<Rightarrow> Some s)"

fun nat_run where
  "nat_run arrange quic book routable bound socket [] s = Some s"
| "nat_run arrange quic book routable bound socket (ev # evs) s =
     (case nat_step arrange quic book routable bound socket ev s of
        None \<Rightarrow> None
      | Some s' \<Rightarrow> nat_run arrange quic book routable bound socket evs s')"

section \<open>The contract of the parameters\<close>

text \<open>A registration that succeeds gives the endpoint to the socket; an endpoint the socket may have is
  registered when no one has it; unregistering takes every endpoint of the socket at once.\<close>

definition quic_contract :: "'q quic_ops \<Rightarrow> (endpoint_addr \<Rightarrow> bool) \<Rightarrow> socket_addr \<Rightarrow> nat \<Rightarrow> bool" where
  "quic_contract ops may bound socket \<longleftrightarrow>
     (\<forall>e q q'. quic_register ops e socket q = Inr q' \<longrightarrow> quic_find ops q' = (quic_find ops q)(e \<mapsto> socket) \<and> may e)
     \<and> (\<forall>e q. may e \<and> quic_find ops q e = None \<longrightarrow> (\<exists>q'. quic_register ops e socket q = Inr q'))
     \<and> (\<forall>q e. quic_find ops (quic_unregister ops bound q) e =
          (if quic_find ops q e = Some socket then None else quic_find ops q e))"

text \<open>A publication that succeeds adds the endpoint, a removal takes it.\<close>

definition book_contract :: "'b book_ops \<Rightarrow> nat \<Rightarrow> bool" where
  "book_contract ops socket \<longleftrightarrow>
     (\<forall>e b b'. book_insert_outer ops socket e b = Inr b' \<longrightarrow>
        book_published ops b' = (book_published ops b)(e := True))
     \<and> (\<forall>e b. book_published ops (book_remove ops e b) = (book_published ops b)(e := False))
     \<and> (\<forall>bound k b. book_published ops (book_set_nat ops bound k b) = book_published ops b)"

definition arranges :: "(endpoint_addr list \<Rightarrow> endpoint_addr list) \<Rightarrow> bool" where
  "arranges arrange \<longleftrightarrow> (\<forall>es. distinct es \<longrightarrow> distinct (arrange es) \<and> set (arrange es) = set es)"

text \<open>The endpoints of others stay, those of the socket are the given ones.\<close>

definition owned :: "'q quic_ops \<Rightarrow> nat \<Rightarrow> 'q \<Rightarrow> endpoint_addr set" where
  "owned ops socket q = {e. quic_find ops q e = Some socket}"

definition others :: "'q quic_ops \<Rightarrow> nat \<Rightarrow> 'q \<Rightarrow> endpoint_addr \<Rightarrow> nat option" where
  "others ops socket q e = (if quic_find ops q e = Some socket then None else quic_find ops q e)"

section \<open>Facts\<close>

lemma registered_set:
  assumes "arranges arrange"
  shows "set (registered_endpoints arrange bound mappings) =
      insert (Direct bound) (\<Union>(server, outer) \<in> set mappings. {Direct outer, Mediate server outer})"
    and "distinct (registered_endpoints arrange bound mappings)"
  using assms by (auto simp: registered_endpoints_def arranges_def)

lemma published_set:
  "set (published_endpoints kind bound mappings) =
     (\<Union>(agent, outer) \<in> set mappings. insert (Mediate agent outer)
        (if kind = Some FullCone then {Direct outer} else {})) - {Direct bound}"
  by (fastforce simp: published_endpoints_def split: if_splits)

lemma register_all_free:
  assumes "quic_contract ops may bound socket" "register_all ops socket es q = (r, q')"
    and "\<forall>e \<in> set es. quic_find ops q e = None \<or> quic_find ops q e = Some socket"
  shows "others ops socket q' = others ops socket q
    \<and> owned ops socket q \<subseteq> owned ops socket q' \<and> owned ops socket q' \<subseteq> owned ops socket q \<union> set es
    \<and> (r = Inr () \<longrightarrow> owned ops socket q' = owned ops socket q \<union> set es \<and> (\<forall>e \<in> set es. may e))"
  using assms(2,3)
proof (induction es arbitrary: q)
  case (Cons e es)
  show ?case
  proof (cases "quic_register ops e socket q")
    case (Inl err)
    with Cons.prems show ?thesis by auto
  next
    case (Inr q1)
    have find: "quic_find ops q1 = (quic_find ops q)(e \<mapsto> socket)" "may e"
      using assms(1) Inr by (auto simp: quic_contract_def)
    have "others ops socket q1 = others ops socket q" "owned ops socket q1 = insert e (owned ops socket q)"
      using find Cons.prems(2) by (auto simp: others_def owned_def)
    moreover have "\<forall>e' \<in> set es. quic_find ops q1 e' = None \<or> quic_find ops q1 e' = Some socket"
      using find Cons.prems(2) by auto
    ultimately show ?thesis using Cons.IH [of q1] Cons.prems(1) Inr find(2) by auto
  qed
qed simp

lemma unregister_owned:
  assumes "quic_contract ops may bound socket"
  shows "owned ops socket (quic_unregister ops bound q) = {}"
    and "others ops socket (quic_unregister ops bound q) = others ops socket q"
    and "quic_find ops (quic_unregister ops bound q) = others ops socket q"
  using assms by (auto simp: quic_contract_def owned_def others_def)

lemma restore_all_owned:
  assumes "quic_contract ops may bound socket" "\<forall>e \<in> set es. may e"
    and "\<forall>e \<in> set es. quic_find ops q e = None \<or> quic_find ops q e = Some socket"
    and "distinct es" "set es \<inter> owned ops socket q = {}"
  shows "owned ops socket (restore_all ops socket es q) = owned ops socket q \<union> set es
    \<and> others ops socket (restore_all ops socket es q) = others ops socket q"
  using assms(2-5)
proof (induction es arbitrary: q)
  case (Cons e es)
  then have "quic_find ops q e = None" by (auto simp: owned_def)
  moreover have "may e" using Cons.prems(1) by simp
  ultimately obtain q1 where q1: "quic_register ops e socket q = Inr q1"
    using assms(1) unfolding quic_contract_def by blast
  then have find: "quic_find ops q1 = (quic_find ops q)(e \<mapsto> socket)"
    using assms(1) by (auto simp: quic_contract_def)
  then have "others ops socket q1 = others ops socket q" "owned ops socket q1 = insert e (owned ops socket q)"
    using Cons.prems(4) Cons.prems(2) by (auto simp: others_def owned_def)
  moreover have "\<forall>e' \<in> set es. quic_find ops q1 e' = None \<or> quic_find ops q1 e' = Some socket"
    using find Cons.prems(2) by auto
  moreover have "set es \<inter> owned ops socket q1 = {}" using calculation(2) Cons.prems(3,4) by auto
  ultimately show ?case using Cons.IH [of q1] Cons.prems(1,3) q1 by auto
qed simp

lemma publish_all_book:
  assumes "book_contract ops socket" "publish_all ops socket added es b = (r, added', b')"
  shows "(\<exists>done. added' = added @ done \<and> set done \<subseteq> set es
      \<and> (\<forall>e. book_published ops b' e \<longleftrightarrow> book_published ops b e \<or> e \<in> set done)
      \<and> (r = Inr () \<longrightarrow> done = es))"
  using assms(2)
proof (induction es arbitrary: added b)
  case (Cons e es)
  show ?case
  proof (cases "book_insert_outer ops socket e b")
    case (Inl err)
    with Cons.prems show ?thesis by auto
  next
    case (Inr b1)
    then have b1: "book_published ops b1 = (book_published ops b)(e := True)"
      using assms(1) by (simp add: book_contract_def)
    obtain done1 where "added' = (added @ [e]) @ done1" "set done1 \<subseteq> set es"
      "\<forall>x. book_published ops b' x \<longleftrightarrow> book_published ops b1 x \<or> x \<in> set done1"
      "r = Inr () \<longrightarrow> done1 = es"
      using Cons.IH [of "added @ [e]" b1] Cons.prems Inr by auto
    then show ?thesis using b1 by (intro exI [of _ "e # done1"]) auto
  qed
qed auto

lemma remove_all_book:
  "book_contract ops socket \<Longrightarrow>
     book_published ops (remove_all ops es b) e \<longleftrightarrow> book_published ops b e \<and> e \<notin> set es"
  unfolding remove_all_def
  by (induction es arbitrary: b) (auto simp: book_contract_def)

text \<open>What the state of the protocols is for the mappings applied last.\<close>

definition in_step ::
    "(endpoint_addr list \<Rightarrow> endpoint_addr list) \<Rightarrow> 'q quic_ops \<Rightarrow> 'b book_ops \<Rightarrow> socket_addr \<Rightarrow> nat
      \<Rightarrow> nat_type option \<Rightarrow> outer_addr_mappings \<Rightarrow> 'q \<Rightarrow> 'b \<Rightarrow> bool" where
  "in_step arrange quic book bound socket kind mappings q b \<longleftrightarrow>
     owned quic socket q = set (registered_endpoints arrange bound mappings)
     \<and> (\<forall>e \<in> set (published_endpoints kind bound mappings). book_published book b e)"

lemma conflict_free:
  assumes "find (conflict ops socket q) es = None"
  shows "\<forall>e \<in> set es. quic_find ops q e = None \<or> quic_find ops q e = Some socket"
proof
  fix e assume "e \<in> set es"
  then have "\<not> conflict ops socket q e" using assms by (auto simp: find_None_iff)
  then show "quic_find ops q e = None \<or> quic_find ops q e = Some socket"
    by (cases "quic_find ops q e") (auto simp: conflict_def)
qed

lemma apply_error:
  assumes contract: "quic_contract quic may bound socket" "book_contract book socket" "arranges arrange"
    and before: "in_step arrange quic book bound socket kind previous q b"
    and may: "\<forall>e \<in> owned quic socket q. may e"
    and res: "apply_outer_mappings arrange quic book registered bound socket kind previous refreshed q b = (Inl e, q', b')"
  shows "owned quic socket q' = owned quic socket q \<and> others quic socket q' = others quic socket q
    \<and> (\<exists>added. set added \<subseteq> set (published_endpoints kind bound refreshed) - set (published_endpoints kind bound previous)
         \<and> (\<forall>x. book_published book b' x \<longleftrightarrow> book_published book b x \<and> x \<notin> set added))"
proof -
  let ?old = "published_endpoints kind bound previous" and ?new = "published_endpoints kind bound refreshed"
  let ?prev = "registered_endpoints arrange bound previous" and ?desired = "registered_endpoints arrange bound refreshed"
  note unregister = unregister_owned [OF contract(1)]
  show ?thesis
  proof (cases "(q' = q \<and> b' = b)")
    case True
    then show ?thesis by (auto intro: exI [of _ "[]"])
  next
    case False
    obtain r1 q1 where reg: "register_all quic socket ?desired (quic_unregister quic bound q) = (r1, q1)" by force
    obtain update added b1 where upd: "(case r1 of Inl e \<Rightarrow> (Inl e, [], b)
        | Inr _ \<Rightarrow> publish_all book socket [] (filter (\<lambda>e. e \<notin> set ?old) ?new) b) = (update, added, b1)"
      by (metis prod_cases3)
    have free: "find (conflict quic socket q) ?desired = None"
      and q': "q' = restore_all quic socket ?prev (quic_unregister quic bound q1)" "b' = remove_all book added b1"
      using res False reg upd
      by (auto simp: apply_outer_mappings_def ensure_registered_socket_def Let_def split: if_splits option.splits sum.splits)
    have "\<forall>e \<in> set ?desired. quic_find quic (quic_unregister quic bound q) e = None"
      using conflict_free [OF free] unregister(3) by (auto simp: others_def)
    then have reg_facts: "others quic socket q1 = others quic socket q" "owned quic socket q1 \<subseteq> set ?desired"
      using register_all_free [OF contract(1) reg] unregister by auto
    let ?q2 = "quic_unregister quic bound q1"
    have q2: "quic_find quic ?q2 = others quic socket q" "owned quic socket ?q2 = {}" "others quic socket ?q2 = others quic socket q"
      using unregister [of q1] reg_facts by auto
    have prev: "set ?prev = owned quic socket q" using before by (simp add: in_step_def)
    have "\<forall>e \<in> set ?prev. quic_find quic ?q2 e = None \<or> quic_find quic ?q2 e = Some socket"
      unfolding q2(1) prev by (auto simp: others_def owned_def)
    then have "owned quic socket q' = set ?prev" "others quic socket q' = others quic socket q"
      using restore_all_owned [OF contract(1), of ?prev ?q2] may prev q2 registered_set(2) [OF contract(3)] q'(1)
      by auto
    moreover have "set added \<subseteq> set ?new - set ?old
        \<and> (\<forall>x. book_published book b1 x \<longleftrightarrow> book_published book b x \<or> x \<in> set added)"
    proof (cases r1)
      case (Inl e1)
      with upd show ?thesis by auto
    next
      case (Inr u)
      then show ?thesis using publish_all_book [OF contract(2)] upd by fastforce
    qed
    ultimately show ?thesis
      using prev q'(2) remove_all_book [OF contract(2), of added b1]
      by auto
  qed
qed

lemma apply_ok:
  assumes contract: "quic_contract quic may bound socket" "book_contract book socket" "arranges arrange"
    and before: "in_step arrange quic book bound socket kind previous q b"
    and res: "apply_outer_mappings arrange quic book registered bound socket kind previous refreshed q b = (Inr u, q', b')"
  shows "in_step arrange quic book bound socket kind refreshed q' b' \<and> others quic socket q' = others quic socket q
    \<and> ((\<forall>e \<in> owned quic socket q. may e) \<longrightarrow> (\<forall>e \<in> owned quic socket q'. may e))
    \<and> (\<forall>x. book_published book b' x \<longleftrightarrow>
         x \<in> set (published_endpoints kind bound refreshed)
         \<or> book_published book b x \<and> x \<notin> set (published_endpoints kind bound previous))"
proof -
  let ?old = "published_endpoints kind bound previous" and ?new = "published_endpoints kind bound refreshed"
  let ?desired = "registered_endpoints arrange bound refreshed"
  note unregister = unregister_owned [OF contract(1)]
  show ?thesis
  proof (cases "same_mappings previous refreshed")
    case True
    then have "set (registered_endpoints arrange bound previous) = set ?desired" "set ?old = set ?new"
      by (simp_all add: registered_set(1) [OF contract(3)] published_set same_mappings_def)
    moreover have "q' = q" "b' = b" using res True
      by (auto simp: apply_outer_mappings_def ensure_registered_socket_def split: if_splits)
    ultimately show ?thesis using before by (auto simp: in_step_def)
  next
    case False
    obtain r1 q1 where reg: "register_all quic socket ?desired (quic_unregister quic bound q) = (r1, q1)" by force
    obtain update added b1 where upd: "(case r1 of Inl e \<Rightarrow> (Inl e, [], b)
        | Inr _ \<Rightarrow> publish_all book socket [] (filter (\<lambda>e. e \<notin> set ?old) ?new) b) = (update, added, b1)"
      by (metis prod_cases3)
    have free: "find (conflict quic socket q) ?desired = None" and finished: "update = Inr ()" "q' = q1"
      and b': "b' = remove_all book (filter (\<lambda>e. e \<notin> set ?new) ?old) b1"
      using res False reg upd
      by (auto simp: apply_outer_mappings_def ensure_registered_socket_def Let_def split: if_splits option.splits sum.splits)
    have r1: "r1 = Inr ()" using upd finished by (cases r1) auto
    have "\<forall>e \<in> set ?desired. quic_find quic (quic_unregister quic bound q) e = None"
      using conflict_free [OF free] unregister(3) by (auto simp: others_def)
    then have reg_facts: "others quic socket q1 = others quic socket q" "owned quic socket q1 = set ?desired"
      "\<forall>e \<in> set ?desired. may e"
      using register_all_free [OF contract(1) reg] unregister r1 by auto
    have "\<forall>x. book_published book b1 x \<longleftrightarrow> book_published book b x \<or> x \<in> set ?new - set ?old"
      using publish_all_book [OF contract(2), of "[]"] upd r1 finished(1) by fastforce
    then have "book_published book b' x \<longleftrightarrow> x \<in> set ?new \<or> book_published book b x \<and> x \<notin> set ?old" for x
      using b' remove_all_book [OF contract(2), of "filter (\<lambda>e. e \<notin> set ?new) ?old" b1 x] before
      by (auto simp: in_step_def)
    then show ?thesis using reg_facts finished by (simp add: in_step_def)
  qed
qed

text \<open>The invariant of a run.\<close>

definition nat_ok ::
    "(endpoint_addr list \<Rightarrow> endpoint_addr list) \<Rightarrow> 'q quic_ops \<Rightarrow> 'b book_ops \<Rightarrow> (endpoint_addr \<Rightarrow> bool)
      \<Rightarrow> (socket_addr \<Rightarrow> bool) \<Rightarrow> socket_addr \<Rightarrow> nat \<Rightarrow> ('q, 'b) nat_state \<Rightarrow> bool" where
  "nat_ok arrange quic book may routable bound socket s \<longleftrightarrow>
     (\<forall>e \<in> owned quic socket (quic_state s). may e)
     \<and> (case probe s of
          Initial \<Rightarrow> in_step arrange quic book bound socket None [] (quic_state s) (book_state s)
        | Classifying servers server \<Rightarrow>
            in_step arrange quic book bound socket None [] (quic_state s) (book_state s) \<and> servers \<noteq> []
        | Heartbeat servers kind mappings _ \<Rightarrow>
            in_step arrange quic book bound socket kind mappings (quic_state s) (book_state s)
            \<and> (\<forall>(server, outer) \<in> set mappings. server \<in> set servers \<and> usable_outer routable bound outer))"

lemma in_step_nothing:
  "in_step arrange quic book bound socket kind [] q b \<longleftrightarrow> in_step arrange quic book bound socket None [] q b"
  by (simp add: in_step_def published_endpoints_def)

lemma discover_nonempty: "discover_servers bound answers = Some servers \<Longrightarrow> servers \<noteq> []"
  by (induction bound answers rule: discover_servers.induct) (auto simp: Let_def split: if_splits)

lemma measured_usable:
  "(server, outer) \<in> set (measure_mappings routable bound answer servers) \<Longrightarrow>
     server \<in> set servers \<and> usable_outer routable bound outer"
  by (auto simp: measure_mappings_def split: option.splits if_splits)

lemma nat_step_ok:
  assumes contract: "quic_contract quic may bound socket" "book_contract book socket" "arranges arrange"
    and ok: "nat_ok arrange quic book may routable bound socket s"
  obtains s' where "nat_step arrange quic book routable bound socket ev s = Some s'"
    "nat_ok arrange quic book may routable bound socket s'"
    "others quic socket (quic_state s') = others quic socket (quic_state s)"
proof (cases "probe s")
  case Initial
  show thesis
  proof (cases "\<exists>answers servers. ev = Found answers \<and> discover_servers bound answers = Some servers")
    case True
    then obtain answers server rest where "ev = Found answers" "discover_servers bound answers = Some (server # rest)"
      using discover_nonempty by (metis list.exhaust)
    then show thesis using that [of "s\<lparr>probe := Classifying (server # rest) server\<rparr>"] ok Initial
      by (simp add: nat_step_def nat_probe_def nat_ok_def)
  next
    case False
    then have "nat_step arrange quic book routable bound socket ev s = Some s"
      using Initial by (cases ev) (auto simp: nat_step_def split: option.splits)
    then show thesis using that ok by blast
  qed
next
  case (Classifying servers server)
  have book: "book_published book (book_set_nat book bound k b) = book_published book b" for k b
    using contract(2) by (simp add: book_contract_def)
  obtain first rest where "servers = first # rest" using ok Classifying
    by (cases servers) (auto simp: nat_ok_def)
  then show thesis using that ok Classifying book
    by (cases ev) (auto simp: nat_step_def nat_ok_def nat_probe_def in_step_nothing in_step_def
        published_endpoints_def split: option.splits)
next
  case (Heartbeat servers kind mappings measuring)
  show thesis
  proof (cases "\<exists>answer registered. ev = Measured answer registered \<and> measuring")
    case False
    then have "nat_step arrange quic book routable bound socket ev s = Some s
        \<or> (\<exists>m. nat_step arrange quic book routable bound socket ev s = Some (s\<lparr>probe := Heartbeat servers kind mappings m\<rparr>))"
      using Heartbeat by (cases ev; cases measuring) (auto simp: nat_step_def)
    then show thesis using that ok Heartbeat by (fastforce simp: nat_ok_def)
  next
    case True
    then obtain answer registered where ev: "ev = Measured answer registered" and m: measuring by blast
    let ?new = "measure_mappings routable bound answer servers"
    obtain r q b where res: "apply_outer_mappings arrange quic book registered bound socket kind mappings ?new
        (quic_state s) (book_state s) = (r, q, b)" by (metis prod_cases3)
    have before: "in_step arrange quic book bound socket kind mappings (quic_state s) (book_state s)"
      and may: "\<forall>e \<in> owned quic socket (quic_state s). may e"
      using ok Heartbeat by (auto simp: nat_ok_def)
    let ?s = "\<lparr>probe = Heartbeat servers kind (case r of Inl _ \<Rightarrow> mappings | Inr _ \<Rightarrow> ?new) False,
        quic_state = q, book_state = b\<rparr>"
    have step: "nat_step arrange quic book routable bound socket ev s = Some ?s"
      using Heartbeat ev m res by (simp add: nat_step_def)
    show thesis
    proof (cases r)
      case (Inl e)
      obtain added where "owned quic socket q = owned quic socket (quic_state s)"
        "others quic socket q = others quic socket (quic_state s)"
        "set added \<subseteq> set (published_endpoints kind bound ?new) - set (published_endpoints kind bound mappings)"
        "\<And>x. book_published book b x \<longleftrightarrow> book_published book (book_state s) x \<and> x \<notin> set added"
        using apply_error [OF contract before may res [unfolded Inl]] by metis
      then show thesis using that [OF step] ok Heartbeat Inl by (auto simp: nat_ok_def in_step_def)
    next
      case (Inr u)
      then show thesis using that [OF step] apply_ok [OF contract before res [unfolded Inr]] may
          measured_usable [of _ _ routable bound answer servers]
        by (auto simp: nat_ok_def)
    qed
  qed
qed

lemma nat_run_ok:
  assumes contract: "quic_contract quic may bound socket" "book_contract book socket" "arranges arrange"
    and ok: "nat_ok arrange quic book may routable bound socket s"
  obtains s' where "nat_run arrange quic book routable bound socket evs s = Some s'"
    "nat_ok arrange quic book may routable bound socket s'"
    "others quic socket (quic_state s') = others quic socket (quic_state s)"
  using ok
proof (induction evs arbitrary: s thesis)
  case Nil
  then show ?case by simp
next
  case (Cons ev evs)
  obtain s1 where s1: "nat_step arrange quic book routable bound socket ev s = Some s1"
    "nat_ok arrange quic book may routable bound socket s1"
    "others quic socket (quic_state s1) = others quic socket (quic_state s)"
    by (rule nat_step_ok [OF contract Cons.prems(2)])
  show ?case
  proof (rule Cons.IH [OF _ s1(2)])
    fix s' assume "nat_run arrange quic book routable bound socket evs s1 = Some s'"
      "nat_ok arrange quic book may routable bound socket s'"
      "others quic socket (quic_state s') = others quic socket (quic_state s1)"
    then show thesis using Cons.prems(1) [of s'] s1 by simp
  qed
qed

section \<open>Properties\<close>

definition current_mappings :: "probe \<Rightarrow> outer_addr_mappings" where
  "current_mappings p = (case p of Heartbeat _ _ mappings _ \<Rightarrow> mappings | _ \<Rightarrow> [])"

definition current_kind :: "probe \<Rightarrow> nat_type option" where
  "current_kind p = (case p of Heartbeat _ kind _ _ \<Rightarrow> kind | _ \<Rightarrow> None)"

text \<open>Applying NAT mappings is all or nothing.  If it succeeds, the socket owns exactly the endpoints of the
  new mappings and exactly their publications replace the old ones; if it fails, at whatever registration or
  publication, the socket owns exactly what it owned before, the old publications remain, and of the others at
  most those that the failed update would have added are gone.  The endpoints of other sockets never change.\<close>
theorem mappings_all_or_nothing:
  assumes contract: "quic_contract quic may bound socket" "book_contract book socket" "arranges arrange"
    and before: "in_step arrange quic book bound socket kind previous q b"
    and may: "\<forall>e \<in> owned quic socket q. may e"
    and res: "apply_outer_mappings arrange quic book registered bound socket kind previous refreshed q b = (r, q', b')"
  shows "others quic socket q' = others quic socket q
    \<and> (r = Inr () \<longrightarrow> owned quic socket q' = set (registered_endpoints arrange bound refreshed)
         \<and> (\<forall>x. book_published book b' x \<longleftrightarrow> x \<in> set (published_endpoints kind bound refreshed)
              \<or> book_published book b x \<and> x \<notin> set (published_endpoints kind bound previous)))
    \<and> (r \<noteq> Inr () \<longrightarrow> owned quic socket q' = owned quic socket q
         \<and> (\<forall>x. book_published book b' x \<longrightarrow> book_published book b x)
         \<and> (\<forall>x. book_published book b x \<and> \<not> book_published book b' x \<longrightarrow>
              x \<in> set (published_endpoints kind bound refreshed) - set (published_endpoints kind bound previous)))"
proof (cases r)
  case (Inl e)
  then show ?thesis using apply_error [OF contract before may res [unfolded Inl]] by auto
next
  case (Inr u)
  then show ?thesis using apply_ok [OF contract before res [unfolded Inr]] by (simp add: in_step_def)
qed

text \<open>C33: The NAT state of a socket and the protocols agree, whatever happens.  A fresh state never panics; after
  any sequence of discoveries, classifications, measurements, failed updates and resumes the socket owns exactly
  its direct endpoint and the endpoints of the mappings held, all their publications are in the address book,
  every mapping held was usable when it was measured, and the endpoints of other sockets are as they were.\<close>
theorem nat_run_consistent:
  assumes contract: "quic_contract quic may bound socket" "book_contract book socket" "arranges arrange"
    and fresh: "probe s = Initial" "owned quic socket (quic_state s) = {Direct bound}" "may (Direct bound)"
  shows "\<exists>s'. nat_run arrange quic book routable bound socket evs s = Some s'
    \<and> owned quic socket (quic_state s') = set (registered_endpoints arrange bound (current_mappings (probe s')))
    \<and> (\<forall>e \<in> set (published_endpoints (current_kind (probe s')) bound (current_mappings (probe s'))).
         book_published book (book_state s') e)
    \<and> (\<forall>(server, outer) \<in> set (current_mappings (probe s')). usable_outer routable bound outer)
    \<and> others quic socket (quic_state s') = others quic socket (quic_state s)"
proof -
  have "nat_ok arrange quic book may routable bound socket s"
    using fresh registered_set(1) [OF contract(3), of bound "[]"]
    by (simp add: nat_ok_def in_step_def published_endpoints_def)
  then obtain s' where "nat_run arrange quic book routable bound socket evs s = Some s'"
    "nat_ok arrange quic book may routable bound socket s'"
    "others quic socket (quic_state s') = others quic socket (quic_state s)"
    by (rule nat_run_ok [OF contract])
  then show ?thesis
    by (intro exI [of _ s']) (cases "probe s'"; auto simp: nat_ok_def in_step_def current_mappings_def current_kind_def)
qed

text \<open>An instance of the parameters: maps, with one endpoint that cannot be published.\<close>

definition map_quic :: "(endpoint_addr \<Rightarrow> nat option) quic_ops" where
  "map_quic = \<lparr>quic_find = (\<lambda>q. q),
     quic_register = (\<lambda>e s q. if q e = None \<or> q e = Some s then Inr (q(e \<mapsto> s)) else Inl ''in use''),
     quic_unregister = (\<lambda>_ q e. if q e = Some 1 then None else q e)\<rparr>"

definition map_book :: "(endpoint_addr \<Rightarrow> bool) \<Rightarrow> (endpoint_addr \<Rightarrow> bool) book_ops" where
  "map_book refused = \<lparr>book_published = (\<lambda>b. b),
     book_insert_outer = (\<lambda>_ e b. if refused e then Inl ''refused'' else Inr (b(e := True))),
     book_set_nat = (\<lambda>_ _ b. b), book_remove = (\<lambda>e b. b(e := False))\<rparr>"

definition example_addr :: "nat \<Rightarrow> socket_addr" where
  "example_addr n = \<lparr>is_ipv4 = True, addr_bits = n, port = 1\<rparr>"

lemma map_contracts:
  "quic_contract map_quic (\<lambda>_. True) bound 1" "book_contract (map_book refused) 1" "arranges (\<lambda>es. es)"
  by (auto simp: quic_contract_def book_contract_def arranges_def map_quic_def map_book_def split: if_splits)

theorem nat_run_consistent_witness:
  "\<exists>s'. nat_run (\<lambda>es. es) map_quic (map_book (\<lambda>_. False)) (\<lambda>_. True) (example_addr 0) 1
       [Found [Inl ''down'', Inr [example_addr 5]], Classified (Some FullCone), Tick, Measured (\<lambda>_. Some (example_addr 7)) True]
       \<lparr>probe = Initial, quic_state = [Direct (example_addr 0) \<mapsto> 1], book_state = (\<lambda>_. False)\<rparr> = Some s'
     \<and> owned map_quic 1 (quic_state s') = {Direct (example_addr 0), Direct (example_addr 7), Mediate (example_addr 5) (example_addr 7)}"
proof -
  let ?s = "\<lparr>probe = Initial, quic_state = [Direct (example_addr 0) \<mapsto> 1], book_state = (\<lambda>_. False)\<rparr>"
  let ?evs = "[Found [Inl ''down'', Inr [example_addr 5]], Classified (Some FullCone), Tick,
    Measured (\<lambda>_. Some (example_addr 7)) True]"
  have "owned map_quic 1 (quic_state ?s) = {Direct (example_addr 0)}"
    by (auto simp: owned_def map_quic_def)
  with nat_run_consistent [OF map_contracts(1) map_contracts(2) [of "\<lambda>_. False"] map_contracts(3),
      where s = ?s and routable = "\<lambda>_. True" and evs = ?evs]
  obtain s' where run: "nat_run (\<lambda>es. es) map_quic (map_book (\<lambda>_. False)) (\<lambda>_. True) (example_addr 0) 1 ?evs ?s = Some s'"
    and owned: "owned map_quic 1 (quic_state s')
      = set (registered_endpoints (\<lambda>es. es) (example_addr 0) (current_mappings (probe s')))"
    by auto
  have "current_mappings (probe s') = [(example_addr 5, example_addr 7)]"
    using run
    by (auto simp: nat_step_def nat_probe_def apply_outer_mappings_def ensure_registered_socket_def
        same_mappings_def registered_endpoints_def published_endpoints_def map_quic_def map_book_def
        measure_mappings_def usable_outer_def conflict_def example_addr_def current_mappings_def Let_def
        remove_all_def)
  then show ?thesis using run owned by (auto simp: registered_endpoints_def)
qed

theorem mappings_all_or_nothing_witness:
  "apply_outer_mappings (\<lambda>es. es) map_quic (map_book (\<lambda>e. e = Mediate (example_addr 5) (example_addr 7))) True
      (example_addr 0) 1 None [] [(example_addr 5, example_addr 7)] [Direct (example_addr 0) \<mapsto> 1] (\<lambda>_. False)
    = (Inl (OtherNatError ''refused''), [Direct (example_addr 0) \<mapsto> 1], \<lambda>_. False)
   \<and> owned map_quic 1 [Direct (example_addr 0) \<mapsto> 1] = {Direct (example_addr 0)}"
proof -
  let ?book = "map_book (\<lambda>e. e = Mediate (example_addr 5) (example_addr 7))"
  have res: "apply_outer_mappings (\<lambda>es. es) map_quic ?book True (example_addr 0) 1 None []
      [(example_addr 5, example_addr 7)] [Direct (example_addr 0) \<mapsto> 1] (\<lambda>_. False)
    = (Inl (OtherNatError ''refused''), [Direct (example_addr 0) \<mapsto> 1], \<lambda>_. False)"
    by (auto simp: apply_outer_mappings_def ensure_registered_socket_def same_mappings_def
        registered_endpoints_def published_endpoints_def map_quic_def map_book_def conflict_def
        example_addr_def Let_def remove_all_def fun_eq_iff)
  have owned: "owned map_quic 1 [Direct (example_addr 0) \<mapsto> 1] = {Direct (example_addr 0)}"
    by (auto simp: owned_def map_quic_def)
  then have "in_step (\<lambda>es. es) map_quic ?book (example_addr 0) 1 None [] [Direct (example_addr 0) \<mapsto> 1] (\<lambda>_. False)"
    by (simp add: in_step_def registered_endpoints_def published_endpoints_def)
  from mappings_all_or_nothing [OF map_contracts this _ res] show ?thesis using res owned by simp
qed

end
