(* ===== verification/Interfaces.thy ===== *)
theory Interfaces
  imports Atomics
begin

text \<open>
  The network interfaces and the sockets bound to them: the crate \<open>dhttp\<close>, file
  \<open>dhttp/src/network/interfaces.rs\<close>.  The dock, the address book and the operating system are a record of
  operations on an abstract state; the watcher's snapshot is the list of the interfaces.
\<close>

section \<open>Addresses of \<open>std::net\<close>\<close>

fun is_loopback :: "ip_addr \<Rightarrow> bool" where
  "is_loopback (V4 ip) = (drop_bit 24 ip = 127)"
| "is_loopback (V6 ip) = (ip = 1)"

fun is_link_local :: "ip_addr \<Rightarrow> bool" where
  "is_link_local (V4 ip) = (drop_bit 16 ip = 0xA9FE)"
| "is_link_local (V6 ip) = (drop_bit 118 ip = 0x3FA)"

fun is_unspecified :: "ip_addr \<Rightarrow> bool" where
  "is_unspecified (V4 ip) = (ip = 0)"
| "is_unspecified (V6 ip) = (ip = 0)"

fun is_multicast :: "ip_addr \<Rightarrow> bool" where
  "is_multicast (V4 ip) = (drop_bit 28 ip = 0xE)"
| "is_multicast (V6 ip) = (drop_bit 120 ip = 0xFF)"

fun is_broadcast :: "ip_addr \<Rightarrow> bool" where
  "is_broadcast (V4 ip) = (ip = 0xFFFFFFFF)"
| "is_broadcast (V6 ip) = False"

definition supports_nat_probe :: "ip_addr \<Rightarrow> bool" where
  "supports_nat_probe ip \<longleftrightarrow> \<not> is_loopback ip \<and> \<not> is_link_local ip"

text \<open>The keys of a table.\<close>

definition keys_of :: "('k \<times> 'w) list \<Rightarrow> 'k set" where
  "keys_of m = fst ` set m"

lemma keys_of_simps [simp]:
  "keys_of [] = {}" "keys_of (kv # m) = insert (fst kv) (keys_of m)"
  "keys_of (m @ n) = keys_of m \<union> keys_of n"
  by (auto simp: keys_of_def)

lemma keys_of_map [simp]: "keys_of (map (\<lambda>k. (k, v)) ks) = set ks"
  by (force simp: keys_of_def)

lemma keys_of_member: "(k, w) \<in> set m \<Longrightarrow> k \<in> keys_of m"
  by (force simp: keys_of_def)

lemma keys_of_filter: "keys_of (filter (\<lambda>(k, w). P k w \<and> k \<in> K) m) \<subseteq> K"
  by (auto simp: keys_of_def)

lemma distinct_keys_append:
  "distinct (map fst (m @ n)) \<longleftrightarrow> distinct (map fst m) \<and> distinct (map fst n) \<and> keys_of m \<inter> keys_of n = {}"
  by (simp add: keys_of_def)

section \<open>Which interfaces are used\<close>

definition numbered_interface :: "string \<Rightarrow> string \<Rightarrow> bool" where
  "numbered_interface name prefix =
     (case strip_prefix prefix name of
        Some suffix \<Rightarrow> suffix \<noteq> [] \<and> list_all is_ascii_digit suffix
      | None \<Rightarrow> False)"

definition excluded_interface :: "string \<Rightarrow> string \<Rightarrow> bool" where
  "excluded_interface name os =
     (if os = ''macos'' \<or> os = ''ios'' then
        list_ex (numbered_interface name) [''bridge'', ''awdl'', ''llw'', ''vboxnet'']
        \<or> name \<in> set [''vmnet1'', ''vmnet8'']
      else if os = ''linux'' \<or> os = ''android'' then
        list_ex (numbered_interface name)
          [''docker'', ''podman'', ''cni'', ''flannel.'', ''virbr'', ''vboxnet'', ''dummy'', ''ifb'']
        \<or> name \<in> set [''docker_gwbridge'', ''kube-ipvs0'', ''vmnet1'', ''vmnet8'']
        \<or> (case strip_suffix ''-nic'' name of Some base \<Rightarrow> numbered_interface base ''virbr'' | None \<Rightarrow> False)
        \<or> (case strip_prefix ''br-'' name of
             Some suffix \<Rightarrow> length suffix = 12 \<and> list_all is_ascii_hexdigit suffix | None \<Rightarrow> False)
        \<or> (case strip_prefix ''veth'' name of
             Some suffix \<Rightarrow> suffix \<noteq> [] \<and> list_all is_ascii_hexdigit suffix | None \<Rightarrow> False)
      else if os = ''windows'' then
        (let name = to_ascii_lowercase name
         in name \<in> set [''vethernet (default switch)'', ''vethernet (dockernat)'', ''vethernet (wsl)'',
              ''vethernet (wsl (hyper-v firewall))'', ''vmware network adapter vmnet1'',
              ''vmware network adapter vmnet8'']
            \<or> list_ex (\<lambda>base. name = base
                 \<or> (case strip_prefix base name of
                      Some suffix \<Rightarrow> numbered_interface suffix '' #'' | None \<Rightarrow> False))
                [''virtualbox host-only ethernet adapter'', ''virtualbox host-only network''])
      else False)"

record net_interface =
  if_name :: string
  if_index :: "32 word"
  if_hw_addr :: string
  if_ips :: "ip_addr list"

text \<open>A socket address: the address, the port and the scope of an IPv6 address.\<close>

record bind_addr =
  bind_ip :: ip_addr
  bind_port :: nat
  bind_scope :: "32 word"

record interface_address =
  key_name :: string
  key_index :: "32 word"
  key_hw_addr :: string
  key_addr :: bind_addr

definition usable_ip :: "ip_addr \<Rightarrow> bool" where
  "usable_ip ip \<longleftrightarrow> \<not> is_unspecified ip \<and> \<not> is_multicast ip \<and> \<not> is_broadcast ip"

definition wanted_addr :: "net_interface \<Rightarrow> ip_addr \<Rightarrow> bind_addr" where
  "wanted_addr i ip =
     (case ip of
        V4 _ \<Rightarrow> \<lparr>bind_ip = ip, bind_port = 0, bind_scope = 0\<rparr>
      | V6 _ \<Rightarrow> \<lparr>bind_ip = ip, bind_port = 0, bind_scope = if is_link_local ip then if_index i else 0\<rparr>)"

definition interface_keys :: "net_interface \<Rightarrow> interface_address list" where
  "interface_keys i =
     map (\<lambda>ip. \<lparr>key_name = if_name i, key_index = if_index i, key_hw_addr = if_hw_addr i,
                key_addr = wanted_addr i ip\<rparr>)
       (filter usable_ip (if_ips i))"

text \<open>\<open>device\<close> is \<open>BoundDevice::new\<close>; an interface without one is left out.  Of equal keys one is kept.\<close>

fun interfaces ::
    "string \<Rightarrow> (string \<Rightarrow> 32 word \<Rightarrow> 'v option) \<Rightarrow> net_interface list \<Rightarrow> (interface_address \<times> 'v) list" where
  "interfaces os device [] = []"
| "interfaces os device (i # is) =
     (if excluded_interface (if_name i) os then interfaces os device is
      else case device (if_name i) (if_index i) of
             None \<Rightarrow> interfaces os device is
           | Some v \<Rightarrow>
               map (\<lambda>k. (k, v)) (filter (\<lambda>k. k \<notin> keys_of (interfaces os device is)) (remdups (interface_keys i)))
               @ interfaces os device is)"

section \<open>Bindings\<close>

record binding =
  bound :: bind_addr
  socket :: nat
  receiver :: nat
  has_nat :: bool

datatype publish_scope = External | Internal | Loopback

datatype register_error = BindFailed string | LocalAddr string | DockFailed string | PublishFailed string

text \<open>The surroundings: binding a socket to a device, the dock and the address book.\<close>

record ('d, 'v) dock_ops =
  bind_to_device :: "bind_addr \<Rightarrow> 'v \<Rightarrow> 'd \<Rightarrow> (string + nat) \<times> 'd"
  local_addr :: "nat \<Rightarrow> 'd \<Rightarrow> string + bind_addr"
  dock_add :: "nat \<Rightarrow> 'd \<Rightarrow> (string + nat option) \<times> 'd"
  dock_remove :: "nat \<Rightarrow> 'd \<Rightarrow> 'd"
  dock_find :: "bind_addr \<Rightarrow> 'd \<Rightarrow> nat option"
  receiver_finished :: "nat \<Rightarrow> 'd \<Rightarrow> bool"
  scope_of_addr :: "bind_addr \<Rightarrow> publish_scope option"
  insert_outer :: "nat \<Rightarrow> bind_addr \<Rightarrow> 'd \<Rightarrow> (string + unit) \<times> 'd"
  insert_inner :: "nat \<Rightarrow> bind_addr \<Rightarrow> 'd \<Rightarrow> (string + unit) \<times> 'd"
  remove_bound :: "bind_addr \<Rightarrow> 'd \<Rightarrow> 'd"

definition publish_direct :: "('d, 'v) dock_ops \<Rightarrow> nat \<Rightarrow> bind_addr \<Rightarrow> 'd \<Rightarrow> (string + unit) \<times> 'd" where
  "publish_direct dk s addr d =
     (case scope_of_addr dk addr of
        Some External \<Rightarrow> insert_outer dk s addr d
      | Some _ \<Rightarrow> insert_inner dk s addr d
      | None \<Rightarrow> (Inr (), d))"

definition register_socket ::
    "('d, 'v) dock_ops \<Rightarrow> nat \<Rightarrow> 'd \<Rightarrow> (register_error + binding option) \<times> 'd" where
  "register_socket dk s d =
     (case local_addr dk s d of
        Inl e \<Rightarrow> (Inl (LocalAddr e), d)
      | Inr addr \<Rightarrow>
          (case dock_add dk s d of
             (Inl e, d) \<Rightarrow> (Inl (DockFailed e), d)
           | (Inr None, d) \<Rightarrow> (Inr None, d)
           | (Inr (Some r), d) \<Rightarrow>
               (case publish_direct dk s addr d of
                  (Inl e, d) \<Rightarrow> (Inl (PublishFailed e), dock_remove dk s d)
                | (Inr _, d) \<Rightarrow>
                    (Inr (Some \<lparr>bound = addr, socket = s, receiver = r,
                                has_nat = supports_nat_probe (bind_ip addr)\<rparr>), d))))"

definition bind_interface ::
    "('d, 'v) dock_ops \<Rightarrow> interface_address \<Rightarrow> 'v \<Rightarrow> 'd \<Rightarrow> (register_error + binding option) \<times> 'd" where
  "bind_interface dk key v d =
     (case bind_to_device dk (key_addr key) v d of
        (Inl e, d) \<Rightarrow> (Inl (BindFailed e), d)
      | (Inr s, d) \<Rightarrow> register_socket dk s d)"

definition remove_binding :: "('d, 'v) dock_ops \<Rightarrow> binding \<Rightarrow> 'd \<Rightarrow> 'd" where
  "remove_binding dk b d = dock_remove dk (socket b) (remove_bound dk (bound b) d)"

type_synonym bindings = "(interface_address \<times> binding) list"

definition binding_live :: "('d, 'v) dock_ops \<Rightarrow> 'd \<Rightarrow> binding \<Rightarrow> bool" where
  "binding_live dk d b \<longleftrightarrow> \<not> receiver_finished dk (receiver b) d \<and> dock_find dk (bound b) d = Some (socket b)"

definition obsolete :: "('d, 'v) dock_ops \<Rightarrow> 'd \<Rightarrow> interface_address set \<Rightarrow> interface_address \<times> binding \<Rightarrow> bool" where
  "obsolete dk d current kb \<longleftrightarrow> \<not> binding_live dk d (snd kb) \<or> fst kb \<notin> current"

definition withdraw_all :: "('d, 'v) dock_ops \<Rightarrow> bindings \<Rightarrow> 'd \<Rightarrow> 'd" where
  "withdraw_all dk bs d = foldl (\<lambda>d (_, b). remove_binding dk b d) d bs"

text \<open>The second loop of a scan; the keys that could not be bound are what the code logs.\<close>

fun bind_missing ::
    "('d, 'v) dock_ops \<Rightarrow> (interface_address \<times> 'v) list \<Rightarrow> bindings \<Rightarrow> 'd
      \<Rightarrow> bindings \<times> (interface_address \<times> register_error option) list \<times> 'd" where
  "bind_missing dk [] bs d = (bs, [], d)"
| "bind_missing dk ((key, v) # current) bs d =
     (if key \<in> keys_of bs then bind_missing dk current bs d
      else case bind_interface dk key v d of
             (Inr (Some b), d) \<Rightarrow> bind_missing dk current (bs @ [(key, b)]) d
           | (Inr None, d) \<Rightarrow>
               (let (bs, failed, d) = bind_missing dk current bs d in (bs, (key, None) # failed, d))
           | (Inl e, d) \<Rightarrow>
               (let (bs, failed, d) = bind_missing dk current bs d in (bs, (key, Some e) # failed, d)))"

definition scan ::
    "('d, 'v) dock_ops \<Rightarrow> (interface_address \<times> 'v) list \<Rightarrow> bindings \<Rightarrow> 'd
      \<Rightarrow> bindings \<times> (interface_address \<times> register_error option) list \<times> 'd" where
  "scan dk current bs d =
     (let gone = obsolete dk d (keys_of current)
      in bind_missing dk current (filter (\<lambda>kb. \<not> gone kb) bs) (withdraw_all dk (filter gone bs) d))"

definition active_bindings :: "('d, 'v) dock_ops \<Rightarrow> 'd \<Rightarrow> bindings \<Rightarrow> (string \<times> bind_addr) list" where
  "active_bindings dk d bs =
     map (\<lambda>(key, b). (key_name key, bound b)) (filter (\<lambda>(_, b). binding_live dk d b) bs)"

section \<open>The context\<close>

record ('d, 'v) interfaces_ctx =
  snapshot :: "net_interface list"
  ctx_bindings :: bindings
  ctx_dock :: 'd

text \<open>
  A poll: a notification of the watcher reads the interfaces anew, which may fail.  A scan also returns what
  it logs: the keys whose binding did not succeed.
\<close>

type_synonym bind_log = "(interface_address \<times> register_error option) list"

definition ctx_scan ::
    "('d, 'v) dock_ops \<Rightarrow> string \<Rightarrow> (string \<Rightarrow> 32 word \<Rightarrow> 'v option) \<Rightarrow> ('d, 'v) interfaces_ctx
      \<Rightarrow> ('d, 'v) interfaces_ctx \<times> bind_log" where
  "ctx_scan dk os device c =
     (case scan dk (interfaces os device (snapshot c)) (ctx_bindings c) (ctx_dock c) of
        (bs, failed, d) \<Rightarrow> (c\<lparr>ctx_bindings := bs, ctx_dock := d\<rparr>, failed))"

definition ctx_poll ::
    "('d, 'v) dock_ops \<Rightarrow> string \<Rightarrow> (string \<Rightarrow> 32 word \<Rightarrow> 'v option) \<Rightarrow> (string + net_interface list) option
      \<Rightarrow> ('d, 'v) interfaces_ctx \<Rightarrow> ('d, 'v) interfaces_ctx \<times> bind_log" where
  "ctx_poll dk os device changed c =
     ctx_scan dk os device
       (case changed of Some (Inr current) \<Rightarrow> c\<lparr>snapshot := current\<rparr> | _ \<Rightarrow> c)"

text \<open>A resume leaves everything as it was when the interfaces cannot be read.\<close>

definition ctx_resume ::
    "('d, 'v) dock_ops \<Rightarrow> string \<Rightarrow> (string \<Rightarrow> 32 word \<Rightarrow> 'v option) \<Rightarrow> string + net_interface list
      \<Rightarrow> ('d, 'v) interfaces_ctx \<Rightarrow> (string + bind_log) \<times> ('d, 'v) interfaces_ctx" where
  "ctx_resume dk os device listing c =
     (case listing of
        Inl e \<Rightarrow> (Inl e, c)
      | Inr current \<Rightarrow>
          (case ctx_scan dk os device (c\<lparr>snapshot := current\<rparr>) of (c, failed) \<Rightarrow> (Inr failed, c)))"

definition ctx_drop :: "('d, 'v) dock_ops \<Rightarrow> ('d, 'v) interfaces_ctx \<Rightarrow> 'd" where
  "ctx_drop dk c = withdraw_all dk (ctx_bindings c) (ctx_dock c)"

text \<open>
  The handle shares the context with the task.  The task's end, also by cancellation, takes the context and
  withdraws its bindings; the handle then only reports that the maintenance has stopped.  During the awaits of
  a resume the task may end: \<open>before\<close> is the context at the call, \<open>now\<close> after the watcher is ready.
\<close>

datatype interfaces_error = Stopped | WatchFailed string | ListFailed string

definition interfaces_init ::
    "('d, 'v) dock_ops \<Rightarrow> string \<Rightarrow> (string \<Rightarrow> 32 word \<Rightarrow> 'v option) \<Rightarrow> string + unit \<Rightarrow> string + net_interface list \<Rightarrow> 'd
      \<Rightarrow> interfaces_error + ('d, 'v) interfaces_ctx \<times> bind_log" where
  "interfaces_init dk os device watch listing d =
     (case watch of
        Inl e \<Rightarrow> Inl (WatchFailed e)
      | Inr _ \<Rightarrow>
          (case listing of
             Inl e \<Rightarrow> Inl (ListFailed e)
           | Inr current \<Rightarrow> Inr (ctx_scan dk os device \<lparr>snapshot = current, ctx_bindings = [], ctx_dock = d\<rparr>)))"

definition interfaces_resume ::
    "('d, 'v) dock_ops \<Rightarrow> string \<Rightarrow> (string \<Rightarrow> 32 word \<Rightarrow> 'v option) \<Rightarrow> string + unit \<Rightarrow> string + net_interface list
      \<Rightarrow> ('d, 'v) interfaces_ctx option \<Rightarrow> ('d, 'v) interfaces_ctx option
      \<Rightarrow> (interfaces_error + bind_log) \<times> ('d, 'v) interfaces_ctx option" where
  "interfaces_resume dk os device watch listing before now =
     (case before of
        None \<Rightarrow> (Inl Stopped, now)
      | Some _ \<Rightarrow>
          (case watch of
             Inl e \<Rightarrow> (Inl (WatchFailed e), now)
           | Inr _ \<Rightarrow>
               (case now of
                  None \<Rightarrow> (Inl Stopped, now)
                | Some c \<Rightarrow>
                    (case ctx_resume dk os device listing c of
                       (Inl e, c) \<Rightarrow> (Inl (ListFailed e), Some c)
                     | (Inr failed, c) \<Rightarrow> (Inr failed, Some c)))))"

definition interfaces_active ::
    "('d, 'v) dock_ops \<Rightarrow> ('d, 'v) interfaces_ctx option \<Rightarrow> interfaces_error + (string \<times> bind_addr) list" where
  "interfaces_active dk state =
     (case state of
        None \<Rightarrow> Inl Stopped
      | Some c \<Rightarrow> Inr (active_bindings dk (ctx_dock c) (ctx_bindings c)))"

definition task_end :: "('d, 'v) dock_ops \<Rightarrow> ('d, 'v) interfaces_ctx option \<Rightarrow> ('d, 'v) interfaces_ctx option \<times> 'd option" where
  "task_end dk state = (None, map_option (ctx_drop dk) state)"

section \<open>Facts\<close>

text \<open>What a key of the wanted bindings comes from.\<close>

definition wanted :: "string \<Rightarrow> net_interface list \<Rightarrow> interface_address \<Rightarrow> bool" where
  "wanted os is key \<longleftrightarrow>
     (\<exists>i \<in> set is. \<not> excluded_interface (if_name i) os \<and> key \<in> set (interface_keys i))"

lemma interface_keys_ip:
  "key \<in> set (interface_keys i) \<Longrightarrow> bind_ip (key_addr key) \<in> set (if_ips i) \<and> usable_ip (bind_ip (key_addr key))
     \<and> bind_port (key_addr key) = 0 \<and> key_name key = if_name i"
  by (auto simp: interface_keys_def wanted_addr_def split: ip_addr.splits)

lemma interfaces_wanted: "(key, v) \<in> set (interfaces os device is) \<Longrightarrow> wanted os is key"
  by (induction os device "is" rule: interfaces.induct)
    (auto simp: wanted_def split: if_splits option.splits)

lemma interfaces_distinct: "distinct (map fst (interfaces os device is))"
  by (induction os device "is" rule: interfaces.induct)
    (auto simp: distinct_keys_append comp_def keys_of_def split: option.splits)

text \<open>A log entry stands for an attempt that made no binding.\<close>

definition attempted :: "('d, 'v) dock_ops \<Rightarrow> (interface_address \<times> 'v) list \<Rightarrow> interface_address \<times> register_error option \<Rightarrow> bool" where
  "attempted dk current entry \<longleftrightarrow>
     (\<exists>v d. (fst entry, v) \<in> set current
        \<and> fst (bind_interface dk (fst entry) v d) = (case snd entry of Some e \<Rightarrow> Inl e | None \<Rightarrow> Inr None))"

lemma attempted_Cons [intro]: "attempted dk current entry \<Longrightarrow> attempted dk (kv # current) entry"
  by (auto simp: attempted_def)

lemma bind_missing_keys:
  "bind_missing dk current bs d = (bs', failed, d') \<Longrightarrow> distinct (map fst bs)
    \<Longrightarrow> distinct (map fst bs')
        \<and> (\<exists>new. bs' = bs @ new \<and> keys_of new \<subseteq> keys_of current)
        \<and> (\<forall>key \<in> keys_of current. key \<in> keys_of bs' \<or> key \<in> keys_of failed)
        \<and> list_all (attempted dk current) failed"
proof (induction current arbitrary: bs d bs' failed d')
  case Nil
  then show ?case by simp
next
  case (Cons kv current)
  obtain key v where kv: "kv = (key, v)" by force
  obtain r d1 where r: "bind_interface dk key v d = (r, d1)" by force
  consider (old) "key \<in> keys_of bs" | (new) b where "key \<notin> keys_of bs" "r = Inr (Some b)"
    | (failed) "key \<notin> keys_of bs" "\<forall>b. r \<noteq> Inr (Some b)" by blast
  then show ?case
  proof cases
    case old
    with Cons.prems(1) have "bind_missing dk current bs d = (bs', failed, d')" by (simp add: kv)
    from Cons.IH [OF this Cons.prems(2)] old show ?thesis
      by (auto simp: kv list_all_iff)
  next
    case new
    with Cons.prems(1) r have "bind_missing dk current (bs @ [(key, b)]) d1 = (bs', failed, d')"
      by (simp add: kv)
    from Cons.IH [OF this] Cons.prems(2) new show ?thesis 
      by (auto simp: kv keys_of_def [of bs] list_all_iff)
  next
    case failed
    obtain bs1 failed1 d2 where rec: "bind_missing dk current bs d1 = (bs1, failed1, d2)"
      by (metis prod_cases3)
    then obtain e where e: "bs' = bs1" "failed = (key, e) # failed1"
      "r = (case e of Some e \<Rightarrow> Inl e | None \<Rightarrow> Inr None)"
      using Cons.prems(1) failed r by (cases r) (auto simp: kv split: option.splits)
    then have "attempted dk (kv # current) (key, e)"
      using r by (auto simp: attempted_def kv intro!: exI [of _ v] exI [of _ d])
    with Cons.IH [OF rec Cons.prems(2)] e show ?thesis by (auto simp: kv list_all_iff)
  qed
qed

lemma filtered_distinct: "distinct (map fst bs) \<Longrightarrow> distinct (map fst (filter P bs))"
  by (induction bs) auto

text \<open>One scan, over the bindings as they stand.\<close>

lemma scan_result:
  assumes "scan dk current bs d = (bs', failed, d')" and "distinct (map fst bs)"
  shows "distinct (map fst bs')" and "keys_of bs' \<subseteq> keys_of current"
    and "\<exists>new. bs' = filter (\<lambda>(key, b). binding_live dk d b \<and> key \<in> keys_of current) bs @ new"
    and "\<forall>key \<in> keys_of current. key \<in> keys_of bs' \<or> key \<in> keys_of failed"
    and "list_all (attempted dk current) failed"
proof -
  let ?kept = "filter (\<lambda>kb. \<not> obsolete dk d (keys_of current) kb) bs"
  have kept: "?kept = filter (\<lambda>(key, b). binding_live dk d b \<and> key \<in> keys_of current) bs"
    by (rule filter_cong) (auto simp: obsolete_def)
  from assms(1) have "bind_missing dk current ?kept
      (withdraw_all dk (filter (obsolete dk d (keys_of current)) bs) d) = (bs', failed, d')"
    by (simp add: scan_def Let_def)
  from bind_missing_keys [OF this filtered_distinct [OF assms(2)]]
  obtain new where r: "distinct (map fst bs')" "bs' = ?kept @ new" "keys_of new \<subseteq> keys_of current"
    "\<forall>key \<in> keys_of current. key \<in> keys_of bs' \<or> key \<in> keys_of failed"
    "list_all (attempted dk current) failed" by blast
  show "distinct (map fst bs')" "list_all (attempted dk current) failed" "\<forall>key \<in> keys_of current. key \<in> keys_of bs' \<or> key \<in> keys_of failed"
    using r by blast+
  show "\<exists>new. bs' = filter (\<lambda>(key, b). binding_live dk d b \<and> key \<in> keys_of current) bs @ new"
    using r(2) kept by blast
  show "keys_of bs' \<subseteq> keys_of current" using r(2,3) kept keys_of_filter by fastforce
qed

section \<open>Every scan reconciles the bindings with the interfaces\<close>

definition reconciled ::
    "('d, 'v) dock_ops \<Rightarrow> string \<Rightarrow> (string \<Rightarrow> 32 word \<Rightarrow> 'v option) \<Rightarrow> net_interface list \<Rightarrow> ('d, 'v) interfaces_ctx
      \<Rightarrow> ('d, 'v) interfaces_ctx \<times> bind_log \<Rightarrow> bool" where
  "reconciled dk os device now c r \<longleftrightarrow>
     (let c' = fst r; failed = snd r; current = interfaces os device now
      in snapshot c' = now
         \<and> distinct (map fst (ctx_bindings c'))
         \<and> (\<forall>key \<in> keys_of (ctx_bindings c'). wanted os now key)
         \<and> (\<exists>new. ctx_bindings c' =
              filter (\<lambda>(key, b). binding_live dk (ctx_dock c) b \<and> key \<in> keys_of current) (ctx_bindings c) @ new)
         \<and> (\<forall>key \<in> keys_of current. key \<in> keys_of (ctx_bindings c') \<or> key \<in> keys_of failed)
         \<and> list_all (attempted dk current) failed)"

lemma ctx_scan_reconciled:
  assumes "distinct (map fst (ctx_bindings c))"
  shows "reconciled dk os device (snapshot c) c (ctx_scan dk os device c)"
proof -
  obtain bs failed d where r: "scan dk (interfaces os device (snapshot c)) (ctx_bindings c) (ctx_dock c) = (bs, failed, d)"
    by (metis prod_cases3)
  have "ctx_scan dk os device c = (c\<lparr>ctx_bindings := bs, ctx_dock := d\<rparr>, failed)" by (simp add: ctx_scan_def r)
  moreover have "\<forall>key \<in> keys_of bs. wanted os (snapshot c) key"
    using scan_result(2) [OF r assms] interfaces_wanted by (fastforce simp: keys_of_def)
  ultimately show ?thesis using scan_result [OF r assms] by (simp add: reconciled_def)
qed

text \<open>What the watcher's answer makes the snapshot.\<close>

definition polled :: "(string + net_interface list) option \<Rightarrow> net_interface list \<Rightarrow> net_interface list" where
  "polled changed old = (case changed of Some (Inr current) \<Rightarrow> current | _ \<Rightarrow> old)"

lemma poll_reconciled:
  assumes "distinct (map fst (ctx_bindings c))"
  shows "reconciled dk os device (polled changed (snapshot c)) c (ctx_poll dk os device changed c)"
proof -
  let ?c = "c\<lparr>snapshot := polled changed (snapshot c)\<rparr>"
  have eq: "ctx_poll dk os device changed c = ctx_scan dk os device ?c"
    by (simp add: ctx_poll_def polled_def split: option.splits sum.splits)
  from assms have "reconciled dk os device (snapshot ?c) ?c (ctx_scan dk os device ?c)"
    by (intro ctx_scan_reconciled) simp
  then show ?thesis unfolding eq by (simp add: reconciled_def)
qed

text \<open>
  C34: Every poll of the interface task reconciles the bindings with the interfaces.  Afterwards no key is
  bound twice, every binding belongs to an interface of the latest snapshot that is not excluded and to a
  usable address of it, the bindings that were live and are still wanted are kept as they were, ports
  included, and every wanted address is bound or its failed attempt is reported.  A resume does the same on
  the interfaces it lists and changes nothing when it cannot list them.
\<close>

theorem scan_reconciles:
  assumes "distinct (map fst (ctx_bindings c))"
  shows "reconciled dk os device (polled changed (snapshot c)) c (ctx_poll dk os device changed c)
    \<and> (\<exists>failed c'. ctx_resume dk os device (Inr current) c = (Inr failed, c')
          \<and> reconciled dk os device current c (c', failed))
    \<and> ctx_resume dk os device (Inl e) c = (Inl e, c)"
proof -
  have "ctx_resume dk os device (Inr current) c
      = (case ctx_poll dk os device (Some (Inr current)) c of (c', failed) \<Rightarrow> (Inr failed, c'))"
    by (simp add: ctx_resume_def ctx_poll_def)
  then show ?thesis
    using poll_reconciled [OF assms, of dk os device changed] poll_reconciled [OF assms, of dk os device "Some (Inr current)"]
    by (cases "ctx_poll dk os device (Some (Inr current)) c") (simp add: polled_def ctx_resume_def)
qed

text \<open>A dock whose sockets are numbered and get the ports from 1000 on.\<close>

definition example_dock :: "((bind_addr \<times> nat) list, unit) dock_ops" where
  "example_dock =
     \<lparr>bind_to_device = (\<lambda>a _ d. (Inr (length d), (a\<lparr>bind_port := 1000 + length d\<rparr>, length d) # d)),
      local_addr = (\<lambda>s d. case find (\<lambda>(_, t). t = s) d of Some (a, _) \<Rightarrow> Inr a | None \<Rightarrow> Inl ''closed''),
      dock_add = (\<lambda>s d. (Inr (Some s), d)),
      dock_remove = (\<lambda>s d. filter (\<lambda>(_, t). t \<noteq> s) d),
      dock_find = (\<lambda>a d. map_of d a),
      receiver_finished = (\<lambda>_ _. False),
      scope_of_addr = (\<lambda>_. Some Internal),
      insert_outer = (\<lambda>_ _ d. (Inr (), d)),
      insert_inner = (\<lambda>_ _ d. (Inr (), d)),
      remove_bound = (\<lambda>_ d. d)\<rparr>"

definition example_ctx :: "((bind_addr \<times> nat) list, unit) interfaces_ctx" where
  "example_ctx = \<lparr>snapshot = [], ctx_bindings = [], ctx_dock = []\<rparr>"

definition example_interfaces :: "net_interface list" where
  "example_interfaces =
     [\<lparr>if_name = ''eth0'', if_index = 2, if_hw_addr = ''aa'', if_ips = [V4 0, V4 0x0A000001]\<rparr>,
      \<lparr>if_name = ''docker0'', if_index = 3, if_hw_addr = ''bb'', if_ips = [V4 0xAC110001]\<rparr>]"

theorem scan_reconciles_witness:
  "(let r = ctx_poll example_dock ''linux'' (\<lambda>_ _. Some ()) (Some (Inr example_interfaces)) example_ctx
    in reconciled example_dock ''linux'' (\<lambda>_ _. Some ()) example_interfaces example_ctx r
       \<and> active_bindings example_dock (ctx_dock (fst r)) (ctx_bindings (fst r))
         = [(''eth0'', \<lparr>bind_ip = V4 0x0A000001, bind_port = 1000, bind_scope = 0\<rparr>)])"
proof -
  have "distinct (map fst (ctx_bindings example_ctx))" by (simp add: example_ctx_def)
  from scan_reconciles [OF this, of example_dock "''linux''" "\<lambda>_ _. Some ()" "Some (Inr example_interfaces)"]
  have "reconciled example_dock ''linux'' (\<lambda>_ _. Some ()) example_interfaces example_ctx
      (ctx_poll example_dock ''linux'' (\<lambda>_ _. Some ()) (Some (Inr example_interfaces)) example_ctx)"
    by (simp add: polled_def)
  moreover have "(let r = ctx_poll example_dock ''linux'' (\<lambda>_ _. Some ()) (Some (Inr example_interfaces)) example_ctx
      in active_bindings example_dock (ctx_dock (fst r)) (ctx_bindings (fst r)))
         = [(''eth0'', \<lparr>bind_ip = V4 0x0A000001, bind_port = 1000, bind_scope = 0\<rparr>)]"
    by code_simp
  ultimately show ?thesis by (simp add: Let_def)
qed

end
