(* ===== verification/Network.thy ===== *)
theory Network
  imports Requests "HOL-Library.AList"
begin

text \<open>
  The process-wide network: the crate \<open>dhttp\<close>, files \<open>dhttp/src/network.rs\<close> (initialisation, listening,
  the renewal of a staple) and \<open>dhttp/src/network/connection.rs\<close> (the keys of the connection pool, outgoing
  handshakes, serving a connection), with the adapter of a connection in \<open>dhttp/src/transport.rs\<close>.  The QUIC
  endpoint, the registry of TLS servers and the pool are parameters with a contract.
\<close>

section \<open>Connections\<close>

datatype role = ClientRole | ServerRole

record 'c authority =
  authority_name :: string
  authority_chain :: "'c list"

record 'c transport =
  transport_id :: nat
  transport_alpn :: string
  local_authority :: "'c authority option"
  remote_authority :: "'c authority option"
  transport_role :: role

definition ALPN :: string where "ALPN = ''h3''"

definition quic_transport ::
    "nat \<Rightarrow> string \<Rightarrow> 'c authority option \<Rightarrow> 'c authority option \<Rightarrow> role \<Rightarrow> core_error + 'c transport" where
  "quic_transport connection alpn l r role =
     (if alpn \<noteq> ''h3''
      then Inl (core_from_io (IoSource ''invalid data'' (Some (Opaque ''negotiated ALPN is not h3''))))
      else Inr \<lparr>transport_id = connection, transport_alpn = alpn, local_authority = l,
                remote_authority = r, transport_role = role\<rparr>)"

text \<open>\<open>h3_new\<close> is the error of \<open>H3Connection::new\<close>, if it fails; the connection is its transport.\<close>

definition h3_setup ::
    "('c transport \<Rightarrow> h3_error option) \<Rightarrow> nat \<Rightarrow> string \<Rightarrow> 'c authority option \<Rightarrow> 'c authority option \<Rightarrow> role
      \<Rightarrow> core_error + 'c transport" where
  "h3_setup h3_new connection alpn l r role =
     and_then (quic_transport connection alpn l r role) (\<lambda>t.
     case h3_new t of Some e \<Rightarrow> Inl (Http3 e) | None \<Rightarrow> Inr t)"

section \<open>The keys of the pool\<close>

datatype 'k connection_key = Incoming string "string option" | Outgoing "'k endpoint option" string

fun key_names :: "'k connection_key \<Rightarrow> string option \<times> string option" where
  "key_names (Incoming l r) = (Some l, r)"
| "key_names (Outgoing l r) = (map_option endpoint_name l, Some r)"

text \<open>The same peers share an entry whoever initiated the connection.\<close>

definition key_eq :: "'k connection_key \<Rightarrow> 'k connection_key \<Rightarrow> bool" where
  "key_eq a b \<longleftrightarrow> key_names a = key_names b"

section \<open>The QUIC crate\<close>

text \<open>The callback of a registration is named by the listener whose connections it accepts.\<close>

record ('s, 'v) registration =
  scopes :: 's
  server_parameters :: "(string \<times> 'v) list"
  accept_cb :: string

record ('q, 'k, 's, 'v, 'r) quic_ops =
  quic_from :: "'k endpoint option \<Rightarrow> 'q"
  set_alpn :: "string list \<Rightarrow> 'q \<Rightarrow> 'q"
  set_parameter :: "role \<Rightarrow> string \<Rightarrow> 'v \<Rightarrow> 'q \<Rightarrow> any_error + 'q"
  seconds :: "nat \<Rightarrow> 'v"
  quic_listen :: "'q \<Rightarrow> 's \<Rightarrow> string \<Rightarrow> 'r \<Rightarrow> (string + unit) \<times> 'r"
  registry_get :: "'r \<Rightarrow> string \<Rightarrow> ('s, 'v) registration option"
  registry_remove :: "string \<Rightarrow> 'r \<Rightarrow> 'r"

definition CONNECTION_IDLE_TIMEOUT :: nat where "CONNECTION_IDLE_TIMEOUT = 5 * 60"

definition other_error :: "any_error \<Rightarrow> core_error" where
  "other_error e = core_from_io (io_other e)"

definition configure_quic :: "('q, 'k, 's, 'v, 'r) quic_ops \<Rightarrow> 'q \<Rightarrow> core_error + 'q" where
  "configure_quic ops q =
     (let timeout = seconds ops CONNECTION_IDLE_TIMEOUT
      in and_then (map_err other_error
             (set_parameter ops ClientRole ''MaxIdleTimeout'' timeout (set_alpn ops [ALPN] q))) (\<lambda>q.
         map_err other_error (set_parameter ops ServerRole ''MaxIdleTimeout'' timeout q)))"

section \<open>Listening\<close>

record ('svc, 'r) network =
  listeners :: "string \<Rightarrow> 'svc option"
  registry :: 'r

text \<open>The cell of the network: a failed initialisation leaves it empty.\<close>

definition network_init ::
    "string option \<Rightarrow> io_source option \<Rightarrow> 'r \<Rightarrow> ('svc, 'r) network option
      \<Rightarrow> (core_error + ('svc, 'r) network) \<times> ('svc, 'r) network option" where
  "network_init trust interfaces r cell =
     (case cell of
        Some n \<Rightarrow> (Inr n, cell)
      | None \<Rightarrow>
          (case (trust, interfaces) of
             (Some e, _) \<Rightarrow> (Inl (TlsConfig e), None)
           | (None, Some e) \<Rightarrow> (Inl (core_from_io e), None)
           | (None, None) \<Rightarrow>
               (let n = \<lparr>listeners = (\<lambda>_. None), registry = r\<rparr> in (Inr n, Some n))))"

text \<open>The result names the listener; it stands for the future whose drop ends the listening.\<close>

definition listen ::
    "('q, 'k, 's, 'v, 'r) quic_ops \<Rightarrow> 'k endpoint \<Rightarrow> 's \<Rightarrow> 'svc \<Rightarrow> ('svc, 'r) network
      \<Rightarrow> (core_error + string) \<times> ('svc, 'r) network" where
  "listen ops e sc service n =
     (case configure_quic ops (quic_from ops (Some e)) of
        Inl err \<Rightarrow> (Inl err, n)
      | Inr q \<Rightarrow>
          (let name = endpoint_name e
           in if listeners n name \<noteq> None then (Inl AlreadyListening, n)
              else if registry_get ops (registry n) name \<noteq> None then (Inl (NameInUse name), n)
              else (case quic_listen ops q sc name (registry n) of
                      (Inl err, r) \<Rightarrow> (Inl (Quic err), n\<lparr>registry := r\<rparr>)
                    | (Inr _, r) \<Rightarrow>
                        (Inr name, n\<lparr>registry := r, listeners := (listeners n)(name \<mapsto> service)\<rparr>))))"

definition stop_listening :: "('q, 'k, 's, 'v, 'r) quic_ops \<Rightarrow> string \<Rightarrow> ('svc, 'r) network \<Rightarrow> ('svc, 'r) network" where
  "stop_listening ops name n =
     n\<lparr>listeners := (listeners n)(name := None), registry := registry_remove ops name (registry n)\<rparr>"

section \<open>The renewal of a staple\<close>

fun set_parameters :: "('q, 'k, 's, 'v, 'r) quic_ops \<Rightarrow> (string \<times> 'v) list \<Rightarrow> 'q \<Rightarrow> core_error + 'q" where
  "set_parameters ops [] q = Inr q"
| "set_parameters ops ((i, v) # ps) q =
     and_then (map_err other_error (set_parameter ops ServerRole i v q)) (set_parameters ops ps)"

text \<open>\<open>valid\<close> is \<open>qtls::validate_ocsp\<close> at the time of the call.\<close>

definition replace_staple ::
    "('q, 'k, 's, 'v, 'r) quic_ops \<Rightarrow> (string \<Rightarrow> string list \<Rightarrow> any_error + unit) \<Rightarrow> 'k endpoint \<Rightarrow> 'k endpoint
      \<Rightarrow> ('svc, 'r) network option \<Rightarrow> (core_error + 'k endpoint) \<times> ('svc, 'r) network option" where
  "replace_staple ops valid self replacement net =
     (if endpoint_name replacement \<noteq> endpoint_name self
      then (Inl (InvalidNameError (endpoint_name replacement)), net)
      else if cert_chain replacement \<noteq> cert_chain self
      then (Inl (core_from_io (IoSource ''invalid input parameter''
             (Some (Opaque ''certificate chain changed; restart required'')))), net)
      else case valid (staple replacement) (cert_chain replacement) of
        Inl e \<Rightarrow> (Inl (other_error e), net)
      | Inr _ \<Rightarrow>
          (case net of
             None \<Rightarrow> (Inl NetworkNotInitialized, net)
           | Some n \<Rightarrow>
               if listeners n (endpoint_name self) = None then (Inr replacement, net)
               else case registry_get ops (registry n) (endpoint_name self) of
                 None \<Rightarrow> (Inl (other_error (Opaque ''listener TLS registration disappeared'')), net)
               | Some registered \<Rightarrow>
                   (case and_then (configure_quic ops (quic_from ops (Some replacement)))
                           (set_parameters ops (server_parameters registered)) of
                      Inl e \<Rightarrow> (Inl e, net)
                    | Inr q \<Rightarrow>
                        (case quic_listen ops q (scopes registered) (accept_cb registered) (registry n) of
                           (Inl e, r) \<Rightarrow> (Inl (other_error (AnyQuic e)), Some (n\<lparr>registry := r\<rparr>))
                         | (Inr _, r) \<Rightarrow> (Inr replacement, Some (n\<lparr>registry := r\<rparr>))))))"

text \<open>\<open>None\<close> is a load that does not return.\<close>

definition reload where
  "reload t w ops valid self net =
     (case endpoint_load w (endpoint_name self) of
        None \<Rightarrow> None
      | Some (Inl e) \<Rightarrow> Some (Inl (endpoint_core_error t e), net)
      | Some (Inr replacement) \<Rightarrow> Some (replace_staple ops valid self replacement net))"

definition reload_from where
  "reload_from t w ops valid self path net =
     (case load_from w path of
        None \<Rightarrow> None
      | Some (Inl e) \<Rightarrow> Some (Inl (endpoint_core_error t e), net)
      | Some (Inr replacement) \<Rightarrow> Some (replace_staple ops valid self replacement net))"

section \<open>Connecting and serving\<close>

record ('q, 'c) connector =
  quic_connect :: "'q \<Rightarrow> string \<Rightarrow> string + 'c authority option \<times> 'c authority \<times> nat \<times> string"
  h3_new :: "'c transport \<Rightarrow> h3_error option"

definition connect ::
    "('q, 'k, 's, 'v, 'r) quic_ops \<Rightarrow> ('q, 'c) connector \<Rightarrow> ('svc, 'r) network option \<Rightarrow> 'k connection_key
      \<Rightarrow> core_error + 'c transport" where
  "connect ops cn net key =
     (case key of
        Incoming _ _ \<Rightarrow> Inl (InvalidRequest ''cannot initiate a connection with an incoming key'')
      | Outgoing local remote \<Rightarrow>
          and_then (ok_or NetworkNotInitialized net) (\<lambda>_.
          and_then (configure_quic ops (quic_from ops local)) (\<lambda>q.
          and_then (map_err Quic (quic_connect cn q remote)) (\<lambda>(l, r, connection, alpn).
            h3_setup (h3_new cn) connection alpn l (Some r) ClientRole))))"

text \<open>The pool; its \<open>get\<close> is given what connecting would return, and returns \<open>None\<close> at the timeout.\<close>

record ('c, 'k, 'p) pool_ops =
  pool_get :: "'k connection_key \<Rightarrow> core_error + 'c transport \<Rightarrow> 'p \<Rightarrow> (core_error + 'c transport) option \<times> 'p"
  pool_insert :: "'k connection_key \<Rightarrow> 'c transport \<Rightarrow> 'p \<Rightarrow> 'p"
  pool_remove :: "'k connection_key \<Rightarrow> 'c transport \<Rightarrow> 'p \<Rightarrow> 'p"

definition get_connection ::
    "('q, 'k, 's, 'v, 'r) quic_ops \<Rightarrow> ('q, 'c) connector \<Rightarrow> ('c, 'k, 'p) pool_ops \<Rightarrow> ('svc, 'r) network option
      \<Rightarrow> 'k endpoint option \<Rightarrow> string \<Rightarrow> 'p \<Rightarrow> (core_error + 'c transport) \<times> 'p" where
  "get_connection ops cn pl net local remote p =
     (let key = Outgoing local remote
      in case pool_get pl key (connect ops cn net key) p of
           (None, p) \<Rightarrow> (Inl (other_error (Opaque ''deadline has elapsed'')), p)
         | (Some result, p) \<Rightarrow> (result, p))"

text \<open>The accept callback of the listener \<open>name\<close>: the connection it serves, if it can be set up.\<close>

definition accept_connection ::
    "('q, 'c) connector \<Rightarrow> ('c, 'k, 'p) pool_ops \<Rightarrow> string \<Rightarrow> 'c authority option \<Rightarrow> 'c authority \<Rightarrow> nat \<Rightarrow> string
      \<Rightarrow> 'p \<Rightarrow> ('k connection_key \<times> 'c transport) option \<times> 'p" where
  "accept_connection cn pl name remote local connection alpn p =
     (let key = Incoming name (map_option authority_name remote)
      in case h3_setup (h3_new cn) connection alpn (Some local) remote ServerRole of
           Inl _ \<Rightarrow> (None, p)
         | Inr h3 \<Rightarrow> (Some (key, h3), pool_insert pl key h3 p))"

definition REQUEST_REJECTED :: "64 word" where "REQUEST_REJECTED = 0x10b"

datatype ('st, 'svc) serving = Handled 'st 'svc "(string option) \<times> (string option)" | Rejected 'st "64 word"

text \<open>Each stream comes with the listeners at that time; \<open>handle_request\<close> gets the handshake's names.\<close>

definition serve_stream ::
    "'k connection_key \<Rightarrow> 'c transport \<Rightarrow> 'st \<times> (string \<Rightarrow> 'svc option) \<Rightarrow> ('st, 'svc) serving" where
  "serve_stream key h3 = (\<lambda>(stream, listeners).
     case Option.bind (fst (key_names key)) listeners of
       None \<Rightarrow> Rejected stream REQUEST_REJECTED
     | Some service \<Rightarrow>
         Handled stream service (map_option authority_name (local_authority h3),
                                 map_option authority_name (remote_authority h3)))"

text \<open>The loop ends when no stream can be accepted any more; then the connection leaves the pool.\<close>

definition serve_connection ::
    "('c, 'k, 'p) pool_ops \<Rightarrow> 'k connection_key \<Rightarrow> 'c transport \<Rightarrow> ('st \<times> (string \<Rightarrow> 'svc option)) list \<Rightarrow> 'p
      \<Rightarrow> ('st, 'svc) serving list \<times> 'p" where
  "serve_connection pl key h3 streams p = (map (serve_stream key h3) streams, pool_remove pl key h3 p)"

section \<open>What the QUIC crate promises\<close>

text \<open>
  \<open>ident\<close> and \<open>params\<close> are the identity and the server parameters of a QUIC endpoint, \<open>shown\<close> the identity a
  registration presents.  Registering under a name that is registered replaces the registration, a failed
  registration leaves the registry as it was, and a removal takes the name only.
\<close>

record ('q, 'k, 'v, 'r) quic_view =
  ident :: "'q \<Rightarrow> 'k endpoint option"
  params :: "'q \<Rightarrow> string \<Rightarrow> 'v option"
  initial_params :: "string \<Rightarrow> 'v option"
  shown :: "'r \<Rightarrow> string \<Rightarrow> 'k endpoint option"

definition quic_contract :: "('q, 'k, 's, 'v, 'r) quic_ops \<Rightarrow> ('q, 'k, 'v, 'r) quic_view \<Rightarrow> bool" where
  "quic_contract ops vw \<longleftrightarrow>
     (\<forall>e. ident vw (quic_from ops e) = e \<and> params vw (quic_from ops e) = initial_params vw)
     \<and> (\<forall>a q. ident vw (set_alpn ops a q) = ident vw q \<and> params vw (set_alpn ops a q) = params vw q)
     \<and> (\<forall>role i v q q'. set_parameter ops role i v q = Inr q' \<longrightarrow> ident vw q' = ident vw q
          \<and> params vw q' = (if role = ServerRole then (params vw q)(i \<mapsto> v) else params vw q))
     \<and> (\<forall>q e sc cb r r'. ident vw q = Some e \<and> quic_listen ops q sc cb r = (Inr (), r') \<longrightarrow>
          (\<exists>reg. scopes reg = sc \<and> accept_cb reg = cb \<and> map_of (server_parameters reg) = params vw q
             \<and> distinct (map fst (server_parameters reg))
             \<and> registry_get ops r' = (registry_get ops r)(endpoint_name e \<mapsto> reg))
          \<and> shown vw r' = (shown vw r)(endpoint_name e \<mapsto> e))
     \<and> (\<forall>q sc cb r err r'. quic_listen ops q sc cb r = (Inl err, r') \<longrightarrow>
          registry_get ops r' = registry_get ops r \<and> shown vw r' = shown vw r)
     \<and> (\<forall>name r. registry_get ops (registry_remove ops name r) = (registry_get ops r)(name := None)
          \<and> shown vw (registry_remove ops name r) = (shown vw r)(name := None))"

lemma contract_listen:
  assumes "quic_contract ops vw" "ident vw q = Some e" "quic_listen ops q sc cb r = (Inr (), r')"
  obtains reg where "scopes reg = sc" "accept_cb reg = cb" "map_of (server_parameters reg) = params vw q"
    "distinct (map fst (server_parameters reg))"
    "registry_get ops r' = (registry_get ops r)(endpoint_name e \<mapsto> reg)"
    "shown vw r' = (shown vw r)(endpoint_name e \<mapsto> e)"
  using assms unfolding quic_contract_def by blast

lemma contract_listen_failed:
  "quic_contract ops vw \<Longrightarrow> quic_listen ops q sc cb r = (Inl err, r') \<Longrightarrow>
     registry_get ops r' = registry_get ops r \<and> shown vw r' = shown vw r"
  unfolding quic_contract_def by blast

lemma contract_remove:
  "quic_contract ops vw \<Longrightarrow> registry_get ops (registry_remove ops name r) = (registry_get ops r)(name := None)
     \<and> shown vw (registry_remove ops name r) = (shown vw r)(name := None)"
  unfolding quic_contract_def by blast

lemma contract_parameter:
  "quic_contract ops vw \<Longrightarrow> set_parameter ops role i v q = Inr q' \<Longrightarrow> ident vw q' = ident vw q
     \<and> params vw q' = (if role = ServerRole then (params vw q)(i \<mapsto> v) else params vw q)"
  unfolding quic_contract_def by blast

text \<open>The parameters every endpoint of the program is configured with.\<close>

definition configured :: "('q, 'k, 's, 'v, 'r) quic_ops \<Rightarrow> ('q, 'k, 'v, 'r) quic_view \<Rightarrow> string \<Rightarrow> 'v option" where
  "configured ops vw = (initial_params vw)(''MaxIdleTimeout'' \<mapsto> seconds ops CONNECTION_IDLE_TIMEOUT)"

lemma map_err_Inr [simp]: "map_err f r = Inr x \<longleftrightarrow> r = Inr x"
  by (cases r) (simp_all add: map_err_def)

lemma configure_quic_view:
  assumes "quic_contract ops vw" "configure_quic ops (quic_from ops e) = Inr q"
  shows "ident vw q = e \<and> params vw q = configured ops vw"
proof -
  from assms(2) obtain q1 where
    q1: "set_parameter ops ClientRole ''MaxIdleTimeout'' (seconds ops CONNECTION_IDLE_TIMEOUT)
           (set_alpn ops [ALPN] (quic_from ops e)) = Inr q1"
    and q: "set_parameter ops ServerRole ''MaxIdleTimeout'' (seconds ops CONNECTION_IDLE_TIMEOUT) q1 = Inr q"
    by (auto simp: configure_quic_def and_then_eq_Inr Let_def)
  have "ident vw (set_alpn ops [ALPN] (quic_from ops e)) = e"
    "params vw (set_alpn ops [ALPN] (quic_from ops e)) = initial_params vw"
    using assms(1) unfolding quic_contract_def by auto
  with contract_parameter [OF assms(1) q1] contract_parameter [OF assms(1) q] show ?thesis
    by (simp add: configured_def)
qed

lemma set_parameters_view:
  assumes "quic_contract ops vw"
  shows "set_parameters ops ps q = Inr q' \<Longrightarrow> distinct (map fst ps) \<Longrightarrow>
    ident vw q' = ident vw q \<and> params vw q' = params vw q ++ map_of ps"
proof (induction ps arbitrary: q)
  case (Cons p ps)
  obtain i v where p: "p = (i, v)" by force
  with Cons.prems(1) obtain q1 where q1: "set_parameter ops ServerRole i v q = Inr q1" "set_parameters ops ps q1 = Inr q'"
    by (auto simp: and_then_eq_Inr)
  from Cons.prems(2) p have "i \<notin> dom (map_of ps)" by (simp add: dom_map_of_conv_image_fst)
  then have "(params vw q)(i \<mapsto> v) ++ map_of ps = params vw q ++ map_of (p # ps)"
    by (auto simp: p map_add_def fun_eq_iff domIff split: option.splits)
  moreover have "ident vw q1 = ident vw q" "params vw q1 = (params vw q)(i \<mapsto> v)"
    using contract_parameter [OF assms q1(1)] by auto
  moreover have "ident vw q' = ident vw q1" "params vw q' = params vw q1 ++ map_of ps"
    using Cons.IH [OF q1(2)] Cons.prems(2) by auto
  ultimately show ?case by argo
qed simp

section \<open>Listeners and registrations agree\<close>

text \<open>What the applications do: listen, drop the future of a listener, and renew a staple.  Beside the network
  are the futures handed out and not dropped, each with what it was made for.\<close>

datatype ('k, 's, 'svc) listen_event = Listen "'k endpoint" 's 'svc | Unlisten string
  | Renew "string \<Rightarrow> string list \<Rightarrow> any_error + unit" "'k endpoint" "'k endpoint"

type_synonym ('k, 's, 'svc, 'r) listening = "('svc, 'r) network \<times> (string \<Rightarrow> ('k endpoint \<times> 's \<times> 'svc) option)"

fun listen_step ::
    "('q, 'k, 's, 'v, 'r) quic_ops \<Rightarrow> ('k, 's, 'svc) listen_event \<Rightarrow> ('k, 's, 'svc, 'r) listening
      \<Rightarrow> ('k, 's, 'svc, 'r) listening" where
  "listen_step ops (Listen e sc service) (n, held) =
     (case listen ops e sc service n of
        (Inl _, n) \<Rightarrow> (n, held)
      | (Inr name, n) \<Rightarrow> (n, held(name \<mapsto> (e, sc, service))))"
| "listen_step ops (Unlisten name) (n, held) =
     (if held name = None then (n, held) else (stop_listening ops name n, held(name := None)))"
| "listen_step ops (Renew valid self replacement) (n, held) =
     (case replace_staple ops valid self replacement (Some n) of
        (_, Some n) \<Rightarrow> (n, held)
      | (_, None) \<Rightarrow> (n, held))"

text \<open>\<open>chain\<close> gives the names whose endpoints all carry one certificate chain that chain.\<close>

definition has_chain :: "(string \<Rightarrow> string list option) \<Rightarrow> 'k endpoint \<Rightarrow> bool" where
  "has_chain chain e \<longleftrightarrow> (case chain (endpoint_name e) of None \<Rightarrow> True | Some c \<Rightarrow> cert_chain e = c)"

fun chain_event :: "(string \<Rightarrow> string list option) \<Rightarrow> ('k, 's, 'svc) listen_event \<Rightarrow> bool" where
  "chain_event chain (Listen e _ _) = has_chain chain e"
| "chain_event chain (Renew _ self _) = has_chain chain self"
| "chain_event chain (Unlisten _) = True"

text \<open>A registration is what was asked for, under the listener's name, with the parameters of every endpoint.\<close>

definition registered_ok ::
    "('q, 'k, 's, 'v, 'r) quic_ops \<Rightarrow> ('q, 'k, 'v, 'r) quic_view \<Rightarrow> (string \<Rightarrow> string list option) \<Rightarrow> string
      \<Rightarrow> 'k endpoint \<times> 's \<times> 'svc \<Rightarrow> ('s, 'v) registration option \<Rightarrow> 'k endpoint option \<Rightarrow> bool" where
  "registered_ok ops vw chain name made registered presented \<longleftrightarrow>
     (\<exists>reg e. registered = Some reg \<and> presented = Some e
        \<and> endpoint_name (fst made) = name \<and> scopes reg = fst (snd made) \<and> accept_cb reg = name
        \<and> distinct (map fst (server_parameters reg)) \<and> map_of (server_parameters reg) = configured ops vw
        \<and> endpoint_name e = name \<and> has_chain chain e)"

fun agrees where
  "agrees ops vw chain name None service registered presented foreign
     = (service = None \<and> (registered, presented) = foreign)"
| "agrees ops vw chain name (Some made) service registered presented foreign
     = (service = Some (snd (snd made)) \<and> foreign = (None, None)
        \<and> registered_ok ops vw chain name made registered presented)"

definition name_ok where
  "name_ok ops vw chain r0 n held name =
     agrees ops vw chain name (held name) (listeners n name) (registry_get ops (registry n) name)
       (shown vw (registry n) name) (registry_get ops r0 name, shown vw r0 name)"

lemma name_ok_listening:
  "name_ok ops vw chain r0 n held name \<Longrightarrow> listeners n name = None \<longleftrightarrow> held name = None"
  by (cases "held name") (simp_all add: name_ok_def)

lemma listen_cases:
  assumes "listen ops e sc service n = (res, n')"
  obtains (same) err where "res = Inl err" "n' = n"
  | (failed) qe err' r where "res = Inl (Quic err')" "quic_listen ops qe sc (endpoint_name e) (registry n) = (Inl err', r)"
      "n' = n\<lparr>registry := r\<rparr>"
  | (new) qe r where "res = Inr (endpoint_name e)" "configure_quic ops (quic_from ops (Some e)) = Inr qe"
      "listeners n (endpoint_name e) = None" "registry_get ops (registry n) (endpoint_name e) = None"
      "quic_listen ops qe sc (endpoint_name e) (registry n) = (Inr (), r)"
      "n' = n\<lparr>registry := r, listeners := (listeners n)(endpoint_name e \<mapsto> service)\<rparr>"
proof (cases "configure_quic ops (quic_from ops (Some e))")
  case (Inl err)
  with assms have "res = Inl err" "n' = n" by (simp_all add: listen_def)
  with same show ?thesis by blast
next
  case Inr': (Inr qe)
  show ?thesis
  proof (cases "listeners n (endpoint_name e) = None \<and> registry_get ops (registry n) (endpoint_name e) = None")
    case False
    then have "\<exists>err. res = Inl err" "n' = n" using assms Inr' by (auto simp: listen_def Let_def split: if_splits)
    with same show ?thesis by blast
  next
    case True
    obtain ans r where ans: "quic_listen ops qe sc (endpoint_name e) (registry n) = (ans, r)" by force
    show ?thesis
    proof (cases ans)
      case (Inl err')
      with assms Inr' True ans have "res = Inl (Quic err')" "n' = n\<lparr>registry := r\<rparr>"
        by (simp_all add: listen_def Let_def)
      with failed ans Inl show ?thesis by blast
    next
      case (Inr u)
      with assms Inr' True ans new show ?thesis by (simp add: listen_def Let_def)
    qed
  qed
qed

lemma listen_name_ok:
  assumes q: "quic_contract ops vw" and ok: "\<forall>name. name_ok ops vw chain r0 n held name"
    and free: "\<forall>name. registry_get ops r0 name = None \<longrightarrow> shown vw r0 name = None"
    and chain: "has_chain chain e" and l: "listen ops e sc service n = (res, n')"
  shows "(case res of
      Inl _ \<Rightarrow> \<forall>name. name_ok ops vw chain r0 n' held name
    | Inr name \<Rightarrow> name = endpoint_name e \<and> held name = None
        \<and> (\<forall>name'. name_ok ops vw chain r0 n' (held(name \<mapsto> (e, sc, service))) name'))"
  using l
proof (cases rule: listen_cases)
  case (same err)
  then show ?thesis using ok by simp
next
  case (failed qe err' r)
  then show ?thesis using ok contract_listen_failed [OF q failed(2)] by (auto simp: name_ok_def [abs_def])
next
  case (new qe r)
  note conf = new(2) and none = new(3,4) and ql = new(5) and n' = new(6)
  have held: "held (endpoint_name e) = None" using name_ok_listening [OF spec [OF ok]] none by blast
  have free': "registry_get ops r0 (endpoint_name e) = None" "shown vw r0 (endpoint_name e) = None"
    using spec [OF ok, of "endpoint_name e"] none held free by (auto simp: name_ok_def)
  have view: "ident vw qe = Some e" "params vw qe = configured ops vw"
    using configure_quic_view [OF q conf] by auto
  obtain reg where "scopes reg = sc" "accept_cb reg = endpoint_name e" "map_of (server_parameters reg) = params vw qe"
    "distinct (map fst (server_parameters reg))" "registry_get ops r = (registry_get ops (registry n))(endpoint_name e \<mapsto> reg)"
    "shown vw r = (shown vw (registry n))(endpoint_name e \<mapsto> e)"
    by (rule contract_listen [OF q view(1) ql])
  then have "name_ok ops vw chain r0 n' (held(endpoint_name e \<mapsto> (e, sc, service))) name'" for name'
    using spec [OF ok, of name'] free' chain view(2)
    by (cases "name' = endpoint_name e") (simp_all add: n' name_ok_def registered_ok_def)
  then show ?thesis using new(1) held by auto
qed

lemma stop_name_ok:
  assumes "quic_contract ops vw" "\<forall>name. name_ok ops vw chain r0 n held name" "held name = Some made"
  shows "\<forall>name'. name_ok ops vw chain r0 (stop_listening ops name n) (held(name := None)) name'"
proof
  fix name'
  show "name_ok ops vw chain r0 (stop_listening ops name n) (held(name := None)) name'"
    using spec [OF assms(2), of name'] assms(3) contract_remove [OF assms(1), of name "registry n"]
    by (cases "name' = name") (simp_all add: name_ok_def stop_listening_def)
qed

lemma replace_name_ok:
  assumes q: "quic_contract ops vw" and ok: "\<forall>name. name_ok ops vw chain r0 n held name"
    and chain: "has_chain chain self"
    and l: "replace_staple ops valid self replacement (Some n) = (res, Some n')"
  shows "\<forall>name. name_ok ops vw chain r0 n' held name"
proof (cases "n' = n")
  case True
  then show ?thesis using ok by simp
next
  case False
  then obtain reg qe where
    same: "endpoint_name replacement = endpoint_name self" "cert_chain replacement = cert_chain self"
    and on: "listeners n (endpoint_name self) \<noteq> None" and reg: "registry_get ops (registry n) (endpoint_name self) = Some reg"
    and conf: "and_then (configure_quic ops (quic_from ops (Some replacement))) (set_parameters ops (server_parameters reg)) = Inr qe"
    and ql: "\<exists>res r. quic_listen ops qe (scopes reg) (accept_cb reg) (registry n) = (res, r) \<and> n' = n\<lparr>registry := r\<rparr>"
    using l by (auto simp: replace_staple_def split: sum.splits option.splits prod.splits if_splits)
  from ql obtain ans r where ans: "quic_listen ops qe (scopes reg) (accept_cb reg) (registry n) = (ans, r)"
    and n': "n' = n\<lparr>registry := r\<rparr>" by blast
  from on obtain made where made: "held (endpoint_name self) = Some made"
    using name_ok_listening [OF spec [OF ok], of "endpoint_name self"] by auto
  from spec [OF ok, of "endpoint_name self"] made reg
  have old: "endpoint_name (fst made) = endpoint_name self" "scopes reg = fst (snd made)" "accept_cb reg = endpoint_name self"
    "distinct (map fst (server_parameters reg))" "map_of (server_parameters reg) = configured ops vw"
    by (auto simp: name_ok_def registered_ok_def)
  from conf obtain q1 where q1: "configure_quic ops (quic_from ops (Some replacement)) = Inr q1"
    "set_parameters ops (server_parameters reg) q1 = Inr qe" by (auto simp: and_then_eq_Inr)
  have view: "ident vw qe = Some replacement" "params vw qe = configured ops vw"
    using configure_quic_view [OF q q1(1)] set_parameters_view [OF q q1(2) old(4)] old(5)
    by (simp_all add: map_add_subsumed1)
  have has: "has_chain chain replacement" using chain same by (simp add: has_chain_def split: option.splits)
  show ?thesis
  proof (cases ans)
    case (Inl err)
    then show ?thesis using contract_listen_failed [OF q, of qe] ans ok n' by (simp add: name_ok_def)
  next
    case (Inr u)
    then have "quic_listen ops qe (scopes reg) (accept_cb reg) (registry n) = (Inr (), r)" using ans by simp
    from contract_listen [OF q view(1) this] obtain reg' where
      "scopes reg' = scopes reg" "accept_cb reg' = accept_cb reg" "map_of (server_parameters reg') = params vw qe"
      "distinct (map fst (server_parameters reg'))"
      "registry_get ops r = (registry_get ops (registry n))(endpoint_name replacement \<mapsto> reg')"
      "shown vw r = (shown vw (registry n))(endpoint_name replacement \<mapsto> replacement)" by blast
    then have "name_ok ops vw chain r0 n' held name" for name
      using spec [OF ok, of name] same old made has view(2)
      by (cases "name = endpoint_name self") (simp_all add: n' name_ok_def registered_ok_def)
    then show ?thesis by blast
  qed
qed

lemma replace_staple_network:
  "replace_staple ops valid self replacement (Some n) = (res, net') \<Longrightarrow> net' \<noteq> None"
  by (auto simp: replace_staple_def split: sum.splits option.splits prod.splits if_splits)

lemma listen_step_ok:
  assumes q: "quic_contract ops vw"
    and free: "\<forall>name. registry_get ops r0 name = None \<longrightarrow> shown vw r0 name = None"
    and ok: "\<forall>name. name_ok ops vw chain r0 (fst s) (snd s) name" and ev: "chain_event chain ev"
  shows "\<forall>name. name_ok ops vw chain r0 (fst (listen_step ops ev s)) (snd (listen_step ops ev s)) name"
proof -
  obtain n held where s: "s = (n, held)" by force
  have ok: "\<forall>name. name_ok ops vw chain r0 n held name" using ok s by simp
  show ?thesis
  proof (cases ev)
    case (Listen e sc service)
    obtain res n' where l: "listen ops e sc service n = (res, n')" by force
    have "has_chain chain e" using ev Listen by simp
    from listen_name_ok [OF q ok free this l] l Listen show ?thesis by (cases res) (auto simp: s)
  next
    case (Unlisten name)
    show ?thesis
    proof (cases "held name")
      case None
      then show ?thesis using ok Unlisten s by simp
    next
      case (Some made)
      from stop_name_ok [OF q ok this] Some Unlisten s show ?thesis by simp
    qed
  next
    case (Renew valid self replacement)
    obtain res net' where l: "replace_staple ops valid self replacement (Some n) = (res, net')" by force
    from replace_staple_network [OF l] obtain n' where n': "net' = Some n'" by blast
    have "has_chain chain self" using ev Renew by simp
    from replace_name_ok [OF q ok this l [unfolded n']] show ?thesis by (simp add: Renew s l n')
  qed
qed

lemma listen_run_ok:
  assumes q: "quic_contract ops vw"
    and free: "\<forall>name. registry_get ops r0 name = None \<longrightarrow> shown vw r0 name = None"
  shows "\<forall>name. name_ok ops vw chain r0 (fst s) (snd s) name \<Longrightarrow> list_all (chain_event chain) evs
    \<Longrightarrow> \<forall>name. name_ok ops vw chain r0 (fst (fold (listen_step ops) evs s)) (snd (fold (listen_step ops) evs s)) name"
proof (induction evs arbitrary: s)
  case (Cons ev evs)
  from Cons.prems have "\<forall>name. name_ok ops vw chain r0 (fst (listen_step ops ev s)) (snd (listen_step ops ev s)) name"
    by (intro listen_step_ok [OF q free]) auto
  from Cons.IH [OF this] Cons.prems(2) show ?case by simp
qed simp


text \<open>A registry that is a map.\<close>

type_synonym map_endpoint = "unit endpoint option \<times> (string \<times> nat) list"
type_synonym map_registry = "string \<Rightarrow> ((unit, nat) registration \<times> unit endpoint) option"

definition map_quic :: "(map_endpoint, unit, unit, nat, map_registry) quic_ops" where
  "map_quic =
     \<lparr>quic_from = (\<lambda>e. (e, [])), set_alpn = (\<lambda>_ q. q),
      set_parameter = (\<lambda>role i v (e, ps). Inr (e, if role = ServerRole then AList.update i v ps else ps)),
      seconds = (\<lambda>n. n),
      quic_listen = (\<lambda>(e, ps) sc cb r.
        case e of None \<Rightarrow> (Inl ''anonymous'', r)
        | Some e \<Rightarrow> (Inr (), r(endpoint_name e \<mapsto>
            (\<lparr>scopes = sc, server_parameters = AList.clearjunk ps, accept_cb = cb\<rparr>, e)))),
      registry_get = (\<lambda>r name. map_option fst (r name)),
      registry_remove = (\<lambda>name r. r(name := None))\<rparr>"

definition map_view :: "(map_endpoint, unit, nat, map_registry) quic_view" where
  "map_view = \<lparr>ident = fst, params = (\<lambda>q. map_of (snd q)), initial_params = (\<lambda>_. None),
     shown = (\<lambda>r name. map_option snd (r name))\<rparr>"

lemma map_quic_listen:
  assumes "ident map_view q = Some e" "quic_listen map_quic q sc cb r = (Inr (), r')"
  shows "(\<exists>reg. scopes reg = sc \<and> accept_cb reg = cb \<and> map_of (server_parameters reg) = params map_view q
            \<and> distinct (map fst (server_parameters reg))
            \<and> registry_get map_quic r' = (registry_get map_quic r)(endpoint_name e \<mapsto> reg))
         \<and> shown map_view r' = (shown map_view r)(endpoint_name e \<mapsto> e)"
proof -
  let ?reg = "\<lparr>scopes = sc, server_parameters = AList.clearjunk (snd q), accept_cb = cb\<rparr>"
  have r': "r' = r(endpoint_name e \<mapsto> (?reg, e))"
    using assms by (cases q) (simp add: map_quic_def map_view_def)
  have "registry_get map_quic r' = (registry_get map_quic r)(endpoint_name e \<mapsto> ?reg)"
    "shown map_view r' = (shown map_view r)(endpoint_name e \<mapsto> e)"
    by (simp_all add: r' map_quic_def map_view_def fun_eq_iff)
  moreover have "map_of (server_parameters ?reg) = params map_view q" "distinct (map fst (server_parameters ?reg))"
    by (simp_all add: map_of_clearjunk distinct_clearjunk map_view_def)
  ultimately show ?thesis by (intro conjI exI [of _ ?reg]) simp_all
qed

lemma map_quic_contract: "quic_contract map_quic map_view"
  unfolding quic_contract_def
proof (intro conjI)
  show "\<forall>q e sc cb r r'. ident map_view q = Some e \<and> quic_listen map_quic q sc cb r = (Inr (), r') \<longrightarrow>
      (\<exists>reg. scopes reg = sc \<and> accept_cb reg = cb \<and> map_of (server_parameters reg) = params map_view q
         \<and> distinct (map fst (server_parameters reg))
         \<and> registry_get map_quic r' = (registry_get map_quic r)(endpoint_name e \<mapsto> reg))
      \<and> shown map_view r' = (shown map_view r)(endpoint_name e \<mapsto> e)"
    using map_quic_listen by blast
qed (auto simp: map_quic_def map_view_def fun_eq_iff update_conv' split: option.splits)

definition example_endpoint :: "string \<Rightarrow> string \<Rightarrow> unit endpoint" where
  "example_endpoint c st =
     \<lparr>endpoint_name = ''alice.dhttp.net'', cert_chain = [c], signing_key = (), staple = st\<rparr>"

definition example_listening :: "(unit, unit, string, map_registry) listening" where
  "example_listening =
     fold (listen_step map_quic)
       [Listen (example_endpoint ''c1'' ''s1'') () ''first'', Listen (example_endpoint ''c1'' ''s1'') () ''second'',
        Renew (\<lambda>_ _. Inr ()) (example_endpoint ''c1'' ''s1'') (example_endpoint ''c1'' ''s2'')]
       (\<lparr>listeners = (\<lambda>_. None), registry = (\<lambda>_. None)\<rparr>, \<lambda>_. None)"


text \<open>An endpoint of the name that was loaded later, with another chain, replaces the chain of the listener: the
  chain is compared with the endpoint that is renewed, not with the one that listens.\<close>

lemma reload_replaces_chain:
  "let s = listen_step map_quic
       (Renew (\<lambda>_ _. Inr ()) (example_endpoint ''c2'' ''s2'') (example_endpoint ''c2'' ''s3'')) example_listening
   in map_option cert_chain (shown map_view (registry (fst s)) ''alice.dhttp.net'') = Some [''c2'']"
  by code_simp

section \<open>Pooled connections carry the names of their keys\<close>

text \<open>
  \<open>server_of\<close> is the name that TLS checks for a remote, which leaves out a port.  A connection made for an
  endpoint carries its authority and the checked authority of the server.
\<close>

definition connector_contract ::
    "('q, 'k, 'v, 'r) quic_view \<Rightarrow> (string \<Rightarrow> string) \<Rightarrow> ('q, 'c) connector \<Rightarrow> bool" where
  "connector_contract vw server_of cn \<longleftrightarrow>
     (\<forall>q remote l r connection alpn. quic_connect cn q remote = Inr (l, r, connection, alpn) \<longrightarrow>
        map_option authority_name l = map_option endpoint_name (ident vw q) \<and> authority_name r = server_of remote)"

text \<open>A pool hands out a connection it holds for an equal key or the one it was given, and holds no other.\<close>

definition pool_contract ::
    "('c, 'k, 'p) pool_ops \<Rightarrow> ('p \<Rightarrow> ((string option \<times> string option) \<times> 'c transport) set) \<Rightarrow> bool" where
  "pool_contract pl entries \<longleftrightarrow>
     (\<forall>key connected p result p'. pool_get pl key connected p = (result, p') \<longrightarrow>
        entries p' \<subseteq> entries p \<union> {(key_names key, h) |h. connected = Inr h}
        \<and> (\<forall>h. result = Some (Inr h) \<longrightarrow> (key_names key, h) \<in> entries p \<or> connected = Inr h))
     \<and> (\<forall>key h p. entries (pool_insert pl key h p) \<subseteq> insert (key_names key, h) (entries p))
     \<and> (\<forall>key h p. entries (pool_remove pl key h p) \<subseteq> entries p)"

definition names_match :: "(string \<Rightarrow> string) \<Rightarrow> string option \<times> string option \<Rightarrow> 'c transport \<Rightarrow> bool" where
  "names_match server_of names h \<longleftrightarrow>
     map_option authority_name (local_authority h) = fst names
     \<and> map_option authority_name (remote_authority h) = map_option server_of (snd names)"

text \<open>What happens to the pool, with the answers of the peers at the time.\<close>

datatype ('q, 'c, 'k, 'svc, 'r) pool_event =
    Get "('q, 'c) connector" "('svc, 'r) network option" "'k endpoint option" string
  | Accept "('q, 'c) connector" string "'c authority option" "'c authority" nat string
  | Close "'k connection_key" "'c transport"

fun pool_step ::
    "('q, 'k, 's, 'v, 'r) quic_ops \<Rightarrow> ('c, 'k, 'p) pool_ops \<Rightarrow> ('q, 'c, 'k, 'svc, 'r) pool_event \<Rightarrow> 'p \<Rightarrow> 'p" where
  "pool_step ops pl (Get cn net local remote) p = snd (get_connection ops cn pl net local remote p)"
| "pool_step ops pl (Accept cn name remote local connection alpn) p =
     snd (accept_connection cn pl name remote local connection alpn p)"
| "pool_step ops pl (Close key h) p = snd (serve_connection pl key h ([] :: (unit \<times> (string \<Rightarrow> unit option)) list) p)"

text \<open>A connection is accepted for the listener whose name its local authority has; peers have no ports.\<close>

fun pool_event_ok ::
    "('q, 'k, 'v, 'r) quic_view \<Rightarrow> (string \<Rightarrow> string) \<Rightarrow> ('q, 'c, 'k, 'svc, 'r) pool_event \<Rightarrow> bool" where
  "pool_event_ok vw server_of (Get cn _ _ _) = connector_contract vw server_of cn"
| "pool_event_ok vw server_of (Accept _ name remote local _ _) =
     (authority_name local = name
      \<and> (case remote of None \<Rightarrow> True | Some r \<Rightarrow> server_of (authority_name r) = authority_name r))"
| "pool_event_ok vw server_of (Close _ _) = True"

lemma h3_setup_authorities:
  "h3_setup new connection alpn l r role = Inr h \<Longrightarrow> local_authority h = l \<and> remote_authority h = r
     \<and> transport_role h = role \<and> transport_alpn h = ALPN"
  by (auto simp: h3_setup_def quic_transport_def and_then_eq_Inr ALPN_def split: if_splits option.splits)

lemma connect_match:
  assumes "quic_contract ops vw" "connector_contract vw server_of cn" "connect ops cn net key = Inr h"
  shows "names_match server_of (key_names key) h \<and> net \<noteq> None"
proof -
  obtain local remote where key: "key = Outgoing local remote" using assms(3) by (cases key) (simp_all add: connect_def)
  with assms(3) obtain n q l r connection alpn where
    c: "net = Some n" "configure_quic ops (quic_from ops local) = Inr q"
    "quic_connect cn q remote = Inr (l, r, connection, alpn)"
    "h3_setup (h3_new cn) connection alpn l (Some r) ClientRole = Inr h"
    by (auto simp: connect_def and_then_eq_Inr ok_or_def split: option.splits)
  from assms(2) c(3) have "map_option authority_name l = map_option endpoint_name (ident vw q)"
    "authority_name r = server_of remote" unfolding connector_contract_def by blast+
  with configure_quic_view [OF assms(1) c(2)] h3_setup_authorities [OF c(4)] c(1) show ?thesis
    by (simp add: key names_match_def)
qed

lemma accept_match:
  assumes "accept_connection cn pl name remote local connection alpn p = (r, p')"
    and "authority_name local = name" "case remote of None \<Rightarrow> True | Some r \<Rightarrow> server_of (authority_name r) = authority_name r"
  shows "case r of None \<Rightarrow> p' = p
    | Some (key, h) \<Rightarrow> p' = pool_insert pl key h p \<and> names_match server_of (key_names key) h"
  using assms h3_setup_authorities [of "h3_new cn" connection alpn "Some local" remote ServerRole]
  by (auto simp: accept_connection_def Let_def names_match_def split: sum.splits option.splits)

definition entries_match where
  "entries_match server_of entries p \<longleftrightarrow> (\<forall>(names, h) \<in> entries p. names_match server_of names h)"

lemma get_connection_match:
  assumes q: "quic_contract ops vw" and pl: "pool_contract pl entries" and cn: "connector_contract vw server_of cn"
    and ok: "entries_match server_of entries p"
    and g: "get_connection ops cn pl net local remote p = (result, p')"
  shows "entries_match server_of entries p'
    \<and> (\<forall>h. result = Inr h \<longrightarrow> names_match server_of (map_option endpoint_name local, Some remote) h)"
proof -
  let ?key = "Outgoing local remote :: 'b connection_key"
  obtain res where res: "pool_get pl ?key (connect ops cn net ?key) p = (res, p')"
    and result: "result = (case res of None \<Rightarrow> Inl (other_error (Opaque ''deadline has elapsed'')) | Some r \<Rightarrow> r)"
    using g by (auto simp: get_connection_def Let_def split: prod.splits option.splits)
  have held: "entries p' \<subseteq> entries p \<union> {(key_names ?key, h) |h. connect ops cn net ?key = Inr h}"
    and given: "res = Some (Inr h) \<Longrightarrow> (key_names ?key, h) \<in> entries p \<or> connect ops cn net ?key = Inr h" for h
    using pl res unfolding pool_contract_def by blast+
  have made: "connect ops cn net ?key = Inr h \<Longrightarrow> names_match server_of (key_names ?key) h" for h
    using connect_match [OF q cn] by blast
  have "entries_match server_of entries p'" using ok held made by (auto simp: entries_match_def)
  moreover have "res = Some (Inr h) \<Longrightarrow> names_match server_of (key_names ?key) h" for h
    using given [of h] made [of h] ok by (auto simp: entries_match_def)
  ultimately show ?thesis using result by (auto split: option.splits)
qed

lemma pool_step_match:
  assumes q: "quic_contract ops vw" and pl: "pool_contract pl entries"
    and ev: "pool_event_ok vw server_of ev" and ok: "entries_match server_of entries p"
  shows "entries_match server_of entries (pool_step ops pl ev p)"
proof (cases ev)
  case (Get cn net local remote)
  then show ?thesis
    using get_connection_match [OF q pl _ ok, of cn net local remote "fst (get_connection ops cn pl net local remote p)"]
      ev by simp
next
  case (Accept cn name remote local connection alpn)
  obtain r p' where r: "accept_connection cn pl name remote local connection alpn p = (r, p')" by force
  have "case r of None \<Rightarrow> p' = p
    | Some (key, h) \<Rightarrow> p' = pool_insert pl key h p \<and> names_match server_of (key_names key) h"
    using accept_match [OF r] ev Accept by simp
  moreover have "entries (pool_insert pl key h p) \<subseteq> insert (key_names key, h) (entries p)" for key h
    using pl unfolding pool_contract_def by blast
  ultimately show ?thesis
    using ok Accept r by (fastforce simp: entries_match_def split: option.splits)
next
  case (Close key h)
  have "entries (pool_remove pl key h p) \<subseteq> entries p" using pl unfolding pool_contract_def by blast
  then show ?thesis using ok Close by (auto simp: entries_match_def serve_connection_def)
qed

lemma pool_run_match:
  assumes "quic_contract ops vw" "pool_contract pl entries"
  shows "list_all (pool_event_ok vw server_of) evs \<Longrightarrow> entries_match server_of entries p
    \<Longrightarrow> entries_match server_of entries (fold (pool_step ops pl) evs p)"
  by (induction evs arbitrary: p) (simp_all add: pool_step_match [OF assms])

lemma serve_stream_own:
  assumes "fst (key_names key) = map_option authority_name (local_authority h)"
  shows "case serve_stream key h (stream, services) of
      Handled st service hs \<Rightarrow> st = stream
        \<and> (\<exists>name. fst hs = Some name \<and> map_option authority_name (local_authority h) = Some name
             \<and> services name = Some service)
    | Rejected st c \<Rightarrow> st = stream \<and> c = REQUEST_REJECTED
        \<and> Option.bind (map_option authority_name (local_authority h)) services = None"
proof (cases "local_authority h")
  case None
  then show ?thesis using assms by (simp add: serve_stream_def)
next
  case (Some a)
  then show ?thesis using assms by (cases "services (authority_name a)") (simp_all add: serve_stream_def)
qed

text \<open>
  C4: Connections carry the names they are asked for.  Whatever was requested, accepted and closed before, a
  connection for a local endpoint and a remote has the authority of that endpoint, or none for anonymous
  requests, and a server authenticated for the remote, whether it was made for this request or came from the
  pool, where also connections that the remote initiated are found.  Every stream that the peer opens on a
  connection of the pool is handed to the listener of the connection's own local authority, with the names of
  the handshake, or rejected; on an anonymous connection every stream is rejected.
\<close>

theorem connections_match_names:
  assumes "quic_contract ops vw" "pool_contract pl entries" "connector_contract vw server_of cn"
    and "entries p0 = {}" "list_all (pool_event_ok vw server_of) evs"
    and "p = fold (pool_step ops pl) evs p0"
    and "get_connection ops cn pl net local remote p = (result, p')"
  shows "(\<forall>h. result = Inr h \<longrightarrow>
        map_option authority_name (local_authority h) = map_option endpoint_name local
        \<and> map_option authority_name (remote_authority h) = Some (server_of remote))
    \<and> (\<forall>key h stream services. (key_names key, h) \<in> entries p' \<longrightarrow>
        (case serve_stream key h (stream, services) of
           Handled st service hs \<Rightarrow> st = stream
             \<and> (\<exists>name. fst hs = Some name \<and> map_option authority_name (local_authority h) = Some name
                  \<and> services name = Some service)
         | Rejected st c \<Rightarrow> st = stream \<and> c = REQUEST_REJECTED
             \<and> Option.bind (map_option authority_name (local_authority h)) services = None))"
proof -
  have "entries_match server_of entries p0" using assms(4) by (simp add: entries_match_def)
  from pool_run_match [OF assms(1,2,5) this] have "entries_match server_of entries p" by (simp add: assms(6))
  from get_connection_match [OF assms(1-3) this assms(7)]
  have ok: "entries_match server_of entries p'"
    and names: "\<forall>h. result = Inr h \<longrightarrow> names_match server_of (map_option endpoint_name local, Some remote) h" by auto
  have "fst (key_names key) = map_option authority_name (local_authority h)" if "(key_names key, h) \<in> entries p'" for key h
    using ok that by (auto simp: entries_match_def names_match_def)
  then have own: "(key_names key, h) \<in> entries p' \<Longrightarrow> fst (key_names key) = map_option authority_name (local_authority h)"
    for key h .
  show ?thesis
    using names by (intro conjI allI impI serve_stream_own own) (auto simp: names_match_def)
qed

definition map_pool :: "('c, 'k, ((string option \<times> string option) \<times> 'c transport) list) pool_ops" where
  "map_pool =
     \<lparr>pool_get = (\<lambda>key connected p.
        case map_of p (key_names key) of
          Some h \<Rightarrow> (Some (Inr h), p)
        | None \<Rightarrow> (case connected of Inr h \<Rightarrow> (Some (Inr h), (key_names key, h) # p) | Inl e \<Rightarrow> (Some (Inl e), p))),
      pool_insert = (\<lambda>key h p. (key_names key, h) # p),
      pool_remove = (\<lambda>key h p. filter (\<lambda>x. x \<noteq> (key_names key, h)) p)\<rparr>"

lemma map_pool_contract: "pool_contract map_pool set"
  by (auto simp: pool_contract_def map_pool_def dest: map_of_SomeD split: option.splits sum.splits)

definition unreachable :: "(map_endpoint, unit) connector" where
  "unreachable = \<lparr>quic_connect = (\<lambda>_ _. Inl ''unreachable''), h3_new = (\<lambda>_. None)\<rparr>"

definition bob_connects :: "(map_endpoint, unit, unit, string, map_registry) pool_event" where
  "bob_connects =
     Accept unreachable ''alice.dhttp.net'' (Some \<lparr>authority_name = ''bob.dhttp.net'', authority_chain = []\<rparr>)
       \<lparr>authority_name = ''alice.dhttp.net'', authority_chain = []\<rparr> 1 ''h3''"

text \<open>A connection that bob made to alice is found when alice asks for bob.\<close>

theorem connections_match_names_witness:
  "(let p = fold (pool_step map_quic map_pool) [bob_connects] [];
      result = fst (get_connection map_quic unreachable map_pool (Some (fst example_listening))
        (Some (example_endpoint ''c1'' ''s1'')) ''bob.dhttp.net'' p)
    in \<exists>h. result = Inr h \<and> transport_id h = 1
         \<and> map_option authority_name (local_authority h) = Some ''alice.dhttp.net''
         \<and> map_option authority_name (remote_authority h) = Some ''bob.dhttp.net'')"
proof -
  let ?bob = "\<lparr>authority_name = ''bob.dhttp.net'', authority_chain = []\<rparr> :: unit authority"
  let ?alice = "\<lparr>authority_name = ''alice.dhttp.net'', authority_chain = []\<rparr> :: unit authority"
  let ?evs = "[bob_connects]"
  let ?p = "fold (pool_step map_quic map_pool) ?evs []"
  let ?h = "\<lparr>transport_id = 1, transport_alpn = ''h3'', local_authority = Some ?alice,
    remote_authority = Some ?bob, transport_role = ServerRole\<rparr>"
  have cn: "connector_contract map_view (takeWhile (\<lambda>c. c \<noteq> CHR '':'')) unreachable"
    by (simp add: connector_contract_def unreachable_def)
  have evs: "list_all (pool_event_ok map_view (takeWhile (\<lambda>c. c \<noteq> CHR '':''))) ?evs" by (simp add: bob_connects_def)
  have p: "?p = [((Some ''alice.dhttp.net'', Some ''bob.dhttp.net''), ?h)]"
    by (simp add: bob_connects_def accept_connection_def h3_setup_def quic_transport_def map_pool_def unreachable_def and_then_def)
  then have "get_connection map_quic unreachable map_pool (Some (fst example_listening))
      (Some (example_endpoint ''c1'' ''s1'')) ''bob.dhttp.net'' ?p = (Inr ?h, ?p)"
    by (simp add: get_connection_def map_pool_def example_endpoint_def Let_def)
  with connections_match_names [OF map_quic_contract map_pool_contract cn _ evs refl this]
  show ?thesis by (simp add: Let_def example_endpoint_def)
qed

end
