(* ===== verification/Clients.thy ===== *)
theory Clients
  imports Receives Network
begin

text \<open>
  The client of the SDK: the crate \<open>dhttp-api\<close>, file \<open>api/src/client.rs\<close>.  A handle is its endpoint, its
  scope and its profile; its control mutex makes \<open>reload\<close>, \<open>close\<close> and \<open>listen\<close> one step each.  A request
  is a task that pumps the upload and reads the response, and a future for the response headers.
\<close>

section \<open>The handle\<close>

record 'k client =
  client_endpoint :: "'k endpoint option"
  client_scope :: scope
  client_profile :: "path option"

definition client_new :: "'k endpoint option \<Rightarrow> path option \<Rightarrow> 'k client" where
  "client_new e dir = \<lparr>client_endpoint = e, client_scope = scope_new, client_profile = dir\<rparr>"

definition client_anonymous :: "'k client" where
  "client_anonymous = client_new None None"

definition client_from_endpoint :: "'k endpoint \<Rightarrow> 'k client" where
  "client_from_endpoint e = client_new (Some e) None"

definition client_load ::
    "error_texts \<Rightarrow> (path \<Rightarrow> string) \<Rightarrow> 'k load_world \<Rightarrow> string \<Rightarrow> (sdk_error + 'k client) option" where
  "client_load t display w name =
     map_option (\<lambda>r. and_then (map_err (\<lambda>e. sdk_from_core display (endpoint_core_error t e)) r)
        (\<lambda>e. Inr (client_new (Some e) None))) (endpoint_load w name)"

text \<open>\<open>absolute\<close> is \<open>std::path::absolute\<close>.\<close>

definition client_load_from ::
    "error_texts \<Rightarrow> (path \<Rightarrow> string) \<Rightarrow> (path \<Rightarrow> io_source + path) \<Rightarrow> 'k load_world \<Rightarrow> path
      \<Rightarrow> (sdk_error + 'k client) option" where
  "client_load_from t display absolute w path =
     (case absolute path of
        Inl e \<Rightarrow> Some (Inl (sdk_from_io display e))
      | Inr path \<Rightarrow>
          map_option (\<lambda>r. and_then (map_err (\<lambda>e. sdk_from_core display (endpoint_core_error t e)) r)
             (\<lambda>e. Inr (client_new (Some e) (Some path)))) (load_from w path))"

definition client_name :: "'k client \<Rightarrow> string option" where
  "client_name c = map_option endpoint_name (client_endpoint c)"

text \<open>\<open>build\<close> is \<open>qtls::LocalAuthority::from_signing_key\<close>.\<close>

definition endpoint_authority :: "('k endpoint \<Rightarrow> any_error + 'a) \<Rightarrow> 'k endpoint \<Rightarrow> core_error + 'a" where
  "endpoint_authority build e = map_err other_error (build e)"

definition client_local_authority ::
    "(path \<Rightarrow> string) \<Rightarrow> ('k endpoint \<Rightarrow> any_error + 'a) \<Rightarrow> 'k client \<Rightarrow> sdk_error + 'a option" where
  "client_local_authority display build c =
     and_then (ensure_open (client_scope c)) (\<lambda>_.
     case client_endpoint c of
       None \<Rightarrow> Inr None
     | Some e \<Rightarrow> and_then (map_err (sdk_from_core display) (endpoint_authority build e)) (\<lambda>a. Inr (Some a)))"

definition client_reload where
  "client_reload display t w ops valid c net =
     (case ensure_open (client_scope c) of
        Inl e \<Rightarrow> Some (Inl e, c, net)
      | Inr _ \<Rightarrow>
          (case client_endpoint c of
             None \<Rightarrow> Some (Inl (sdk_new CodeIdentity ''anonymous client has no credentials''), c, net)
           | Some current \<Rightarrow>
               map_option
                 (\<lambda>(r, net). case r of
                    Inl e \<Rightarrow> (Inl (sdk_from_core display e), c, net)
                  | Inr replacement \<Rightarrow> (Inr (), c\<lparr>client_endpoint := Some replacement\<rparr>, net))
                 (case client_profile c of
                    Some path \<Rightarrow> reload_from t w ops valid current path net
                  | None \<Rightarrow> reload t w ops valid current net)))"

text \<open>The wait for the tasks that follows is in the theory of the lifecycle.\<close>

definition client_close :: "'k client \<Rightarrow> 'k client" where
  "client_close c = c\<lparr>client_scope := scope_cancel (client_scope c)\<rparr>"

section \<open>Sending the body\<close>

text \<open>
  \<open>write_all\<close> polls the writer until every byte was taken.  \<open>answers\<close> are the next answers of the window; a
  pump that runs out of them is still waiting, \<open>None\<close>.  The bytes taken are collected.
\<close>

datatype pump_error = WriteZero | WriterFailed writer_error

fun writer_write_all ::
    "string \<Rightarrow> (writer_error + nat) list \<Rightarrow> request_writer
      \<Rightarrow> ((pump_error + unit) \<times> string \<times> (writer_error + nat) list \<times> request_writer) option" where
  "writer_write_all [] answers w = Some (Inr (), [], answers, w)"
| "writer_write_all bytes [] w = None"
| "writer_write_all bytes (answer # answers) w =
     (case writer_poll_write bytes (Some answer) w of
        (None, w) \<Rightarrow> None
      | (Some (Inl e), w) \<Rightarrow> Some (Inl (WriterFailed e), [], answers, w)
      | (Some (Inr n), w) \<Rightarrow>
          if n = 0 then Some (Inl WriteZero, [], answers, w)
          else map_option (\<lambda>(r, sent, rest). (r, take n bytes @ sent, rest))
                 (writer_write_all (drop n bytes) answers w))"

fun writer_append_all :: "header_map \<Rightarrow> request_writer \<Rightarrow> (writer_error + unit) \<times> request_writer" where
  "writer_append_all [] w = (Inr (), w)"
| "writer_append_all ((n, v) # hs) w =
     (case writer_append_trailer n v w of
        (Inl e, w) \<Rightarrow> (Inl e, w)
      | (Inr _, w) \<Rightarrow> writer_append_all hs w)"

text \<open>The end of the body: what the window answers to the shutdown and how the task of the request ended.\<close>

definition pump_shutdown ::
    "((writer_error + unit) \<times> (io_error + unit)) option \<Rightarrow> request_writer
      \<Rightarrow> ((writer_error + unit) \<times> request_writer) option" where
  "pump_shutdown ending w =
     (case ending of
        None \<Rightarrow> None
      | Some (answer, task) \<Rightarrow>
          (case writer_poll_shutdown (Some answer) (writer_act (TaskDone task) w) of
             (None, w) \<Rightarrow> None
           | (Some r, w) \<Rightarrow> Some (r, w)))"

text \<open>\<open>io\<close> is the \<open>io::Error\<close> of a failed call.\<close>

fun pump ::
    "(path \<Rightarrow> string) \<Rightarrow> (pump_error \<Rightarrow> io_source) \<Rightarrow> ((writer_error + unit) \<times> (io_error + unit)) option
      \<Rightarrow> native_frame list \<Rightarrow> (writer_error + nat) list \<Rightarrow> request_writer
      \<Rightarrow> ((sdk_error + unit) \<times> string \<times> request_writer) option" where
  "pump display io ending [] answers w =
     map_option (\<lambda>(r, w). (map_err (\<lambda>e. sdk_from_io display (io (WriterFailed e))) r, [], w)) (pump_shutdown ending w)"
| "pump display io ending (ErrorFrame cause # fs) answers w = Some (Inl (sdk_from_box display cause), [], w)"
| "pump display io ending (OtherFrame # fs) answers w = pump display io ending fs answers w"
| "pump display io ending (DataFrame bytes # fs) answers w =
     (case writer_write_all bytes answers w of
        None \<Rightarrow> None
      | Some (Inl e, sent, answers, w) \<Rightarrow> Some (Inl (sdk_from_io display (io e)), sent, w)
      | Some (Inr _, sent, answers, w) \<Rightarrow>
          map_option (\<lambda>(r, unsent, w). (r, sent @ unsent, w)) (pump display io ending fs answers w))"
| "pump display io ending (TrailerFrame hs # fs) answers w =
     (case writer_append_all hs w of
        (Inl e, w) \<Rightarrow> Some (Inl (sdk_from_io display (io (WriterFailed e))), [], w)
      | (Inr _, w) \<Rightarrow> pump display io ending fs answers w)"

text \<open>The request as it is sent; a request without an upload is pumped like an empty one.\<close>

definition exchange_request :: "'k endpoint option \<Rightarrow> owner_hash option \<Rightarrow> 'k request \<Rightarrow> 'k request" where
  "exchange_request e expected message =
     with_body (Window (64 * 1024) [])
       ((case expected of Some owner_hash \<Rightarrow> expect_remote_owner_hash owner_hash | None \<Rightarrow> (\<lambda>r. r))
          (with_body EmptyBody (message\<lparr>endpoint_of := e\<rparr>)))"

text \<open>The part up to the streams: the network is initialised, then the request connects.\<close>

definition exchange_connect where
  "exchange_connect display init h parse net e expected message =
     and_then (map_err (sdk_from_core display) init) (\<lambda>_.
       map_err (sdk_from_core display) (connect_request h parse net (exchange_request e expected message)))"

text \<open>\<open>try_join!\<close>: the first error of the two, or both done.\<close>

definition exchange_poll :: "(sdk_error + unit) option \<Rightarrow> (sdk_error + unit) option \<Rightarrow> (sdk_error + unit) option" where
  "exchange_poll pumping receiving =
     (case (pumping, receiving) of
        (Some (Inl e), _) \<Rightarrow> Some (Inl e)
      | (_, Some (Inl e)) \<Rightarrow> Some (Inl e)
      | (Some _, Some _) \<Rightarrow> Some (Inr ())
      | _ \<Rightarrow> None)"

definition with_deadline :: "bool \<Rightarrow> (sdk_error + unit) option \<Rightarrow> (sdk_error + unit) option" where
  "with_deadline elapsed joined =
     (case joined of
        Some r \<Rightarrow> Some r
      | None \<Rightarrow> if elapsed then Some (Inl (sdk_new CodeDeadlineExceeded ''request deadline exceeded'')) else None)"

section \<open>The request and its response\<close>

record 'r request_task =
  task_op :: operation_state
  task_owner :: bool
  task_done :: bool
  headers_sender :: bool
  response_channel :: "(sdk_error + 'r) option"
  future_alive :: bool
  transferred :: bool

definition client_request :: "'k client \<Rightarrow> (sdk_error + 'r request_task) \<times> 'k client" where
  "client_request c =
     (case register (client_scope c) of
        (Inl e, s) \<Rightarrow> (Inl e, c\<lparr>client_scope := s\<rparr>)
      | (Inr p, s) \<Rightarrow>
          (Inr \<lparr>task_op = p, task_owner = False, task_done = False, headers_sender = True,
                response_channel = None, future_alive = True, transferred = False\<rparr>,
           c\<lparr>client_scope := s\<rparr>))"

definition fail_task :: "sdk_error \<Rightarrow> 'r request_task \<Rightarrow> 'r request_task" where
  "fail_task e t = t\<lparr>task_op := operation_fail e (task_op t)\<rparr>"

text \<open>The receiving side has the headers; \<open>None\<close> is the panic of a second send.\<close>

definition send_headers :: "'r \<Rightarrow> 'r request_task \<Rightarrow> ((sdk_error + unit) \<times> 'r request_task) option" where
  "send_headers response t =
     (if \<not> headers_sender t then None
      else if future_alive t
      then Some (Inr (), t\<lparr>headers_sender := False, response_channel := Some (Inr response)\<rparr>)
      else Some (Inl sdk_cancelled, t\<lparr>headers_sender := False\<rparr>))"

definition task_end :: "sdk_error + unit \<Rightarrow> 'r request_task \<Rightarrow> 'r request_task" where
  "task_end result t =
     (case result of
        Inr _ \<Rightarrow> t
      | Inl e \<Rightarrow>
          (let t = fail_task e t
           in if headers_sender t \<and> future_alive t then t\<lparr>response_channel := Some (Inl e)\<rparr> else t))
     \<lparr>headers_sender := False, task_done := True\<rparr>"

text \<open>A poll of the task: the cancellation, the exchange, its deadline.\<close>

definition task_poll :: "bool \<Rightarrow> (sdk_error + unit) option \<Rightarrow> 'r request_task \<Rightarrow> 'r request_task" where
  "task_poll elapsed joined t =
     (case run_poll (task_owner t) (task_op t) (with_deadline elapsed joined) of
        None \<Rightarrow> t
      | Some result \<Rightarrow> task_end result t)"

definition future_poll :: "'r request_task \<Rightarrow> (sdk_error + 'r) option \<times> 'r request_task" where
  "future_poll t =
     (case response_channel t of
        Some r \<Rightarrow> (Some r, t\<lparr>transferred := True\<rparr>)
      | None \<Rightarrow>
          if headers_sender t then (None, t)
          else (Some (Inl (operation_error (task_owner t) (task_op t))), t\<lparr>transferred := True\<rparr>))"

definition future_drop :: "'r request_task \<Rightarrow> 'r request_task" where
  "future_drop t = (if transferred t then t else fail_task sdk_cancelled t)\<lparr>future_alive := False\<rparr>"

definition cancel_request :: "'r request_task \<Rightarrow> 'r request_task" where
  "cancel_request = fail_task sdk_cancelled"

section \<open>Facts\<close>

text \<open>Whether a writer can still publish the end of a request: the upload runs and nothing ended the window.\<close>

definition open_writer :: "request_writer \<Rightarrow> bool" where
  "open_writer w \<longleftrightarrow> upload_task w = Some None \<and> WindowShutdown \<notin> set (window w) \<and> \<not> writer_closed w"

lemma write_all_result:
  "writer_write_all bytes answers w = Some (r, sent, rest, w') \<Longrightarrow>
     (\<exists>unsent. bytes = sent @ unsent) \<and> (r = Inr () \<longrightarrow> sent = bytes)
     \<and> writer_trailers w' = writer_trailers w \<and> (open_writer w \<longrightarrow> open_writer w')"
proof (induction bytes answers w arbitrary: r sent rest w' rule: writer_write_all.induct)
  case (3 b bs answer answers w)
  let ?w = "w\<lparr>window := window w @ [WindowWrite (b # bs)]\<rparr>"
  show ?case
  proof (cases "writer_closed w")
    case True
    then show ?thesis using 3(2) by (auto simp: writer_poll_write_def)
  next
    case open_: False
    then have poll: "writer_poll_write (b # bs) (Some answer) w = (Some answer, ?w)"
      by (simp add: writer_poll_write_def)
    have w: "open_writer w \<longrightarrow> open_writer ?w" "writer_trailers ?w = writer_trailers w"
      by (auto simp: open_writer_def)
    show ?thesis
    proof (cases answer)
      case (Inl e)
      then show ?thesis using 3(2) poll w by auto
    next
      case (Inr n)
      show ?thesis
      proof (cases "n = 0")
        case True
        then show ?thesis using 3(2) poll w Inr by auto
      next
        case False
        then obtain sent' where rec: "writer_write_all (drop n (b # bs)) answers ?w = Some (r, sent', rest, w')"
          and sent: "sent = take n (b # bs) @ sent'" using 3(2) poll Inr by auto
        from 3(1) [OF poll [symmetric] refl Inr False rec]
        have IH: "(\<exists>unsent. drop n (b # bs) = sent' @ unsent) \<and> (r = Inr () \<longrightarrow> sent' = drop n (b # bs))
            \<and> writer_trailers w' = writer_trailers ?w \<and> (open_writer ?w \<longrightarrow> open_writer w')" .
        then obtain unsent where "drop n (b # bs) = sent' @ unsent" by blast
        then have "b # bs = sent @ unsent" unfolding sent by (metis append_assoc append_take_drop_id)
        moreover have "r = Inr () \<longrightarrow> sent = b # bs" using IH unfolding sent by (metis append_take_drop_id)
        ultimately show ?thesis using IH w by auto
      qed
    qed
  qed
qed auto

lemma append_all_result:
  "writer_append_all hs w = (r, w') \<Longrightarrow>
     (r = Inr () \<longrightarrow> writer_trailers w' = writer_trailers w @ hs) \<and> (open_writer w \<longrightarrow> open_writer w')"
proof (induction hs w rule: writer_append_all.induct)
  case (2 n v hs w)
  show ?case
  proof (cases "writer_ensure_open w")
    case (Inl e)
    then show ?thesis using 2(2) by (auto simp: writer_append_trailer_def)
  next
    case (Inr u)
    let ?w = "w\<lparr>writer_trailers := fields_append n v (writer_trailers w)\<rparr>"
    have app: "writer_append_trailer n v w = (Inr (), ?w)" using Inr by (simp add: writer_append_trailer_def)
    from 2(1) [OF app [symmetric] refl] 2(2) app
    have "(r = Inr () \<longrightarrow> writer_trailers w' = writer_trailers ?w @ hs) \<and> (open_writer ?w \<longrightarrow> open_writer w')" by simp
    then show ?thesis by (simp add: fields_append_def open_writer_def)
  qed
qed auto

lemma pump_shutdown_result:
  assumes "pump_shutdown ending w = Some (r, w')" "open_writer w"
  shows "writer_trailers w' = writer_trailers w \<and> writer_closed w' \<and> WindowShutdown \<in> set (window w')"
  using assms by (auto simp: pump_shutdown_def writer_poll_shutdown_def open_writer_def Let_def
      split: option.splits sum.splits prod.splits)

text \<open>What a pump that returned has done.\<close>

definition pumped :: "native_frame list \<Rightarrow> request_writer \<Rightarrow> sdk_error + unit \<Rightarrow> string \<Rightarrow> request_writer \<Rightarrow> bool" where
  "pumped frames w r sent w' \<longleftrightarrow>
     (\<exists>unsent. concat (data_of frames) = sent @ unsent)
     \<and> (WindowShutdown \<in> set (window w') \<longrightarrow>
          (\<forall>e. ErrorFrame e \<notin> set frames) \<and> sent = concat (data_of frames)
          \<and> writer_trailers w' = writer_trailers w @ fields_of frames \<and> writer_closed w')
     \<and> (r = Inr () \<longrightarrow> WindowShutdown \<in> set (window w'))
     \<and> (WindowShutdown \<notin> set (window w') \<longrightarrow> open_writer w')"

lemma pumped_open: "open_writer w' \<Longrightarrow> r \<noteq> Inr () \<Longrightarrow> concat (data_of frames) = sent @ unsent \<Longrightarrow> pumped frames w r sent w'"
  by (auto simp: pumped_def open_writer_def)

lemma frames_simps:
  "data_of [] = []" "fields_of [] = []"
  "data_of (DataFrame b # fs) = b # data_of fs" "fields_of (DataFrame b # fs) = fields_of fs"
  "data_of (TrailerFrame hs # fs) = data_of fs" "fields_of (TrailerFrame hs # fs) = hs @ fields_of fs"
  "data_of (OtherFrame # fs) = data_of fs" "fields_of (OtherFrame # fs) = fields_of fs"
  by (simp_all add: data_of_def fields_of_def)

lemma pump_result:
  "pump display io ending frames answers w = Some (r, sent, w') \<Longrightarrow> open_writer w \<Longrightarrow> pumped frames w r sent w'"
proof (induction display io ending frames answers w arbitrary: r sent w' rule: pump.induct)
  case (1 display io ending answers w)
  then obtain r0 where "pump_shutdown ending w = Some (r0, w')" "sent = []" by auto
  with pump_shutdown_result 1(2) show ?case by (auto simp: pumped_def frames_simps)
next
  case (2 display io ending cause fs answers w)
  then show ?case by (auto intro: pumped_open)
next
  case (3 display io ending fs answers w)
  then show ?case by (simp add: pumped_def frames_simps)
next
  case (4 display io ending bytes fs answers w)
  obtain res part rest w1 where wr: "writer_write_all bytes answers w = Some (res, part, rest, w1)"
    using 4(2) by (auto split: option.splits)
  from write_all_result [OF wr] obtain unsent where part: "bytes = part @ unsent" and full: "res = Inr () \<longrightarrow> part = bytes"
    and tr: "writer_trailers w1 = writer_trailers w" and op: "open_writer w1" using 4(3) by blast
  show ?case
  proof (cases res)
    case (Inl e)
    then have "r = Inl (sdk_from_io display (io e))" "sent = part" "w' = w1" using 4(2) wr by auto
    then show ?thesis using part op by (intro pumped_open [where unsent = "unsent @ concat (data_of fs)"]) (simp_all add: frames_simps)
  next
    case (Inr u)
    then obtain others' where rec: "pump display io ending fs rest w1 = Some (r, others', w')" and sent: "sent = part @ others'"
      using 4(2) wr by auto
    from 4(1) [OF wr refl Inr refl refl rec op] full Inr tr sent show ?thesis
      by (simp add: pumped_def frames_simps) 
  qed
next
  case (5 display io ending hs fs answers w)
  obtain res w1 where ap: "writer_append_all hs w = (res, w1)" by force
  from append_all_result [OF ap] 5(3) have tr: "res = Inr () \<longrightarrow> writer_trailers w1 = writer_trailers w @ hs"
    and op: "open_writer w1" by auto
  show ?case
  proof (cases res)
    case (Inl e)
    then show ?thesis using 5(2) ap op by (auto intro: pumped_open)
  next
    case (Inr u)
    then have rec: "pump display io ending fs answers w1 = Some (r, sent, w')" using 5(2) ap by simp
    from 5(1) [OF ap [symmetric] Inr rec op] tr Inr show ?thesis by (simp add: pumped_def frames_simps)
  qed
qed

section \<open>From the producer to the window\<close>

text \<open>The frames that a run of the upload bridge gave to the pump.\<close>

fun upload_frame_of :: "upload_event \<Rightarrow> native_frame list" where
  "upload_frame_of (Yielded bytes) = [DataFrame bytes]"
| "upload_frame_of (Ended t) = (if t = [] then [] else [TrailerFrame t])"
| "upload_frame_of (Broken e) = [ErrorFrame (AnySdk e)]"
| "upload_frame_of _ = []"

definition upload_frames :: "upload_event list \<Rightarrow> native_frame list" where
  "upload_frames es = concat (map upload_frame_of es)"

fun stops_body :: "upload_event \<Rightarrow> bool" where
  "stops_body (Ended _) = True"
| "stops_body (Broken _) = True"
| "stops_body _ = False"

lemma upload_act_stop:
  assumes "upload_act a u = Some (e, v)"
  shows "(ended u \<longrightarrow> ended v \<and> \<not> stops_body e) \<and> (stops_body e \<longrightarrow> ended v)"
  using assms
  by (cases a) (auto simp: upload_defs split: if_splits option.splits writer_call.splits list.splits
      upload_frame.splits prod.splits)

lemma body_stops_once:
  "upload_run es u \<Longrightarrow> (filter stops_body es \<noteq> [] \<longrightarrow> ended u) \<and> length (filter stops_body es) \<le> 1"
proof (induction rule: upload_run.induct)
  case (run_act es u a e v)
  then show ?case using upload_act_stop [OF run_act(2)] by (cases "stops_body e") auto
qed simp

lemma upload_frames_data: "concat (data_of (upload_frames es)) = yielded es"
proof (induction es)
  case (Cons e es)
  then show ?case by (cases e) (simp_all add: upload_frames_def data_of_def yielded_def)
qed (simp add: upload_frames_def data_of_def)

lemma upload_frames_error: "ErrorFrame x \<in> set (upload_frames es) \<Longrightarrow> \<exists>e \<in> set es. stops_body e \<and> (\<nexists>t. e = Ended t)"
proof (induction es)
  case (Cons e es)
  then show ?case by (cases e) (auto simp: upload_frames_def split: if_splits)
qed (simp add: upload_frames_def)

lemma upload_frames_broken: "Broken e \<in> set es \<Longrightarrow> ErrorFrame (AnySdk e) \<in> set (upload_frames es)"
  by (force simp: upload_frames_def)

lemma upload_frames_fields:
  assumes "filter stops_body es = [Ended t]"
  shows "fields_of (upload_frames es) = t"
proof -
  have "fields_of (upload_frames es) = concat (map (\<lambda>e. case e of Ended t \<Rightarrow> t | _ \<Rightarrow> []) (filter stops_body es))"
  proof (induction es)
    case (Cons e es)
    then show ?case by (cases e) (simp_all add: upload_frames_def fields_of_def)
  qed (simp add: upload_frames_def fields_of_def)
  then show ?thesis using assms by simp
qed

lemma only_member: "length (filter P es) \<le> 1 \<Longrightarrow> x \<in> set es \<Longrightarrow> P x \<Longrightarrow> filter P es = [x]"
  by (induction es) (auto simp: filter_empty_conv split: if_splits)



section \<open>Every request is answered\<close>

text \<open>
  What happens to a request: its task gets the headers or is polled, its future is polled or dropped, a
  cancellation is called, the body reader fails the shared operation, the handle is closed.  The exchange is
  done without an error only after the headers were sent.
\<close>

inductive task_step :: "'r request_task \<Rightarrow> 'r request_task \<Rightarrow> bool" where
  headers_came: "\<not> task_done t \<Longrightarrow> \<not> is_cancelled (task_owner t) (task_op t) \<Longrightarrow> send_headers response t = Some (res, t')
    \<Longrightarrow> task_step t t'"
| task_polled: "\<not> task_done t \<Longrightarrow> joined = Some (Inr ()) \<longrightarrow> \<not> headers_sender t \<Longrightarrow> task_step t (task_poll elapsed joined t)"
| future_polled: "future_alive t \<Longrightarrow> \<not> transferred t \<Longrightarrow> task_step t (snd (future_poll t))"
| future_dropped: "future_alive t \<Longrightarrow> task_step t (future_drop t)"
| request_cancelled: "task_step t (cancel_request t)"
| body_failed: "task_step t (fail_task e t)"
| owner_closed: "task_step t (t\<lparr>task_owner := True\<rparr>)"

inductive_cases task_stepE: "task_step t t'"

fun channel_ok_for :: "operation_state \<Rightarrow> bool \<Rightarrow> bool \<Rightarrow> (sdk_error + 'r) option \<Rightarrow> bool" where
  "channel_ok_for p running waiting (Some (Inl e)) = (first_error p = Some e \<and> \<not> running)"
| "channel_ok_for p running waiting (Some (Inr _)) = True"
| "channel_ok_for p running waiting None = (running \<or> \<not> waiting)"

definition task_ok :: "'r request_task \<Rightarrow> bool" where
  "task_ok t \<longleftrightarrow>
     owner_cancel (task_op t)
     \<and> channel_ok_for (task_op t) (headers_sender t) (future_alive t) (response_channel t)
     \<and> (\<not> task_done t \<or> \<not> headers_sender t)
     \<and> (future_alive t \<or> transferred t \<or> own_cancel (task_op t))
     \<and> (first_error (task_op t) = None \<or> own_cancel (task_op t))"

lemma channel_ok_fail: "channel_ok_for p a b ch \<Longrightarrow> channel_ok_for (operation_fail e p) a b ch"
  by (cases "(p, a, b, ch)" rule: channel_ok_for.cases) (auto simp: operation_fail_def)

lemma fail_task_ok: "task_ok t \<Longrightarrow> task_ok (fail_task e t)"
  by (auto simp: task_ok_def fail_task_def operation_simps intro: channel_ok_fail)

lemma channel_ok_wait: "channel_ok_for p a b ch \<Longrightarrow> \<not> b' \<Longrightarrow> channel_ok_for p a b' ch"
  by (cases "(p, a, b, ch)" rule: channel_ok_for.cases) auto

lemma task_end_ok:
  assumes "task_ok t" "\<not> task_done t" "result = Inr () \<longrightarrow> \<not> headers_sender t"
    and "\<forall>e. result = Inl e \<longrightarrow> first_error (task_op t) = None \<or> first_error (task_op t) = Some e"
  shows "task_ok (task_end result t)"
proof (cases result)
  case (Inr u)
  then show ?thesis using assms by (simp add: task_ok_def task_end_def)
next
  case (Inl e)
  have t: "task_ok (fail_task e t)" using assms(1) by (rule fail_task_ok)
  have e: "first_error (task_op (fail_task e t)) = Some e"
    using assms(4) Inl by (auto simp: fail_task_def operation_fail_def)
  have "headers_sender (fail_task e t) = headers_sender t" "future_alive (fail_task e t) = future_alive t"
    by (simp_all add: fail_task_def)
  then show ?thesis using t e Inl
    by (cases "response_channel (fail_task e t)"; cases "headers_sender t"; cases "future_alive t")
      (auto simp: task_ok_def task_end_def Let_def elim: channel_ok_for.elims)
qed

lemma task_poll_ok:
  assumes "task_ok t" "\<not> task_done t" "joined = Some (Inr ()) \<longrightarrow> \<not> headers_sender t"
  shows "task_ok (task_poll elapsed joined t)"
proof (cases "run_poll (task_owner t) (task_op t) (with_deadline elapsed joined)")
  case None
  then show ?thesis using assms(1) by (simp add: task_poll_def)
next
  case (Some result)
  have "result = Inr () \<longrightarrow> joined = Some (Inr ())"
    using Some by (auto simp: run_poll_def with_deadline_def split: if_splits option.splits)
  moreover have "\<forall>e. result = Inl e \<longrightarrow> first_error (task_op t) = None \<or> first_error (task_op t) = Some e"
    using Some assms(1)
    by (auto simp: run_poll_def operation_error_def task_ok_def is_cancelled_def split: if_splits option.splits)
  ultimately have "task_ok (task_end result t)" using assms by (intro task_end_ok) auto
  then show ?thesis by (simp add: task_poll_def Some)
qed

lemma task_step_ok: "task_step t t' \<Longrightarrow> task_ok t \<Longrightarrow> task_ok t'"
proof (induction rule: task_step.induct)
  case (headers_came t response res t')
  then show ?case
    by (auto simp: send_headers_def task_ok_def split: if_splits elim: channel_ok_for.elims)
next
  case (task_polled t joined elapsed)
  then show ?case by (intro task_poll_ok)
next
  case (future_polled t)
  then show ?case by (auto simp: future_poll_def task_ok_def split: option.splits)
next
  case (future_dropped t)
  have "task_ok (fail_task sdk_cancelled t)" using future_dropped by (intro fail_task_ok)
  moreover have "own_cancel (task_op (fail_task sdk_cancelled t))" by (simp add: fail_task_def operation_simps)
  ultimately show ?case using future_dropped(2)
    by (auto simp: future_drop_def task_ok_def intro: channel_ok_wait)
qed (auto simp: cancel_request_def fail_task_ok, simp add: task_ok_def)

lemma task_steps_ok: "task_step\<^sup>*\<^sup>* t t' \<Longrightarrow> task_ok t \<Longrightarrow> task_ok t'"
  by (induction rule: rtranclp_induct) (auto intro: task_step_ok)

lemma client_request_ok: "client_request c = (Inr t, c') \<Longrightarrow> task_ok t"
  by (auto simp: client_request_def register_def task_ok_def owned_by_def split: prod.splits sum.splits if_splits)

text \<open>
  C27: Every request that was started is answered.  In every interleaving of its task with polls and drops of its
  future, cancellations, failures of its body and the closing of the handle: once the task has ended, a poll of
  the future is answered at once; the future is only told to wait while the task can still send the headers; an
  error it gets from the task is the first error of the operation, the one that the upload and the body reader
  see too.  A cancelled operation, in particular one whose future was dropped before it was answered, ends with
  the next poll of the task, whatever the exchange does.
\<close>

theorem requests_answered:
  assumes start: "client_request c = (Inr t0, c')" and steps: "task_step\<^sup>*\<^sup>* t0 t"
  shows "(task_done t \<and> future_alive t \<longrightarrow> (\<exists>r. response_channel t = Some r \<and> fst (future_poll t) = Some r))
    \<and> (fst (future_poll t) = None \<longrightarrow> \<not> task_done t \<or> \<not> future_alive t)
    \<and> (\<forall>e. response_channel t = Some (Inl e) \<longrightarrow> first_error (task_op t) = Some e
         \<and> operation_error (task_owner t) (task_op t) = e)
    \<and> (\<not> future_alive t \<and> \<not> transferred t \<longrightarrow> is_cancelled (task_owner t) (task_op t))
    \<and> (is_cancelled (task_owner t) (task_op t) \<longrightarrow> task_done (task_poll elapsed joined t))"
proof -
  have ok: "task_ok t" using task_steps_ok [OF steps client_request_ok [OF start]] .
  have "task_done t \<Longrightarrow> future_alive t \<Longrightarrow> response_channel t \<noteq> None"
    using ok by (cases "response_channel t") (auto simp: task_ok_def)
  moreover have "response_channel t = Some (Inl e) \<Longrightarrow> first_error (task_op t) = Some e" for e
    using ok by (simp add: task_ok_def)
  moreover have "\<not> future_alive t \<and> \<not> transferred t \<Longrightarrow> is_cancelled (task_owner t) (task_op t)"
    using ok by (simp add: task_ok_def is_cancelled_def)
  moreover have "is_cancelled (task_owner t) (task_op t) \<Longrightarrow> task_done (task_poll elapsed joined t)"
    by (simp add: task_poll_def run_poll_def task_end_def)
  ultimately show ?thesis
    by (auto simp: future_poll_def operation_error_def split: option.splits)
qed

text \<open>A request whose future is dropped while it runs.\<close>

theorem requests_answered_witness:
  "let t0 = \<lparr>task_op = owned_by, task_owner = False, task_done = False, headers_sender = True,
        response_channel = None, future_alive = True, transferred = False\<rparr> :: string request_task;
       t = future_drop t0
   in is_cancelled (task_owner t) (task_op t) \<and> task_done (task_poll False None t)
      \<and> fst (client_request (client_anonymous :: unit client)) = Inr t0"
proof -
  let ?t0 = "\<lparr>task_op = owned_by, task_owner = False, task_done = False, headers_sender = True,
        response_channel = None, future_alive = True, transferred = False\<rparr> :: string request_task"
  obtain c' where start: "client_request client_anonymous = (Inr ?t0, c' :: unit client)"
    by (simp add: client_request_def client_anonymous_def client_new_def scope_new_def register_def)
  have "task_step\<^sup>*\<^sup>* ?t0 (future_drop ?t0)" by (rule r_into_rtranclp, rule future_dropped) simp
  from requests_answered [OF start this, of False None] start show ?thesis
    by (simp add: Let_def future_drop_def fail_task_def operation_simps)
qed

section \<open>Reloading a handle\<close>

lemma replace_staple_Inr:
  "replace_staple ops valid self replacement net = (Inr e, net') \<Longrightarrow>
     e = replacement \<and> endpoint_name e = endpoint_name self \<and> cert_chain e = cert_chain self
     \<and> valid (staple e) (cert_chain e) = Inr () \<and> net \<noteq> None"
  by (auto simp: replace_staple_def split: if_splits sum.splits option.splits prod.splits)

lemma reload_Inr:
  "reload t w ops valid self net = Some (Inr e, net') \<Longrightarrow> endpoint_name e = endpoint_name self
     \<and> cert_chain e = cert_chain self \<and> valid (staple e) (cert_chain e) = Inr ()"
  by (auto simp: reload_def split: option.splits sum.splits dest: replace_staple_Inr)

lemma reload_from_Inr:
  "reload_from t w ops valid self dir net = Some (Inr e, net') \<Longrightarrow> endpoint_name e = endpoint_name self
     \<and> cert_chain e = cert_chain self \<and> valid (staple e) (cert_chain e) = Inr ()"
  by (auto simp: reload_from_def split: option.splits sum.splits dest: replace_staple_Inr)

text \<open>A reload that fails leaves the handle; one that succeeds changes only its endpoint, within its name and
  chain and to a staple that was valid.\<close>

lemma client_reload_result:
  assumes "client_reload display t w ops valid c net = Some (r, c', net')"
  shows "(r \<noteq> Inr () \<longrightarrow> c' = c)
    \<and> (r = Inr () \<longrightarrow> \<not> scope_closed (client_scope c)
        \<and> (\<exists>old new. client_endpoint c = Some old \<and> c' = c\<lparr>client_endpoint := Some new\<rparr>
             \<and> endpoint_name new = endpoint_name old \<and> cert_chain new = cert_chain old
             \<and> valid (staple new) (cert_chain new) = Inr ()))"
proof (cases "scope_closed (client_scope c)")
  case True
  then show ?thesis using assms by (auto simp: client_reload_def ensure_open_def)
next
  case False
  show ?thesis
  proof (cases "client_endpoint c")
    case None
    then show ?thesis using assms False by (auto simp: client_reload_def ensure_open_def)
  next
    case (Some old)
    define how where "how = (case client_profile c of
        Some path \<Rightarrow> reload_from t w ops valid old path net | None \<Rightarrow> reload t w ops valid old net)"
    obtain a n where how: "how = Some (a, n)"
      and res: "(r, c', net') = (case a of
        Inl e \<Rightarrow> (Inl (sdk_from_core display e), c, n) | Inr replacement \<Rightarrow> (Inr (), c\<lparr>client_endpoint := Some replacement\<rparr>, n))"
      using assms False Some by (auto simp: client_reload_def ensure_open_def how_def [symmetric])
    show ?thesis
    proof (cases a)
      case (Inl e)
      then show ?thesis using res by simp
    next
      case (Inr new)
      then have "endpoint_name new = endpoint_name old \<and> cert_chain new = cert_chain old
          \<and> valid (staple new) (cert_chain new) = Inr ()"
        using how by (cases "client_profile c") (auto simp: how_def dest!: reload_Inr reload_from_Inr)
      then show ?thesis using res Inr Some False by auto
    qed
  qed
qed

end
