(* ===== verification/Services.thy ===== *)
theory Services
  imports Clients
begin

text \<open>
  The server of the SDK: the crate \<open>dhttp-api\<close>, file \<open>api/src/server.rs\<close>.  A service admits requests while
  the scope of its listener is open; a response body keeps the request's operation until it is over; the task
  of a listener withdraws the name, closes the scope and waits for the requests before its own operation ends.
\<close>

section \<open>Handling a request\<close>

definition service_ready :: "scope \<Rightarrow> sdk_error + unit" where
  "service_ready s = ensure_open s"

text \<open>The operations of the handler and of the reading task; \<open>between\<close> is what other tasks do to the scope
  between the two registrations.\<close>

definition admit ::
    "(scope \<Rightarrow> scope) \<Rightarrow> scope \<Rightarrow> (sdk_error + operation_state \<times> operation_state) \<times> scope" where
  "admit between s =
     (case register s of
        (Inl e, s) \<Rightarrow> (Inl e, s)
      | (Inr p, s) \<Rightarrow>
          (case register (between s) of
             (Inl e, s) \<Rightarrow> (Inl e, drop_operation s)
           | (Inr q, s) \<Rightarrow> (Inr (p, q), s)))"

datatype 'r handled = Responded 'r | HandlerFailed sdk_error | HandlerPanicked

text \<open>\<open>internal\<close> is the empty response with status 500.\<close>

definition service_answer ::
    "'r \<Rightarrow> bool \<Rightarrow> operation_state \<Rightarrow> 'r handled option \<Rightarrow> (sdk_error + 'r) option" where
  "service_answer internal cancelled p result =
     run_poll cancelled p
       (map_option (\<lambda>h. Inr (case h of Responded r \<Rightarrow> r | HandlerFailed _ \<Rightarrow> internal | HandlerPanicked \<Rightarrow> internal))
          result)"

section \<open>The response body\<close>

record owned_body =
  inner_body :: "native_frame list option"
  body_op :: "operation_state option"

definition owned_body_new :: "native_frame list \<Rightarrow> operation_state \<Rightarrow> owned_body" where
  "owned_body_new frames p = \<lparr>inner_body = Some frames, body_op = Some p\<rparr>"

definition released_body :: owned_body where
  "released_body = \<lparr>inner_body = None, body_op = None\<rparr>"

datatype owned_poll = OwnedPending | OwnedEnd | OwnedFrame native_frame | OwnedError any_error

text \<open>\<open>ready\<close>: the inner body has its next frame.  \<open>None\<close> is a panic.\<close>

definition owned_poll_frame :: "bool \<Rightarrow> bool \<Rightarrow> owned_body \<Rightarrow> (owned_poll \<times> owned_body) option" where
  "owned_poll_frame cancelled ready b =
     (case inner_body b of
        None \<Rightarrow> Some (OwnedEnd, b)
      | Some frames \<Rightarrow>
          (case body_op b of
             None \<Rightarrow> None
           | Some p \<Rightarrow>
               if is_cancelled cancelled p then Some (OwnedError (AnySdk (operation_error cancelled p)), released_body)
               else if \<not> ready then Some (OwnedPending, b)
               else case frames of
                 [] \<Rightarrow> Some (OwnedEnd, released_body)
               | ErrorFrame e # _ \<Rightarrow> Some (OwnedError e, released_body)
               | frame # rest \<Rightarrow> Some (OwnedFrame frame, b\<lparr>inner_body := Some rest\<rparr>)))"

definition is_end_stream :: "owned_body \<Rightarrow> bool" where
  "is_end_stream b \<longleftrightarrow> inner_body b = None"

text \<open>The body with the scope that counts its operation.\<close>

definition release :: "owned_body \<Rightarrow> owned_body \<Rightarrow> scope \<Rightarrow> scope" where
  "release b b' s = (if body_op b \<noteq> None \<and> body_op b' = None then drop_operation s else s)"

datatype body_action = PollOwned bool | FailOwned sdk_error | DropOwned

text \<open>A step of the body: a poll, a failure of the shared operation, the drop of the body.\<close>

fun body_act :: "body_action \<Rightarrow> owned_body \<times> scope \<Rightarrow> (owned_poll option \<times> owned_body \<times> scope) option" where
  "body_act (PollOwned ready) (b, s) =
     map_option (\<lambda>(r, b'). (Some r, b', release b b' s)) (owned_poll_frame (scope_cancelled s) ready b)"
| "body_act (FailOwned e) (b, s) =
     Some (None, b\<lparr>body_op := map_option (operation_fail e) (body_op b)\<rparr>, s)"
| "body_act DropOwned (b, s) = Some (None, released_body, release b released_body s)"

fun body_acts :: "body_action list \<Rightarrow> owned_body \<times> scope \<Rightarrow> (owned_poll list \<times> owned_body \<times> scope) option" where
  "body_acts [] bs = Some ([], bs)"
| "body_acts (a # as) bs =
     (case body_act a bs of
        None \<Rightarrow> None
      | Some (r, bs') \<Rightarrow>
          map_option (\<lambda>(rs, bs). ((case r of None \<Rightarrow> rs | Some r \<Rightarrow> r # rs), bs)) (body_acts as bs'))"

definition frames_given :: "owned_poll list \<Rightarrow> native_frame list" where
  "frames_given rs = concat (map (\<lambda>r. case r of OwnedFrame f \<Rightarrow> [f] | _ \<Rightarrow> []) rs)"

text \<open>The body holds the operation exactly while it has frames to come or its end.\<close>

definition body_ok :: "native_frame list \<Rightarrow> nat \<Rightarrow> owned_body \<times> scope \<Rightarrow> bool" where
  "body_ok frames n bs \<longleftrightarrow>
     (case bs of (b, s) \<Rightarrow>
        (inner_body b = None \<longleftrightarrow> body_op b = None)
        \<and> tracked s = (if body_op b = None then n else Suc n)
        \<and> (case inner_body b of None \<Rightarrow> True | Some rest \<Rightarrow> rest = frames))"

lemma body_act_ok:
  assumes "body_ok frames n bs"
  obtains r b' s' where "body_act a bs = Some (r, b', s')"
    and "\<exists>frames'. body_ok frames' n (b', s') \<and> frames = (case r of Some (OwnedFrame f) \<Rightarrow> [f] | _ \<Rightarrow> []) @ frames'
         \<and> (inner_body (fst bs) = None \<longrightarrow> inner_body b' = None \<and> (r = None \<or> r = Some OwnedEnd))
         \<and> (r = Some OwnedEnd \<or> (\<exists>e. r = Some (OwnedError e)) \<longrightarrow> inner_body b' = None)"
proof -
  obtain b s where bs: "bs = (b, s)" by force
  show ?thesis
  proof (cases "inner_body b")
    case None
    then have "body_op b = None" using assms bs by (simp add: body_ok_def)
    then show ?thesis using None assms that [of "case a of PollOwned _ \<Rightarrow> Some OwnedEnd | _ \<Rightarrow> None"]
      by (cases a) (auto simp: bs owned_poll_frame_def release_def body_ok_def released_body_def)
  next
    case (Some rest)
    then obtain p where p: "body_op b = Some p" using assms bs by (auto simp: body_ok_def)
    show ?thesis
    proof (cases a)
      case (PollOwned ready)
      show ?thesis
      proof (cases "is_cancelled (scope_cancelled s) p")
        case True
        then show ?thesis using PollOwned Some p assms that
          by (simp add: bs owned_poll_frame_def release_def body_ok_def released_body_def drop_operation_def)
      next
        case False
        show ?thesis
        proof (cases ready)
          case True
          then show ?thesis using PollOwned Some p assms that False
            by (cases rest; cases "hd rest")
              (auto simp: bs owned_poll_frame_def release_def body_ok_def released_body_def drop_operation_def)
        next
          case not_ready: False
          then show ?thesis using PollOwned Some p assms that False
            by (simp add: bs owned_poll_frame_def release_def body_ok_def)
        qed
      qed
    next
      case (FailOwned e)
      then show ?thesis using Some p assms that by (simp add: bs body_ok_def)
    next
      case DropOwned
      then show ?thesis using Some p assms that
        by (simp add: bs release_def body_ok_def released_body_def drop_operation_def)
    qed
  qed
qed

lemma frames_given_simps [simp]:
  "frames_given [] = []" "frames_given (r # rs) = (case r of OwnedFrame f \<Rightarrow> [f] | _ \<Rightarrow> []) @ frames_given rs"
  by (simp_all add: frames_given_def)

lemma body_acts_ok:
  "body_ok frames n bs \<Longrightarrow> \<exists>rs b s. body_acts as bs = Some (rs, b, s)
     \<and> (\<exists>frames'. body_ok frames' n (b, s) \<and> frames = frames_given rs @ frames')
     \<and> (inner_body (fst bs) = None \<longrightarrow> inner_body b = None \<and> set rs \<subseteq> {OwnedEnd})
     \<and> (OwnedEnd \<in> set rs \<longrightarrow> inner_body b = None)"
proof (induction as arbitrary: bs frames)
  case Nil
  obtain b s where "bs = (b, s)" by force
  with Nil show ?case by auto
next
  case (Cons a as)
  obtain r b' s' where act: "body_act a bs = Some (r, b', s')"
    and ex: "\<exists>frames'. body_ok frames' n (b', s') \<and> frames = (case r of Some (OwnedFrame f) \<Rightarrow> [f] | _ \<Rightarrow> []) @ frames'
         \<and> (inner_body (fst bs) = None \<longrightarrow> inner_body b' = None \<and> (r = None \<or> r = Some OwnedEnd))
         \<and> (r = Some OwnedEnd \<or> (\<exists>e. r = Some (OwnedError e)) \<longrightarrow> inner_body b' = None)"
    by (rule body_act_ok [OF Cons.prems])
  from ex obtain frames1 where ok1: "body_ok frames1 n (b', s')"
    and fr: "frames = (case r of Some (OwnedFrame f) \<Rightarrow> [f] | _ \<Rightarrow> []) @ frames1"
    and none: "inner_body (fst bs) = None \<longrightarrow> inner_body b' = None \<and> (r = None \<or> r = Some OwnedEnd)"
    and stop: "r = Some OwnedEnd \<or> (\<exists>e. r = Some (OwnedError e)) \<longrightarrow> inner_body b' = None"
    by (elim exE conjE) (rule that)
  from Cons.IH [OF ok1] obtain rs b s frames2 where rs: "body_acts as (b', s') = Some (rs, b, s)"
    and ok2: "body_ok frames2 n (b, s)" "frames1 = frames_given rs @ frames2"
    and none2: "inner_body b' = None \<longrightarrow> inner_body b = None \<and> set rs \<subseteq> {OwnedEnd}"
    and end2: "OwnedEnd \<in> set rs \<longrightarrow> inner_body b = None" by auto
  show ?case
  proof (cases r)
    case None
    with act rs ok2 fr none none2 end2 show ?thesis by auto
  next
    case (Some x)
    with act rs have "body_acts (a # as) bs = Some (x # rs, b, s)" by simp
    moreover have "frames = frames_given (x # rs) @ frames2" using fr ok2(2) Some by (simp split: owned_poll.splits)
    moreover have "inner_body (fst bs) = None \<longrightarrow> inner_body b = None \<and> set (x # rs) \<subseteq> {OwnedEnd}"
      using none none2 Some by auto
    moreover have "OwnedEnd \<in> set (x # rs) \<longrightarrow> inner_body b = None" using stop none2 end2 Some by auto
    ultimately show ?thesis using ok2(1) by (intro exI conjI)
  qed
qed

lemma body_act_end:
  assumes "body_ok frames n (b, s)" "inner_body b \<noteq> None" "body_act a (b, s) = Some (r, b', s')" "a \<noteq> DropOwned"
  shows "(r = Some OwnedEnd \<longrightarrow> frames = []) \<and> (inner_body b' = None \<longrightarrow> r = Some OwnedEnd \<or> (\<exists>e. r = Some (OwnedError e)))"
proof -
  obtain rest p where b: "inner_body b = Some rest" "body_op b = Some p" "rest = frames"
    using assms(1,2) by (auto simp: body_ok_def)
  show ?thesis
  proof (cases a)
    case (PollOwned ready)
    with assms(3) b show ?thesis
      by (cases rest; cases "hd rest") (auto simp: owned_poll_frame_def split: if_splits)
  next
    case (FailOwned e)
    with assms(3) b show ?thesis by auto
  qed (use assms(4) in simp)
qed

lemma body_acts_whole:
  "body_ok frames n (b, s) \<Longrightarrow> inner_body b \<noteq> None \<Longrightarrow> body_acts as (b, s) = Some (rs, b', s') \<Longrightarrow> DropOwned \<notin> set as
     \<Longrightarrow> OwnedEnd \<in> set rs \<Longrightarrow> (\<forall>e. OwnedError e \<notin> set rs) \<Longrightarrow> frames_given rs = frames"
proof (induction as arbitrary: frames b s rs)
  case (Cons a as)
  obtain r b1 s1 where act: "body_act a (b, s) = Some (r, b1, s1)"
    and ex: "\<exists>frames'. body_ok frames' n (b1, s1) \<and> frames = (case r of Some (OwnedFrame f) \<Rightarrow> [f] | _ \<Rightarrow> []) @ frames'"
    by (rule body_act_ok [OF Cons.prems(1), of a]) blast
  from ex obtain frames1 where ok1: "body_ok frames1 n (b1, s1)"
    and fr: "frames = (case r of Some (OwnedFrame f) \<Rightarrow> [f] | _ \<Rightarrow> []) @ frames1" by blast
  obtain rs1 where rest: "body_acts as (b1, s1) = Some (rs1, b', s')"
    and rs: "rs = (case r of None \<Rightarrow> rs1 | Some r \<Rightarrow> r # rs1)" using Cons.prems(3) act by auto
  have "a \<noteq> DropOwned" using Cons.prems(4) by auto
  from body_act_end [OF Cons.prems(1,2) act this] have fin: "r = Some OwnedEnd \<longrightarrow> frames = []"
    "inner_body b1 = None \<longrightarrow> r = Some OwnedEnd \<or> (\<exists>e. r = Some (OwnedError e))" by auto
  show ?case
  proof (cases "inner_body b1 = None")
    case True
    then have r: "r = Some OwnedEnd" using fin(2) Cons.prems(6) rs by auto
    from body_acts_ok [OF ok1, of as] rest True have "set rs1 \<subseteq> {OwnedEnd}" by auto
    then have "frames_given rs1 = []" by (auto simp: frames_given_def)
    then show ?thesis using r fin rs by simp
  next
    case False
    have "r \<noteq> Some OwnedEnd" using False ex act body_act_ok [OF Cons.prems(1), of a] by (metis (no_types, lifting) Pair_inject option.inject)
    then have "OwnedEnd \<in> set rs1" "\<forall>e. OwnedError e \<notin> set rs1" using Cons.prems(5,6) rs by (auto split: option.splits)
    from Cons.IH [OF ok1 False rest _ this] Cons.prems(4) have "frames_given rs1 = frames1" by simp
    then show ?thesis using rs fr by (auto split: option.splits owned_poll.splits)
  qed
qed simp

text \<open>
  C29: A response body owns its operation until it is over.  Whatever is polled, failed or dropped, the body never
  panics; what it gives is a beginning of the handler's frames, all of them if it ends without an error before it
  is dropped; and the operation is counted in the scope of the listener exactly until the body has ended, failed,
  was cancelled or dropped, and released once.  A body whose operation is cancelled gives the operation's first
  error at its next poll, after that it only ends.
\<close>

theorem response_body_owned:
  assumes "tracked s = Suc n"
  shows "\<exists>rs b s'. body_acts as (owned_body_new frames p, s) = Some (rs, b, s')
    \<and> (\<exists>rest. frames = frames_given rs @ rest)
    \<and> tracked s' = (if is_end_stream b then n else Suc n)
    \<and> (OwnedEnd \<in> set rs \<longrightarrow> is_end_stream b
        \<and> (DropOwned \<notin> set as \<and> (\<forall>e. OwnedError e \<notin> set rs) \<longrightarrow> frames_given rs = frames))
    \<and> (\<forall>ready cancelled q. \<not> is_end_stream b \<and> body_op b = Some q \<and> is_cancelled cancelled q \<longrightarrow>
         owned_poll_frame cancelled ready b = Some (OwnedError (AnySdk (operation_error cancelled q)), released_body))
    \<and> (\<forall>ready cancelled. is_end_stream b \<longrightarrow> owned_poll_frame cancelled ready b = Some (OwnedEnd, b))"
proof -
  have ok: "body_ok frames n (owned_body_new frames p, s)" using assms by (simp add: body_ok_def owned_body_new_def)
  from body_acts_ok [OF this, of as] obtain rs b s' frames' where
    r: "body_acts as (owned_body_new frames p, s) = Some (rs, b, s')"
    "body_ok frames' n (b, s')" "frames = frames_given rs @ frames'" "OwnedEnd \<in> set rs \<longrightarrow> inner_body b = None" by blast
  have "OwnedEnd \<in> set rs \<Longrightarrow> DropOwned \<notin> set as \<Longrightarrow> \<forall>e. OwnedError e \<notin> set rs \<Longrightarrow> frames_given rs = frames"
    using body_acts_whole [OF ok _ r(1)] by (simp add: owned_body_new_def)
  moreover have "tracked s' = (if is_end_stream b then n else Suc n)"
    using r(2) by (auto simp: body_ok_def is_end_stream_def)
  moreover have "\<exists>rest. frames = frames_given rs @ rest" using r(3) by blast
  ultimately show ?thesis using r(1,4)
    by (intro exI [of _ rs] exI [of _ b] exI [of _ s'])
      (auto simp: owned_poll_frame_def is_end_stream_def released_body_def)
qed

theorem response_body_owned_witness:
  "\<exists>b s. body_acts [PollOwned False, PollOwned True, PollOwned True]
      (owned_body_new [DataFrame ''x''] owned_by, snd (register scope_new))
      = Some ([OwnedPending, OwnedFrame (DataFrame ''x''), OwnedEnd], b, s)
    \<and> tracked s = 0"
proof -
  let ?as = "[PollOwned False, PollOwned True, PollOwned True]"
  let ?s = "snd (register scope_new)"
  have s: "tracked ?s = Suc 0" "\<not> scope_cancelled ?s" by (simp_all add: register_def scope_new_def)
  obtain b s' where r: "body_acts ?as (owned_body_new [DataFrame ''x''] owned_by, ?s)
      = Some ([OwnedPending, OwnedFrame (DataFrame ''x''), OwnedEnd], b, s')"
    using s(2) by (simp add: owned_body_new_def owned_poll_frame_def release_def operation_simps)
  from response_body_owned [OF s(1), of ?as "[DataFrame ''x'']" owned_by] r
  have "tracked s' = (if is_end_stream b then 0 else Suc 0)" "is_end_stream b" by auto
  with r show ?thesis by auto
qed

section \<open>Listeners\<close>

text \<open>Where the task of a listener is: awaiting its cancellation; the name withdrawn; then the three cells of
  closing the scope; waiting for the requests; ended.\<close>

datatype listener_phase = Serving | Withdrawn | Refusing | Cancelling | WaitingRequests | Ended

record ('k, 'svc, 'r) listening_state =
  of_client :: "'k client"
  of_network :: "('svc, 'r) network"
  listen_op :: operation_state
  listen_name :: string
  service_scope :: scope
  phase :: listener_phase

text \<open>\<open>init\<close> is the result of \<open>crate::init\<close>; the run is cancelled when the handle was closed meanwhile.\<close>

definition client_listen ::
    "(path \<Rightarrow> string) \<Rightarrow> core_error + unit \<Rightarrow> ('q, 'k, 's, 'v, 'r) quic_ops \<Rightarrow> 's \<Rightarrow> 'svc \<Rightarrow> 'k client \<Rightarrow> ('svc, 'r) network
      \<Rightarrow> (sdk_error + ('k, 'svc, 'r) listening_state) \<times> 'k client \<times> ('svc, 'r) network" where
  "client_listen display init ops sc service c n =
     (case register (client_scope c) of
        (Inl e, s) \<Rightarrow> (Inl e, c\<lparr>client_scope := s\<rparr>, n)
      | (Inr p, s) \<Rightarrow>
          (let failed = (\<lambda>e n. (Inl e, c\<lparr>client_scope := drop_operation s\<rparr>, n))
           in case client_endpoint c of
                None \<Rightarrow> failed (sdk_new CodeIdentity ''anonymous client cannot listen'') n
              | Some e \<Rightarrow>
                  if is_cancelled (scope_cancelled s) p then failed (operation_error (scope_cancelled s) p) n
                  else case init of
                    Inl err \<Rightarrow> failed (sdk_from_core display err) n
                  | Inr _ \<Rightarrow>
                      (case listen ops e sc service n of
                         (Inl err, n) \<Rightarrow> failed (sdk_from_core display err) n
                       | (Inr name, n) \<Rightarrow>
                           (Inr \<lparr>of_client = c\<lparr>client_scope := s\<rparr>, of_network = n, listen_op = p, listen_name = name,
                                 service_scope = scope_new, phase = Serving\<rparr>,
                            c\<lparr>client_scope := s\<rparr>, n))))"

definition listener_closed :: sdk_error where
  "listener_closed = sdk_new CodeClosed ''listener closed''"

definition listener_dropped :: sdk_error where
  "listener_dropped = sdk_new CodeClosed ''listener dropped''"

definition fail_listener :: "sdk_error \<Rightarrow> ('k, 'svc, 'r) listening_state \<Rightarrow> ('k, 'svc, 'r) listening_state" where
  "fail_listener e l = l\<lparr>listen_op := operation_fail e (listen_op l)\<rparr>"

abbreviation listener_cancelled :: "('k, 'svc, 'r) listening_state \<Rightarrow> bool" where
  "listener_cancelled l \<equiv> is_cancelled (scope_cancelled (client_scope (of_client l))) (listen_op l)"

text \<open>The task: it waits for the cancellation, drops the future of the listening, closes the scope, waits until
  no request is left and drops its operation.  \<open>None\<close>: it cannot move.\<close>

definition listener_task ::
    "('q, 'k, 's, 'v, 'r) quic_ops \<Rightarrow> ('k, 'svc, 'r) listening_state \<Rightarrow> ('k, 'svc, 'r) listening_state option" where
  "listener_task ops l =
     (case phase l of
        Serving \<Rightarrow>
          if listener_cancelled l
          then Some (l\<lparr>of_network := stop_listening ops (listen_name l) (of_network l), phase := Withdrawn\<rparr>) else None
      | Withdrawn \<Rightarrow> Some (l\<lparr>service_scope := set_closed (service_scope l), phase := Refusing\<rparr>)
      | Refusing \<Rightarrow> Some (l\<lparr>service_scope := cancel_token (service_scope l), phase := Cancelling\<rparr>)
      | Cancelling \<Rightarrow> Some (l\<lparr>service_scope := close_tracker (service_scope l), phase := WaitingRequests\<rparr>)
      | WaitingRequests \<Rightarrow>
          if wait_ready (service_scope l)
          then Some (l\<lparr>of_client := (of_client l)\<lparr>client_scope := drop_operation (client_scope (of_client l))\<rparr>,
                       phase := Ended\<rparr>)
          else None
      | Ended \<Rightarrow> None)"

text \<open>What happens to a listener: its task moves, a request is admitted or an operation of one is dropped, the
  listener is closed or dropped, the client is closed or has other operations come and go.\<close>

inductive listener_step ::
    "('q, 'k, 's, 'v, 'r) quic_ops \<Rightarrow> ('k, 'svc, 'r) listening_state \<Rightarrow> ('k, 'svc, 'r) listening_state \<Rightarrow> bool"
  for ops where
  task_moves: "listener_task ops l = Some l' \<Longrightarrow> listener_step ops l l'"
| request_registered: "register (service_scope l) = (Inr p, s) \<Longrightarrow> listener_step ops l (l\<lparr>service_scope := s\<rparr>)"
| request_released: "0 < tracked (service_scope l) \<Longrightarrow>
    listener_step ops l (l\<lparr>service_scope := drop_operation (service_scope l)\<rparr>)"
| listener_failed: "listener_step ops l (fail_listener e l)"
| client_closes: "listener_step ops l (l\<lparr>of_client := client_close (of_client l)\<rparr>)"
| client_registers: "register (client_scope (of_client l)) = (Inr p, s) \<Longrightarrow>
    listener_step ops l (l\<lparr>of_client := (of_client l)\<lparr>client_scope := s\<rparr>\<rparr>)"
| client_releases: "(if phase l = Ended then 0 else 1) < tracked (client_scope (of_client l)) \<Longrightarrow>
    listener_step ops l (l\<lparr>of_client := (of_client l)\<lparr>client_scope := drop_operation (client_scope (of_client l))\<rparr>\<rparr>)"

fun phase_ok :: "listener_phase \<Rightarrow> bool \<Rightarrow> scope \<Rightarrow> bool" where
  "phase_ok Serving own s = (\<not> scope_cancelled s \<and> \<not> scope_closed s)"
| "phase_ok Withdrawn own s = (own \<and> \<not> scope_cancelled s \<and> \<not> scope_closed s)"
| "phase_ok Refusing own s = (own \<and> scope_closed s)"
| "phase_ok Cancelling own s = (own \<and> scope_closed s \<and> scope_cancelled s)"
| "phase_ok WaitingRequests own s = (own \<and> scope_closed s \<and> scope_cancelled s \<and> tracker_closed s)"
| "phase_ok Ended own s = (own \<and> scope_closed s \<and> scope_cancelled s \<and> tracked s = 0)"

definition listener_ok :: "('k, 'svc, 'r) listening_state \<Rightarrow> bool" where
  "listener_ok l \<longleftrightarrow>
     phase_ok (phase l) (listener_cancelled l) (service_scope l)
     \<and> (phase l = Ended \<or> 0 < tracked (client_scope (of_client l)))"

lemma cancelled_stays:
  "is_cancelled a p \<Longrightarrow> (a \<longrightarrow> b) \<Longrightarrow> is_cancelled b p" "is_cancelled a p \<Longrightarrow> is_cancelled a (operation_fail e p)"
  by (auto simp: is_cancelled_def operation_fail_def)

lemma phase_ok_cancelled: "phase_ok ph own s \<Longrightarrow> (own \<longrightarrow> own') \<Longrightarrow> phase_ok ph own' s"
  by (cases ph) auto

lemma phase_ok_tracked:
  "phase_ok ph own s \<Longrightarrow> scope_closed s' = scope_closed s \<Longrightarrow> scope_cancelled s' = scope_cancelled s
     \<Longrightarrow> tracker_closed s' = tracker_closed s \<Longrightarrow> (scope_closed s \<longrightarrow> tracked s' \<le> tracked s) \<Longrightarrow> phase_ok ph own s'"
  by (cases ph) auto

lemma listener_task_ok:
  assumes "listener_task ops l = Some l'" "listener_ok l"
  shows "listener_ok l'"
  using assms
  by (cases "phase l")
    (auto simp: listener_task_def listener_ok_def scope_defs stop_listening_def split: if_splits)

lemma listener_step_ok:
  assumes "listener_step ops l l'" "listener_ok l"
  shows "listener_ok l'"
  using assms
proof cases
  case task_moves
  then show ?thesis using assms(2) by (rule listener_task_ok)
next
  case (request_registered p s)
  have "phase_ok (phase l) (listener_cancelled l) s"
    by (rule phase_ok_tracked [of _ _ "service_scope l"])
      (use assms(2) request_registered in \<open>auto simp: listener_ok_def register_def split: if_splits\<close>)
  then show ?thesis using assms(2) request_registered by (simp add: listener_ok_def)
next
  case request_released
  have "phase_ok (phase l) (listener_cancelled l) (drop_operation (service_scope l))"
    by (rule phase_ok_tracked [of _ _ "service_scope l"])
      (use assms(2) in \<open>auto simp: listener_ok_def drop_operation_def\<close>)
  then show ?thesis using assms(2) request_released by (simp add: listener_ok_def)
next
  case (listener_failed e)
  have "phase_ok (phase l) (listener_cancelled (fail_listener e l)) (service_scope l)"
    by (rule phase_ok_cancelled [of _ "listener_cancelled l"])
      (use assms(2) in \<open>auto simp: listener_ok_def fail_listener_def operation_simps\<close>)
  then show ?thesis using assms(2) listener_failed by (simp add: listener_ok_def fail_listener_def)
next
  case client_closes
  have "phase_ok (phase l) (listener_cancelled l') (service_scope l)"
    by (rule phase_ok_cancelled [of _ "listener_cancelled l"])
      (use assms(2) client_closes in \<open>auto simp: listener_ok_def client_close_def scope_cancel_def
         close_tracker_def cancel_token_def set_closed_def is_cancelled_def\<close>)
  then show ?thesis using assms(2) client_closes
    by (simp add: listener_ok_def client_close_def scope_cancel_def close_tracker_def cancel_token_def set_closed_def)
next
  case (client_registers p s)
  then show ?thesis using assms(2) by (auto simp: listener_ok_def register_def split: if_splits)
next
  case client_releases
  then show ?thesis using assms(2) by (auto simp: listener_ok_def drop_operation_def split: if_splits)
qed

lemma listener_steps_ok: "(listener_step ops)\<^sup>*\<^sup>* l l' \<Longrightarrow> listener_ok l \<Longrightarrow> listener_ok l'"
  by (induction rule: rtranclp_induct) (auto intro: listener_step_ok)

lemma client_listen_ok:
  "client_listen display init ops sc service c n = (Inr l, c', n') \<Longrightarrow> listener_ok l"
  by (auto simp: client_listen_def listener_ok_def register_def scope_new_def Let_def
      split: prod.splits sum.splits option.splits if_splits)

text \<open>
  C28: Closing a listener, or its handle, waits for everything it owns.  Whatever requests come and go and however
  the listener and its handle are closed, dropped or used meanwhile: the handle cannot finish closing while the
  task of the listener, any handler or any response body of it is alive; once the task refuses requests it never
  admits another, once it has cancelled them every one of their operations is cancelled, and when it has ended
  none is left.  The first thing it does is to withdraw the name from the network; and it is never stuck: it waits
  only to be cancelled, or for requests that are still alive.
\<close>

theorem listener_close_waits:
  assumes start: "client_listen display init ops sc service c n = (Inr l0, c', n')"
    and steps: "(listener_step ops)\<^sup>*\<^sup>* l0 l"
  shows "(phase l \<noteq> Ended \<or> 0 < tracked (service_scope l) \<longrightarrow> \<not> wait_ready (client_scope (of_client l)))
    \<and> (phase l \<notin> {Serving, Withdrawn} \<longrightarrow> admit between (service_scope l) = (Inl handle_closed, service_scope l)
        \<and> service_ready (service_scope l) = Inl handle_closed)
    \<and> (phase l \<notin> {Serving, Withdrawn, Refusing} \<longrightarrow>
        (\<forall>p. owner_cancel p \<longrightarrow> is_cancelled (scope_cancelled (service_scope l)) p))
    \<and> (phase l = Ended \<longrightarrow> tracked (service_scope l) = 0)
    \<and> (\<forall>l'. phase l = Serving \<and> listener_task ops l = Some l' \<longrightarrow> listeners (of_network l') (listen_name l) = None)
    \<and> (listener_task ops l = None \<longrightarrow> phase l = Ended \<or> phase l = Serving \<and> \<not> listener_cancelled l
        \<or> phase l = WaitingRequests \<and> 0 < tracked (service_scope l))"
proof -
  have "listener_ok l" using listener_steps_ok [OF steps client_listen_ok [OF start]] .
  then have ok: "phase_ok (phase l) (listener_cancelled l) (service_scope l)"
    "phase l = Ended \<or> 0 < tracked (client_scope (of_client l))" by (simp_all add: listener_ok_def)
  show ?thesis
    using ok
    by (cases "phase l")
      (auto simp: wait_ready_def admit_def register_def service_ready_def ensure_open_def is_cancelled_def
        listener_task_def stop_listening_def split: if_splits)
qed

theorem listener_close_waits_witness:
  "\<exists>l0 l. fst (client_listen (\<lambda>_. []) (Inr ()) map_quic () ''svc'' (client_from_endpoint (example_endpoint ''c1'' ''s1''))
        \<lparr>listeners = (\<lambda>_. None), registry = (\<lambda>_. None)\<rparr>) = Inr l0
     \<and> (listener_step map_quic)\<^sup>*\<^sup>* l0 l \<and> phase l = Withdrawn \<and> \<not> wait_ready (client_scope (of_client l))"
proof -
  obtain l0 c' n' where start: "client_listen (\<lambda>_. []) (Inr ()) map_quic () ''svc''
      (client_from_endpoint (example_endpoint ''c1'' ''s1'')) \<lparr>listeners = (\<lambda>_. None), registry = (\<lambda>_. None)\<rparr>
      = (Inr l0, c', n')" and l0: "phase l0 = Serving"
    by (simp add: client_listen_def client_from_endpoint_def client_new_def scope_new_def register_def operation_simps
        listen_def configure_quic_def map_quic_def and_then_def map_err_def Let_def)
  let ?l1 = "fail_listener listener_closed l0"
  let ?l = "?l1\<lparr>of_network := stop_listening map_quic (listen_name ?l1) (of_network ?l1), phase := Withdrawn\<rparr>"
  have "listener_task map_quic ?l1 = Some ?l"
    using l0 by (simp add: listener_task_def fail_listener_def operation_simps)
  then have "listener_step map_quic ?l1 ?l" by (rule task_moves)
  then have steps: "(listener_step map_quic)\<^sup>*\<^sup>* l0 ?l"
    using listener_failed [of map_quic l0 listener_closed] by (meson r_into_rtranclp rtranclp_trans)
  from listener_close_waits [OF start steps] have "\<not> wait_ready (client_scope (of_client ?l))" by simp
  then show ?thesis using start steps by (intro exI [of _ l0] exI [of _ ?l]) simp
qed

end
