(* ===== verification/Bindings.thy ===== *)
theory Bindings
  imports Services
begin

text \<open>
  What the language bindings share: the crate \<open>dhttp-api\<close>, file \<open>api/src/binding.rs\<close>.  Fields, scopes and
  peers come from the language as strings and bytes; the crate \<open>http\<close>, the parser of addresses and the keys
  of TLS are parameters.
\<close>

section \<open>Fields\<close>

text \<open>\<open>HeaderName::from_bytes\<close> and \<open>HeaderValue::from_bytes\<close>: what is stored, or the text of the error.\<close>

record field_parsers =
  parse_name :: "string \<Rightarrow> string + string"
  parse_value :: "string \<Rightarrow> string + string"

definition invalid :: "string \<Rightarrow> sdk_error" where
  "invalid message = sdk_new CodeInvalidArgument message"

fun headers_from :: "field_parsers \<Rightarrow> header_map \<Rightarrow> (string \<times> string) list \<Rightarrow> sdk_error + header_map" where
  "headers_from fp hs [] = Inr hs"
| "headers_from fp hs ((name, v) # fs) =
     and_then (map_err invalid (parse_name fp name)) (\<lambda>name.
     and_then (map_err invalid (parse_value fp v)) (\<lambda>v.
       headers_from fp (fields_append name v hs) fs))"

definition headers :: "field_parsers \<Rightarrow> (string \<times> string) list \<Rightarrow> sdk_error + header_map" where
  "headers fp fs = headers_from fp [] fs"

text \<open>A header map is iterated name by name, in an order of the map; the values of a name come in theirs.\<close>

definition values_of :: "header_map \<Rightarrow> string \<Rightarrow> string list" where
  "values_of hs name = map snd (filter (\<lambda>(n, _). n = name) hs)"

definition header_fields :: "(string list \<Rightarrow> string list) \<Rightarrow> header_map \<Rightarrow> (string \<times> string) list" where
  "header_fields order hs = concat (map (\<lambda>name. map (Pair name) (values_of hs name)) (order (remdups (map fst hs))))"

section \<open>Scopes\<close>

datatype listen_scope = LoopbackScope | InternalScope | ExternalScope

definition scope_from_name :: "string \<Rightarrow> sdk_error + listen_scope" where
  "scope_from_name name =
     (if name = ''loopback'' then Inr LoopbackScope
      else if name = ''internal'' then Inr InternalScope
      else if name = ''external'' then Inr ExternalScope
      else Inl (invalid (''unknown scope: '' @ name)))"

fun add_scopes :: "listen_scope set option \<Rightarrow> string list \<Rightarrow> sdk_error + listen_scope set option" where
  "add_scopes acc [] = Inr acc"
| "add_scopes acc (name # names) =
     and_then (scope_from_name name) (\<lambda>scope.
       add_scopes (Some (case acc of None \<Rightarrow> {scope} | Some others \<Rightarrow> insert scope others)) names)"

definition scopes_from :: "string list \<Rightarrow> sdk_error + listen_scope set" where
  "scopes_from names =
     and_then (add_scopes None names) (ok_or (invalid ''at least one listening scope is required''))"

section \<open>Exchanges\<close>

text \<open>\<open>build\<close> is the builder of the crate \<open>http\<close>: the error of a method or URI it refuses.\<close>

record exchange_parts =
  exch_method :: string
  exch_uri :: string
  exch_fields :: header_map
  exch_trailers :: header_map
  exch_timeout :: "nat option"
  exch_owner :: "owner_hash option"

definition exchange_parts ::
    "field_parsers \<Rightarrow> (string \<Rightarrow> string \<Rightarrow> string option) \<Rightarrow> string \<Rightarrow> string \<Rightarrow> (string \<times> string) list
      \<Rightarrow> nat option \<Rightarrow> string option \<Rightarrow> (string \<times> string) list \<Rightarrow> sdk_error + exchange_parts" where
  "exchange_parts fp build http_method u fs timeout owner_text trailers =
     (case build http_method u of
        Some e \<Rightarrow> Inl (invalid e)
      | None \<Rightarrow>
          and_then (headers fp fs) (\<lambda>hs.
          and_then (headers fp trailers) (\<lambda>ts.
          and_then (case owner_text of
                      None \<Rightarrow> Inr None
                    | Some t \<Rightarrow> (case owner_hash_try_from t of
                        Inl _ \<Rightarrow> Inl (invalid ''invalid owner hash'') | Inr h \<Rightarrow> Inr (Some h))) (\<lambda>owner_hash.
            Inr \<lparr>exch_method = http_method, exch_uri = u, exch_fields = hs, exch_trailers = ts,
                 exch_timeout = timeout, exch_owner = owner_hash\<rparr>))))"

record 'r exchange =
  exch_response :: "'r request_task option"
  exch_upload :: "upload option"

definition exchange_start ::
    "field_parsers \<Rightarrow> (string \<Rightarrow> string \<Rightarrow> string option) \<Rightarrow> string \<Rightarrow> string \<Rightarrow> (string \<times> string) list \<Rightarrow> bool
      \<Rightarrow> nat option \<Rightarrow> string option \<Rightarrow> (string \<times> string) list \<Rightarrow> 'k client
      \<Rightarrow> (sdk_error + exchange_parts \<times> 'r exchange) \<times> 'k client" where
  "exchange_start fp build http_method u fs has_body timeout owner_text trailers c =
     (case exchange_parts fp build http_method u fs timeout owner_text trailers of
        Inl e \<Rightarrow> (Inl e, c)
      | Inr parts \<Rightarrow>
          (case client_request c of
             (Inl e, c) \<Rightarrow> (Inl e, c)
           | (Inr t, c) \<Rightarrow>
               (Inr (parts, \<lparr>exch_response = Some t,
                             exch_upload = if has_body then Some upload_channel else None\<rparr>), c)))"

text \<open>The future is taken by the first call; the second is refused.\<close>

definition exchange_response :: "'r exchange \<Rightarrow> (sdk_error + 'r request_task) \<times> 'r exchange" where
  "exchange_response x =
     (case exch_response x of
        None \<Rightarrow> (Inl (sdk_new CodeClosed ''response already taken''), x)
      | Some t \<Rightarrow> (Inr t, x\<lparr>exch_response := None\<rparr>))"

definition exchange_writer :: "'r exchange \<Rightarrow> sdk_error + upload" where
  "exchange_writer x = ok_or (invalid ''request has no upload body'') (exch_upload x)"

section \<open>Incoming requests\<close>

text \<open>The channel of the response: whether its sender is there and its receiver waits, and what was sent.\<close>

record incoming =
  response_sender :: bool
  handler_waits :: bool
  response_sent :: "(nat \<times> header_map) option"

definition incoming_new :: incoming where
  "incoming_new = \<lparr>response_sender = True, handler_waits = True, response_sent = None\<rparr>"

definition status_from :: "nat \<Rightarrow> sdk_error + nat" where
  "status_from n = (if 100 \<le> n \<and> n < 1000 then Inr n else Inl (invalid ''invalid status code''))"

definition respond ::
    "field_parsers \<Rightarrow> nat \<Rightarrow> (string \<times> string) list \<Rightarrow> incoming \<Rightarrow> (sdk_error + upload) \<times> incoming" where
  "respond fp status fs i =
     (case and_then (status_from status) (\<lambda>status.
             if status < 200 then Inl (invalid ''intermediate responses are not supported'')
             else and_then (headers fp fs) (\<lambda>hs. Inr (status, hs))) of
        Inl e \<Rightarrow> (Inl e, i)
      | Inr response \<Rightarrow>
          if \<not> response_sender i then (Inl (sdk_new CodeClosed ''response already sent''), i)
          else if \<not> handler_waits i
          then (Inl (sdk_new CodeClosed ''handler cancelled''), i\<lparr>response_sender := False\<rparr>)
          else (Inr upload_channel, i\<lparr>response_sender := False, response_sent := Some response\<rparr>))"

text \<open>The authority of the handshake that a request carries in its extensions.\<close>

definition incoming_authority :: "'c authority option option \<Rightarrow> sdk_error + 'c authority" where
  "incoming_authority summary =
     ok_or (sdk_new CodeIdentity ''missing local handshake identity'') (Option.bind summary (\<lambda>l. l))"

section \<open>Authorities\<close>

record binding_authority =
  auth_name :: string
  auth_certificates :: "string list"
  auth_public_key :: string
  auth_owner_hash :: string
  auth_identifier :: string

definition authority_new ::
    "(extract_dhttp_ski_error \<Rightarrow> string) \<Rightarrow> (extract_ski_error \<Rightarrow> string) \<Rightarrow> (string \<Rightarrow> extension list option)
      \<Rightarrow> string \<Rightarrow> string list \<Rightarrow> string \<Rightarrow> sdk_error + binding_authority" where
  "authority_new show_dhttp show_ski_error parse name certificates public_key =
     and_then (map_err (\<lambda>e. sdk_new CodeIdentity (show_dhttp e)) (extract_dhttp_ski parse certificates)) (\<lambda>identifier.
     and_then (map_err (\<lambda>e. invalid (show_ski_error e)) (extract_ski parse certificates)) (\<lambda>ski.
       Inr \<lparr>auth_name = name, auth_certificates = certificates, auth_public_key = public_key,
            auth_owner_hash = owner_hash_str (ski_owner_hash identifier),
            auth_identifier = (case ski of Some bytes \<Rightarrow> bytes | None \<Rightarrow> [])\<rparr>))"

section \<open>Explicit peers\<close>

text \<open>The process: the peers, the root certificates configured here, those of TLS, and whether the resolvers are
  added.\<close>

record ('a, 'g) process =
  peers :: "string \<Rightarrow> 'a option"
  configured_roots :: "string option"
  tls_roots :: 'g
  resolvers_added :: bool

fun parse_peers ::
    "(string \<Rightarrow> string + 'a) \<Rightarrow> (string \<times> string) list \<Rightarrow> sdk_error + (string \<times> 'a) list" where
  "parse_peers parse [] = Inr []"
| "parse_peers parse ((name, address) # ps) =
     and_then (ok_or (invalid ''invalid peer name'') (normalize_name name)) (\<lambda>name.
     and_then (map_err invalid (parse address)) (\<lambda>a.
     and_then (parse_peers parse ps) (\<lambda>ps. Inr ((name, a) # ps))))"

text \<open>\<open>pem\<close> reads the certificates; \<open>set_roots\<close> is \<open>qtls::RootCerts::set\<close>.\<close>

definition configure_roots ::
    "(string \<Rightarrow> string + string list) \<Rightarrow> (string list \<Rightarrow> 'g \<Rightarrow> (string + unit) \<times> 'g) \<Rightarrow> string option
      \<Rightarrow> ('a, 'g) process \<Rightarrow> (sdk_error + unit) \<times> ('a, 'g) process" where
  "configure_roots pem set_roots roots w =
     (case roots of
        None \<Rightarrow> (Inr (), w)
      | Some new_roots \<Rightarrow>
          (case configured_roots w of
             Some previous \<Rightarrow>
               (if previous \<noteq> new_roots
                then Inl (invalid ''root certificates already configured for this process'') else Inr (), w)
           | None \<Rightarrow>
               (case pem new_roots of
                  Inl e \<Rightarrow> (Inl (invalid e), w)
                | Inr certificates \<Rightarrow>
                    (case set_roots certificates (tls_roots w) of
                       (Inl e, g) \<Rightarrow> (Inl (invalid e), w\<lparr>tls_roots := g\<rparr>)
                     | (Inr _, g) \<Rightarrow> (Inr (), w\<lparr>tls_roots := g, configured_roots := Some new_roots\<rparr>)))))"

definition extend_peers :: "(string \<times> 'a) list \<Rightarrow> (string \<Rightarrow> 'a option) \<Rightarrow> string \<Rightarrow> 'a option" where
  "extend_peers ps m = foldl (\<lambda>m (name, a). m(name \<mapsto> a)) m ps"

definition binding_init ::
    "(string \<Rightarrow> string + 'a) \<Rightarrow> (string \<Rightarrow> string + string list) \<Rightarrow> (string list \<Rightarrow> 'g \<Rightarrow> (string + unit) \<times> 'g)
      \<Rightarrow> sdk_error + unit \<Rightarrow> (string \<times> string) list \<Rightarrow> string option \<Rightarrow> ('a, 'g) process
      \<Rightarrow> (sdk_error + unit) \<times> ('a, 'g) process" where
  "binding_init parse pem set_roots init ps roots w =
     (case parse_peers parse ps of
        Inl e \<Rightarrow> (Inl e, w)
      | Inr ps \<Rightarrow>
          (case init of
             Inl e \<Rightarrow> (Inl e, w)
           | Inr _ \<Rightarrow>
               (case configure_roots pem set_roots roots w of
                  (Inl e, w) \<Rightarrow> (Inl e, w)
                | (Inr _, w) \<Rightarrow> (Inr (), w\<lparr>resolvers_added := True, peers := extend_peers ps (peers w)\<rparr>))))"

definition peer_lookup :: "('a, 'g) process \<Rightarrow> string \<Rightarrow> io_source + 'a" where
  "peer_lookup w name = ok_or (IoSource ''entity not found'' (Some (Opaque ''no explicit peer''))) (peers w name)"

section \<open>Signatures\<close>

datatype offered_scheme = OfferP256 | OfferP384 | OfferEd25519 | OfferRsaPkcs1

datatype sign_error = SchemeUnsupported | SignFailed string

definition offered_schemes :: "offered_scheme list" where
  "offered_schemes = [OfferP256, OfferP384, OfferEd25519, OfferRsaPkcs1]"

fun sign_first :: "(offered_scheme \<Rightarrow> string \<Rightarrow> sign_error + string) \<Rightarrow> string \<Rightarrow> offered_scheme list \<Rightarrow> sdk_error + string" where
  "sign_first sign data [] = Inl (sdk_new CodeIdentity ''unsupported signing key'')"
| "sign_first sign data (scheme # schemes) =
     (case sign scheme data of
        Inr signature \<Rightarrow> Inr signature
      | Inl SchemeUnsupported \<Rightarrow> sign_first sign data schemes
      | Inl (SignFailed e) \<Rightarrow> Inl (sdk_new CodeIdentity e))"

definition sign_authority :: "(offered_scheme \<Rightarrow> string \<Rightarrow> sign_error + string) \<Rightarrow> string \<Rightarrow> sdk_error + string" where
  "sign_authority sign data = sign_first sign data offered_schemes"

definition client_sign ::
    "(path \<Rightarrow> string) \<Rightarrow> ('k endpoint \<Rightarrow> any_error + (offered_scheme \<Rightarrow> string \<Rightarrow> sign_error + string))
      \<Rightarrow> 'k client \<Rightarrow> string \<Rightarrow> sdk_error + string" where
  "client_sign display build c data =
     and_then (client_local_authority display build c) (\<lambda>authority.
     and_then (ok_or (sdk_new CodeIdentity ''anonymous client cannot sign'') authority) (\<lambda>sign.
       sign_authority sign data))"

definition binding_verify ::
    "(string \<Rightarrow> spki option) \<Rightarrow> (ring_algorithm \<Rightarrow> string \<Rightarrow> string \<Rightarrow> string \<Rightarrow> bool)
      \<Rightarrow> string \<Rightarrow> string \<Rightarrow> string \<Rightarrow> sdk_error + bool" where
  "binding_verify decode verify public_key data signature =
     map_err (\<lambda>_. invalid ''unsupported public key type'') (verify_signature decode verify public_key data signature)"

section \<open>Fields round trip\<close>

lemma headers_from_values:
  "headers_from fp hs fs = Inr hs' \<Longrightarrow>
     \<exists>new. hs' = hs @ new \<and> list_all2 (\<lambda>(n, v) (n', v'). parse_name fp n = Inr n' \<and> parse_value fp v = Inr v') fs new"
proof (induction fp hs fs rule: headers_from.induct)
  case (2 fp hs name v fs)
  then obtain n' v' where p: "parse_name fp name = Inr n'" "parse_value fp v = Inr v'"
    and rec: "headers_from fp (fields_append n' v' hs) fs = Inr hs'"
    by (auto simp: and_then_eq_Inr map_err_def split: sum.splits)
  from 2(1) [of n' v'] p rec obtain new where new: "hs' = fields_append n' v' hs @ new"
    "list_all2 (\<lambda>(n, v) (n', v'). parse_name fp n = Inr n' \<and> parse_value fp v = Inr v') fs new" by auto
  then show ?case using p by (intro exI [of _ "(n', v') # new"]) (simp add: fields_append_def)
qed simp

lemma headers_fixed:
  "\<forall>(n, v) \<in> set fs. parse_name fp n = Inr n \<and> parse_value fp v = Inr v \<Longrightarrow> headers_from fp hs fs = Inr (hs @ fs)"
  by (induction fs arbitrary: hs) (auto simp: and_then_def map_err_def fields_append_def)

lemma values_of_append: "values_of (hs @ hs') n = values_of hs n @ values_of hs' n"
  by (simp add: values_of_def)

lemma values_of_one: "values_of (map (Pair m) vs) n = (if m = n then vs else [])"
  by (induction vs) (auto simp: values_of_def)

lemma values_of_fields:
  "distinct names \<Longrightarrow> values_of (concat (map (\<lambda>name. map (Pair name) (values_of hs name)) names)) n
     = (if n \<in> set names then values_of hs n else [])"
proof (induction names)
  case (Cons m names)
  then show ?case by (auto simp: values_of_append values_of_one)
qed (simp add: values_of_def)

lemma values_of_none: "n \<notin> fst ` set hs \<Longrightarrow> values_of hs n = []"
  by (induction hs) (auto simp: values_of_def)

text \<open>The fields of a header map, given back, make a map with the same values for each name in the same order.\<close>

lemma fields_round_trip:
  assumes "\<forall>(n, v) \<in> set hs. parse_name fp n = Inr n \<and> parse_value fp v = Inr v"
    and "set (order (remdups (map fst hs))) = fst ` set hs" "distinct (order (remdups (map fst hs)))"
  shows "\<exists>hs'. headers fp (header_fields order hs) = Inr hs' \<and> (\<forall>n. values_of hs' n = values_of hs n)"
proof -
  have "values_of hs n = map snd (filter (\<lambda>(m, _). m = n) hs)" for n by (simp add: values_of_def)
  then have "\<forall>(n, v) \<in> set (header_fields order hs). (n, v) \<in> set hs" by (auto simp: header_fields_def)
  then have "\<forall>(n, v) \<in> set (header_fields order hs). parse_name fp n = Inr n \<and> parse_value fp v = Inr v" using assms(1) by auto
  then have "headers fp (header_fields order hs) = Inr (header_fields order hs)" by (simp add: headers_def headers_fixed)
  moreover have "values_of (header_fields order hs) n = values_of hs n" for n
    using values_of_fields [OF assms(3), of hs n] values_of_none [of n hs] assms(2) by (auto simp: header_fields_def)
  ultimately show ?thesis by blast
qed

text \<open>The scopes of a list of names: those named, if there are some and all are known.\<close>

definition scopes_named :: "string list \<Rightarrow> listen_scope set" where
  "scopes_named names = {scope. \<exists>name \<in> set names. scope_from_name name = Inr scope}"

lemma scopes_named_Cons: "scope_from_name name = Inr scope \<Longrightarrow> scopes_named (name # names) = insert scope (scopes_named names)"
  by (auto simp: scopes_named_def)

lemma add_scopes_Some:
  "add_scopes (Some acc) names =
     (if \<forall>name \<in> set names. \<exists>scope. scope_from_name name = Inr scope then Inr (Some (acc \<union> scopes_named names))
      else add_scopes (Some acc) names)
   \<and> (add_scopes (Some acc) names = Inr r \<longrightarrow> (\<forall>name \<in> set names. \<exists>scope. scope_from_name name = Inr scope))"
proof (induction names arbitrary: acc)
  case (Cons name names)
  show ?case
  proof (cases "scope_from_name name")
    case (Inr scope)
    then show ?thesis using Cons.IH [of "insert scope acc"] by (auto simp: and_then_def scopes_named_Cons)
  qed (auto simp: and_then_def)
qed (simp add: scopes_named_def)

lemma scopes_from_names:
  "scopes_from names = Inr ss \<longleftrightarrow>
     names \<noteq> [] \<and> (\<forall>name \<in> set names. \<exists>scope. scope_from_name name = Inr scope) \<and> ss = scopes_named names"
proof (cases names)
  case (Cons name rest)
  show ?thesis
  proof (cases "scope_from_name name")
    case (Inr scope)
    then show ?thesis using add_scopes_Some [of "{scope}" rest "Some ss"] Cons
      by (auto simp: scopes_from_def and_then_def ok_or_def scopes_named_Cons split: sum.splits option.splits)
  qed (auto simp: scopes_from_def and_then_def Cons)
qed (simp add: scopes_from_def and_then_def ok_or_def)

section \<open>One response\<close>

lemma respond_once:
  assumes "respond fp status fs i = (Inr w, i')"
  shows "200 \<le> status \<and> status < 1000 \<and> response_sender i \<and> handler_waits i
    \<and> (\<exists>hs. headers fp fs = Inr hs \<and> response_sent i' = Some (status, hs))
    \<and> (\<forall>status' fs'. \<exists>e. respond fp status' fs' i' = (Inl e, i'))"
  using assms
  by (auto simp: respond_def status_from_def and_then_def split: sum.splits if_splits)

section \<open>Peers and roots\<close>

lemma extend_peers_map: "extend_peers ps m = m ++ map_of (rev ps)"
  by (induction ps arbitrary: m) (auto simp: extend_peers_def map_add_def fun_eq_iff split: option.splits)

lemma parse_peers_canonical: "parse_peers parse ps = Inr qs \<Longrightarrow> (n, a) \<in> set qs \<Longrightarrow> canonical n"
proof (induction ps arbitrary: qs)
  case (Cons p ps)
  obtain name address where p: "p = (name, address)" by force
  with Cons.prems(1) obtain m b rest where "normalize_name name = Some m" "parse_peers parse ps = Inr rest"
    "qs = (m, b) # rest" by (auto simp: and_then_eq_Inr ok_or_def split: option.splits)
  then show ?case using Cons normalize_name_canonical by auto
qed simp

lemma configure_roots_result:
  "configure_roots pem set_roots roots w = (r, w') \<Longrightarrow>
     peers w' = peers w
     \<and> (r \<noteq> Inr () \<longrightarrow> configured_roots w' = configured_roots w)
     \<and> (r = Inr () \<longrightarrow> roots = None \<and> w' = w \<or> configured_roots w' = roots)
     \<and> (configured_roots w \<noteq> None \<longrightarrow> w' = w)"
  by (auto simp: configure_roots_def split: option.splits sum.splits prod.splits if_splits)

text \<open>An initialisation that fails changes no peer; one that succeeds adds the peers under their names in the
  standard form, the last of a name counting; root certificates configured once are never exchanged.\<close>

lemma binding_init_result:
  assumes "binding_init parse pem set_roots init ps roots w = (r, w')"
  shows "(r \<noteq> Inr () \<longrightarrow> peers w' = peers w \<and> configured_roots w' = configured_roots w)
    \<and> (r = Inr () \<longrightarrow> resolvers_added w' \<and> init = Inr ()
        \<and> (\<exists>qs. parse_peers parse ps = Inr qs \<and> peers w' = peers w ++ map_of (rev qs)
             \<and> (\<forall>(n, a) \<in> set qs. canonical n))
        \<and> (roots = None \<or> configured_roots w' = roots))
    \<and> (\<forall>x. configured_roots w = Some x \<longrightarrow> configured_roots w' = Some x \<and> tls_roots w' = tls_roots w)"
proof (cases "parse_peers parse ps")
  case (Inl e)
  then show ?thesis using assms by (auto simp: binding_init_def)
next
  case (Inr qs)
  show ?thesis
  proof (cases init)
    case Inl
    then show ?thesis using assms Inr by (auto simp: binding_init_def)
  next
    case init: (Inr u)
    obtain r1 w1 where c: "configure_roots pem set_roots roots w = (r1, w1)" by force
    from configure_roots_result [OF c] show ?thesis
      using assms Inr init c parse_peers_canonical [OF Inr]
      by (cases r1) (auto simp: binding_init_def extend_peers_map)
  qed
qed

section \<open>Signatures\<close>

text \<open>What a key of TLS promises for its public key: it signs only under the scheme of its kind and the signature
  verifies under the algorithm of that scheme.  The algorithms the code can verify leave out PKCS 1.\<close>

definition signer_contract ::
    "(string \<Rightarrow> spki option) \<Rightarrow> (ring_algorithm \<Rightarrow> string \<Rightarrow> string \<Rightarrow> string \<Rightarrow> bool)
      \<Rightarrow> (offered_scheme \<Rightarrow> string \<Rightarrow> sign_error + string) \<Rightarrow> string \<Rightarrow> bool" where
  "signer_contract decode verify sign public_key \<longleftrightarrow>
     (\<forall>scheme data signature. sign scheme data = Inr signature \<longrightarrow>
        (\<exists>k. decode public_key = Some k \<and>
          (case scheme of
             OfferP256 \<Rightarrow> spki_algorithm k = OID_KEY_TYPE_EC_PUBLIC_KEY \<and> spki_parameters k = Some OID_EC_P256
               \<and> verify ECDSA_P256_SHA256_ASN1 (spki_key k) data signature
           | OfferP384 \<Rightarrow> spki_algorithm k = OID_KEY_TYPE_EC_PUBLIC_KEY \<and> spki_parameters k = Some OID_NIST_EC_P384
               \<and> verify ECDSA_P384_SHA384_ASN1 (spki_key k) data signature
           | OfferEd25519 \<Rightarrow> spki_algorithm k = OID_SIG_ED25519 \<and> verify Ed25519 (spki_key k) data signature
           | OfferRsaPkcs1 \<Rightarrow> spki_algorithm k = OID_PKCS1_RSAENCRYPTION)))"

lemma sign_first_scheme:
  "sign_first sign data schemes = Inr signature \<Longrightarrow> \<exists>scheme \<in> set schemes. sign scheme data = Inr signature"
  by (induction schemes) (auto split: sum.splits sign_error.splits)

lemma client_sign_scheme:
  "client_sign display build c data = Inr signature \<Longrightarrow>
     \<exists>e sign scheme. client_endpoint c = Some e \<and> \<not> scope_closed (client_scope c) \<and> build e = Inr sign
       \<and> sign scheme data = Inr signature"
  by (auto simp: client_sign_def client_local_authority_def and_then_eq_Inr ok_or_def ensure_open_def
      endpoint_authority_def sign_authority_def dest!: sign_first_scheme split: option.splits if_splits)

lemma verify_by_scheme:
  assumes "signer_contract decode verify sign public_key" "sign scheme data = Inr signature"
  shows "\<exists>k. decode public_key = Some k
    \<and> (spki_algorithm k = OID_PKCS1_RSAENCRYPTION \<longleftrightarrow> scheme = OfferRsaPkcs1)
    \<and> binding_verify decode verify public_key data signature =
        Inr (scheme \<noteq> OfferRsaPkcs1 \<or> verify RSA_PSS_2048_8192_SHA512 (spki_key k) data signature)"
proof -
  from assms obtain k where "decode public_key = Some k" and
    "case scheme of
       OfferP256 \<Rightarrow> spki_algorithm k = OID_KEY_TYPE_EC_PUBLIC_KEY \<and> spki_parameters k = Some OID_EC_P256
         \<and> verify ECDSA_P256_SHA256_ASN1 (spki_key k) data signature
     | OfferP384 \<Rightarrow> spki_algorithm k = OID_KEY_TYPE_EC_PUBLIC_KEY \<and> spki_parameters k = Some OID_NIST_EC_P384
         \<and> verify ECDSA_P384_SHA384_ASN1 (spki_key k) data signature
     | OfferEd25519 \<Rightarrow> spki_algorithm k = OID_SIG_ED25519 \<and> verify Ed25519 (spki_key k) data signature
     | OfferRsaPkcs1 \<Rightarrow> spki_algorithm k = OID_PKCS1_RSAENCRYPTION"
    unfolding signer_contract_def by blast
  then show ?thesis
    by (cases scheme) (auto simp: binding_verify_def verify_signature_def canonical_verification_scheme_def
        and_then_def map_err_def)
qed

text \<open>
  C40: What a handle signs verifies with its public key, unless the key is an RSA key.  A signature is only given
  by an open handle with an endpoint, by that endpoint's key.  For elliptic curve and Ed25519 keys the
  verification of the same bindings accepts it.  An RSA key signs with PKCS 1 padding, while the verification
  takes an RSA key for PSS: the answer is whether the PKCS 1 signature happens to be a PSS signature.
\<close>

theorem signatures_verify:
  assumes sign: "client_sign display build c data = Inr signature"
    and keys: "\<And>e s. build e = Inr s \<Longrightarrow> signer_contract decode verify s (public_key e)"
  shows "\<exists>e k. client_endpoint c = Some e \<and> \<not> scope_closed (client_scope c) \<and> decode (public_key e) = Some k
    \<and> (spki_algorithm k \<noteq> OID_PKCS1_RSAENCRYPTION \<longrightarrow>
         binding_verify decode verify (public_key e) data signature = Inr True)
    \<and> (spki_algorithm k = OID_PKCS1_RSAENCRYPTION \<longrightarrow>
         (\<exists>s. build e = Inr s \<and> s OfferRsaPkcs1 data = Inr signature)
         \<and> binding_verify decode verify (public_key e) data signature
             = Inr (verify RSA_PSS_2048_8192_SHA512 (spki_key k) data signature))"
proof -
  from client_sign_scheme [OF sign] obtain e s scheme where e: "client_endpoint c = Some e"
    "\<not> scope_closed (client_scope c)" "build e = Inr s" "s scheme data = Inr signature" by blast
  from verify_by_scheme [OF keys [OF e(3)] e(4)] obtain k where
    "decode (public_key e) = Some k" "spki_algorithm k = OID_PKCS1_RSAENCRYPTION \<longleftrightarrow> scheme = OfferRsaPkcs1"
    "binding_verify decode verify (public_key e) data signature =
        Inr (scheme \<noteq> OfferRsaPkcs1 \<or> verify RSA_PSS_2048_8192_SHA512 (spki_key k) data signature)" by blast
  then show ?thesis using e by (intro exI [of _ e] exI [of _ k]) auto
qed

text \<open>A key that signs with an elliptic curve.\<close>

theorem signatures_verify_witness:
  "client_sign (\<lambda>_. []) (\<lambda>_. Inr (\<lambda>scheme data. if scheme = OfferP384 then Inr (''s'' @ data) else Inl SchemeUnsupported))
      (client_from_endpoint (example_endpoint ''c1'' ''s1'')) ''m'' = Inr ''sm''
   \<and> binding_verify (\<lambda>_. Some \<lparr>spki_algorithm = OID_KEY_TYPE_EC_PUBLIC_KEY, spki_parameters = Some OID_NIST_EC_P384, spki_key = ''k''\<rparr>)
       (\<lambda>algorithm _ data signature. algorithm = ECDSA_P384_SHA384_ASN1 \<and> signature = ''s'' @ data) ''key'' ''m'' ''sm'' = Inr True"
proof -
  let ?s = "\<lambda>scheme data. if scheme = OfferP384 then Inr (''s'' @ data) else Inl SchemeUnsupported"
  let ?b = "\<lambda>_ :: unit endpoint. Inr ?s :: any_error + (offered_scheme \<Rightarrow> string \<Rightarrow> sign_error + string)"
  let ?d = "\<lambda>_ :: string. Some \<lparr>spki_algorithm = OID_KEY_TYPE_EC_PUBLIC_KEY, spki_parameters = Some OID_NIST_EC_P384, spki_key = ''k''\<rparr>"
  let ?v = "\<lambda>algorithm (_ :: string) data signature. algorithm = ECDSA_P384_SHA384_ASN1 \<and> signature = ''s'' @ data"
  have sign: "client_sign (\<lambda>_. []) ?b (client_from_endpoint (example_endpoint ''c1'' ''s1'')) ''m'' = Inr ''sm''"
    by (simp add: client_sign_def client_local_authority_def client_from_endpoint_def client_new_def scope_new_def
        ensure_open_def and_then_def map_err_def ok_or_def endpoint_authority_def sign_authority_def offered_schemes_def)
  have "signer_contract ?d ?v ?s ''key''" by (auto simp: signer_contract_def split: offered_scheme.splits if_splits)
  then have "signer_contract ?d ?v s ''key''" if "?b e = Inr s" for e s using that by simp
  from signatures_verify [OF sign this] sign show ?thesis by auto
qed

text \<open>Where PKCS 1 signatures are no PSS signatures, the bindings refuse every signature of an RSA key of their
  own.\<close>

lemma rsa_signatures_refused:
  assumes "signer_contract decode verify sign public_key" "sign_authority sign data = Inr signature"
    and "decode public_key = Some k" "spki_algorithm k = OID_PKCS1_RSAENCRYPTION"
    and pkcs1_not_pss: "\<And>signature. sign OfferRsaPkcs1 data = Inr signature \<Longrightarrow>
      \<not> verify RSA_PSS_2048_8192_SHA512 (spki_key k) data signature"
  shows "binding_verify decode verify public_key data signature = Inr False"
proof -
  obtain scheme where "sign scheme data = Inr signature"
    using sign_first_scheme assms(2) unfolding sign_authority_def by blast
  with verify_by_scheme [OF assms(1) this] assms(3,4) pkcs1_not_pss show ?thesis by auto
qed

end
