(* ===== verification/Natives.thy ===== *)
theory Natives
  imports Bindings
begin

text \<open>
  The two languages: the crate \<open>dhttp-api\<close>, files \<open>api/src/napi.rs\<close> and \<open>api/src/python.rs\<close>.  The objects both give
  to their language wrap those of the bindings; their methods are the same code up to the translation of
  errors, the argument \<open>err\<close> here.  What the language does in a callback is an argument: how the call and
  what it returned ended, what was done to the incoming request, and whether the language still holds it.
\<close>

section \<open>Errors at the border\<close>

record native_error =
  native_code :: string
  native_message :: string
  native_protocol_code :: "64 word option"

text \<open>The exception of Python carries the three as its text and its attributes.\<close>

definition python_err :: "sdk_error \<Rightarrow> native_error" where
  "python_err e =
     \<lparr>native_code = error_code_as_str (sdk_code e), native_message = sdk_message e,
      native_protocol_code = sdk_protocol_code e\<rparr>"

text \<open>The reason of the error of Node is a JSON object of the three; \<open>json\<close> prints it.\<close>

definition napi_err :: "(native_error \<Rightarrow> string) \<Rightarrow> sdk_error \<Rightarrow> string" where
  "napi_err json e =
     json \<lparr>native_code = error_code_as_str (sdk_code e), native_message = sdk_message e,
           native_protocol_code = sdk_protocol_code e\<rparr>"

definition callback_error :: "string \<Rightarrow> sdk_error" where
  "callback_error reason = sdk_new CodeProducer reason"

definition producer :: "string \<Rightarrow> sdk_error" where
  "producer text = sdk_new CodeProducer text"

section \<open>Initialisation\<close>

fun napi_peers :: "string list list \<Rightarrow> sdk_error + (string \<times> string) list" where
  "napi_peers [] = Inr []"
| "napi_peers ([name, address] # pairs) =
     and_then (napi_peers pairs) (\<lambda>ps. Inr ((name, address) # ps))"
| "napi_peers (_ # pairs) = Inl (invalid ''peer must be [name, address]'')"

definition napi_init ::
    "(sdk_error \<Rightarrow> 'x) \<Rightarrow> (string \<Rightarrow> string + 'a) \<Rightarrow> (string \<Rightarrow> string + string list)
      \<Rightarrow> (string list \<Rightarrow> 'g \<Rightarrow> (string + unit) \<times> 'g) \<Rightarrow> sdk_error + unit \<Rightarrow> string list list \<Rightarrow> string option
      \<Rightarrow> ('a, 'g) process \<Rightarrow> ('x + unit) \<times> ('a, 'g) process" where
  "napi_init err parse pem set_roots init pairs roots w =
     (case napi_peers pairs of
        Inl e \<Rightarrow> (Inl (err e), w)
      | Inr ps \<Rightarrow>
          (case binding_init parse pem set_roots init ps roots w of (r, w) \<Rightarrow> (map_err err r, w)))"

definition python_init ::
    "(sdk_error \<Rightarrow> 'x) \<Rightarrow> (string \<Rightarrow> string + 'a) \<Rightarrow> (string \<Rightarrow> string + string list)
      \<Rightarrow> (string list \<Rightarrow> 'g \<Rightarrow> (string + unit) \<times> 'g) \<Rightarrow> sdk_error + unit \<Rightarrow> (string \<times> string) list \<Rightarrow> string option
      \<Rightarrow> ('a, 'g) process \<Rightarrow> ('x + unit) \<times> ('a, 'g) process" where
  "python_init err parse pem set_roots init ps roots w =
     (case binding_init parse pem set_roots init ps roots w of (r, w) \<Rightarrow> (map_err err r, w))"

section \<open>Handlers\<close>

text \<open>\<open>response.await\<close>: what was sent, an error once the sender is gone; it waits while the language holds it.\<close>

definition response_await :: "bool \<Rightarrow> incoming \<Rightarrow> (sdk_error + nat \<times> header_map) option" where
  "response_await held i =
     (case response_sent i of
        Some r \<Rightarrow> Some (Inr r)
      | None \<Rightarrow>
          if response_sender i \<and> held then None
          else Some (Inl (sdk_new CodeProducer ''handler did not return a response'')))"

text \<open>A promise, or the coroutine of Python: how awaiting it ends.\<close>

datatype promise = Resolves | Rejects string | NeverSettles

datatype napi_call = CallFails string | CallReturns "promise option"

definition napi_answer :: "napi_call \<Rightarrow> bool \<Rightarrow> incoming \<Rightarrow> (sdk_error + nat \<times> header_map) option" where
  "napi_answer result held i =
     (case result of
        CallFails reason \<Rightarrow> Some (Inl (callback_error reason))
      | CallReturns (Some (Rejects reason)) \<Rightarrow> Some (Inl (callback_error reason))
      | CallReturns (Some NeverSettles) \<Rightarrow> None
      | CallReturns _ \<Rightarrow> response_await held i)"

text \<open>The first step of Python is one attached block: making the object, the call, and making a future.\<close>

datatype python_call = BlockRaises string | GivesFuture promise

definition python_answer :: "python_call \<Rightarrow> bool \<Rightarrow> incoming \<Rightarrow> (sdk_error + nat \<times> header_map) option" where
  "python_answer result held i =
     (case result of
        BlockRaises e \<Rightarrow> Some (Inl (producer e))
      | GivesFuture (Rejects e) \<Rightarrow> Some (Inl (producer e))
      | GivesFuture NeverSettles \<Rightarrow> None
      | GivesFuture Resolves \<Rightarrow> response_await held i)"

text \<open>\<open>NativeIncoming::respond\<close>, and a handler that calls it with each of a list of responses.\<close>

definition native_respond ::
    "(sdk_error \<Rightarrow> 'x) \<Rightarrow> field_parsers \<Rightarrow> nat \<Rightarrow> (string \<times> string) list \<Rightarrow> incoming \<Rightarrow> ('x + upload) \<times> incoming" where
  "native_respond err fp status fs i =
     (case respond fp status fs i of (r, i) \<Rightarrow> (map_err err r, i))"

fun respond_each ::
    "(sdk_error \<Rightarrow> 'x) \<Rightarrow> field_parsers \<Rightarrow> (nat \<times> (string \<times> string) list) list \<Rightarrow> incoming \<Rightarrow> incoming" where
  "respond_each err fp [] i = i"
| "respond_each err fp ((status, fs) # rs) i = respond_each err fp rs (snd (native_respond err fp status fs i))"

section \<open>Clients and exchanges\<close>

text \<open>Every request and every listener first initialises the process without new peers.\<close>

definition native_start where
  "native_start err parse pem set_roots init fp build http_method u fs has_body timeout owner_text trailers c w =
     (case binding_init parse pem set_roots init [] None w of
        (Inl e, w) \<Rightarrow> (Inl (err e), c, w)
      | (Inr _, w) \<Rightarrow>
          (case exchange_start fp build http_method u fs has_body timeout owner_text trailers c of
             (r, c) \<Rightarrow> (map_err err r, c, w)))"

definition native_listen where
  "native_listen err parse pem set_roots init display core_init ops sc names service c n w =
     (case binding_init parse pem set_roots init [] None w of
        (Inl e, w) \<Rightarrow> (Inl (err e), c, n, w)
      | (Inr _, w) \<Rightarrow>
          (case scopes_from names of
             Inl e \<Rightarrow> (Inl (err e), c, n, w)
           | Inr ss \<Rightarrow>
               (case client_listen display core_init ops (sc ss) service c n of
                  (r, c, n) \<Rightarrow> (map_err err r, c, n, w))))"

text \<open>\<open>authority_of\<close> is \<open>binding::Authority::local\<close> or \<open>remote\<close>; both objects are optional.\<close>

definition native_authority :: "(sdk_error \<Rightarrow> 'x) \<Rightarrow> ('a \<Rightarrow> sdk_error + 'b) \<Rightarrow> 'a option \<Rightarrow> 'x + 'b option" where
  "native_authority err authority_of a =
     (case a of
        None \<Rightarrow> Inr None
      | Some a \<Rightarrow> map_err err (and_then (authority_of a) (\<lambda>b. Inr (Some b))))"

definition native_local_authority where
  "native_local_authority err display build authority_of c =
     and_then (map_err err (client_local_authority display build c)) (native_authority err authority_of)"

text \<open>The first poll of a call on a writer: its event, a refusal translated.\<close>

definition native_event :: "(sdk_error \<Rightarrow> 'x) \<Rightarrow> upload_event \<Rightarrow> 'x + upload_event" where
  "native_event err ev = (case ev of upload_event.Rejected e \<Rightarrow> Inl (err e) | _ \<Rightarrow> Inr ev)"

definition upload_write ::
    "(sdk_error \<Rightarrow> 'x) \<Rightarrow> string \<Rightarrow> upload \<Rightarrow> (('x + upload_event) \<times> upload) option" where
  "upload_write err bytes u = map_option (\<lambda>(ev, u). (native_event err ev, u)) (send bytes u)"

definition upload_finish ::
    "(sdk_error \<Rightarrow> 'x) \<Rightarrow> field_parsers \<Rightarrow> (string \<times> string) list \<Rightarrow> upload \<Rightarrow> (('x + upload_event) \<times> upload) option" where
  "upload_finish err fp trailers u =
     (case headers fp trailers of
        Inl e \<Rightarrow> Some (Inl (err e), u)
      | Inr ts \<Rightarrow> map_option (\<lambda>(ev, u). (native_event err ev, u)) (finish_upload ts u))"

definition native_write ::
    "(sdk_error \<Rightarrow> 'x) \<Rightarrow> string \<Rightarrow> 'r exchange \<Rightarrow> (('x + upload_event) \<times> 'r exchange) option" where
  "native_write err bytes x =
     (case exchange_writer x of
        Inl e \<Rightarrow> Some (Inl (err e), x)
      | Inr u \<Rightarrow> map_option (\<lambda>(ev, u). (native_event err ev, x\<lparr>exch_upload := Some u\<rparr>)) (send bytes u))"

definition native_finish ::
    "(sdk_error \<Rightarrow> 'x) \<Rightarrow> field_parsers \<Rightarrow> (string \<times> string) list \<Rightarrow> 'r exchange
      \<Rightarrow> (('x + upload_event) \<times> 'r exchange) option" where
  "native_finish err fp trailers x =
     (case exchange_writer x of
        Inl e \<Rightarrow> Some (Inl (err e), x)
      | Inr u \<Rightarrow>
          (case headers fp trailers of
             Inl e \<Rightarrow> Some (Inl (err e), x)
           | Inr ts \<Rightarrow> map_option (\<lambda>(ev, u). (native_event err ev, x\<lparr>exch_upload := Some u\<rparr>)) (finish_upload ts u)))"

definition native_fail :: "string \<Rightarrow> 'r exchange \<Rightarrow> 'r exchange" where
  "native_fail message x = x\<lparr>exch_upload := map_option (fail_upload (sdk_new CodeProducer message)) (exch_upload x)\<rparr>"

definition native_closed :: "bool \<Rightarrow> 'r exchange \<Rightarrow> bool" where
  "native_closed cloned x = (case exch_upload x of None \<Rightarrow> True | Some u \<Rightarrow> upload_closed cloned u)"

section \<open>Reading\<close>

definition native_read :: "(sdk_error \<Rightarrow> 'x) \<Rightarrow> receive \<Rightarrow> ('x + receive_event) \<times> receive" where
  "native_read err r =
     (case next_call r of (NextFailed e, r) \<Rightarrow> (Inl (err e), r) | (ev, r) \<Rightarrow> (Inr ev, r))"

text \<open>\<open>order\<close> is the order in which the map iterates.\<close>

definition native_trailers ::
    "(sdk_error \<Rightarrow> 'x) \<Rightarrow> (string list \<Rightarrow> string list) \<Rightarrow> receive \<Rightarrow> ('x + (string \<times> string) list) option" where
  "native_trailers err order r =
     (case poll_trailers r of
        Some (TrailersGiven hs, _) \<Rightarrow> Some (Inr (header_fields order hs))
      | Some (TrailersFailed e, _) \<Rightarrow> Some (Inl (err e))
      | _ \<Rightarrow> None)"

section \<open>Facts\<close>

text \<open>What crosses the border is the category, the text and the protocol code, and nothing of them is lost.\<close>

lemma error_code_text_distinct: "error_code_as_str a = error_code_as_str b \<Longrightarrow> a = b"
  by (cases a; cases b; simp add: error_code_as_str_def)

lemma border_error_exact:
  "python_err e = python_err e' \<longleftrightarrow>
     sdk_code e = sdk_code e' \<and> sdk_message e = sdk_message e' \<and> sdk_protocol_code e = sdk_protocol_code e'"
  by (auto simp: python_err_def dest: error_code_text_distinct)

lemma napi_init_python:
  "napi_init err parse pem set_roots init (map (\<lambda>(n, a). [n, a]) ps) roots w
     = python_init err parse pem set_roots init ps roots w"
proof -
  have "napi_peers (map (\<lambda>(n, a). [n, a]) ps) = Inr ps" by (induction ps) auto
  then show ?thesis by (simp add: napi_init_def python_init_def)
qed

text \<open>A call of Node and the call of Python that does the same: a plain return is a future that resolves.\<close>

fun same_call :: "napi_call \<Rightarrow> python_call" where
  "same_call (CallFails reason) = BlockRaises reason"
| "same_call (CallReturns None) = GivesFuture Resolves"
| "same_call (CallReturns (Some p)) = GivesFuture p"

lemma languages_agree: "napi_answer call held i = python_answer (same_call call) held i"
  by (cases call rule: same_call.cases)
    (simp_all add: napi_answer_def python_answer_def callback_error_def producer_def split: promise.splits)

definition answerable :: "field_parsers \<Rightarrow> nat \<times> (string \<times> string) list \<Rightarrow> bool" where
  "answerable fp = (\<lambda>(status, fs). 200 \<le> status \<and> status < 1000 \<and> is_ok (headers fp fs))"

definition response_of :: "field_parsers \<Rightarrow> nat \<times> (string \<times> string) list \<Rightarrow> nat \<times> header_map" where
  "response_of fp = (\<lambda>(status, fs). (status, projr (headers fp fs)))"

lemma native_respond_state:
  "snd (native_respond err fp status fs i) =
     (if \<not> answerable fp (status, fs) \<or> \<not> response_sender i then i
      else if handler_waits i
      then i\<lparr>response_sender := False, response_sent := Some (response_of fp (status, fs))\<rparr>
      else i\<lparr>response_sender := False\<rparr>)"
  by (auto simp: native_respond_def respond_def status_from_def answerable_def response_of_def
      and_then_def is_ok_def split: sum.splits prod.splits)

lemma respond_each_sent:
  "\<not> response_sender i \<Longrightarrow> respond_each err fp rs i = i"
  by (induction rs arbitrary: i) (auto simp: native_respond_state)

lemma respond_each_first:
  assumes "response_sender i" "handler_waits i"
  shows "respond_each err fp rs i =
     (case find (answerable fp) rs of
        None \<Rightarrow> i
      | Some r \<Rightarrow> i\<lparr>response_sender := False, response_sent := Some (response_of fp r)\<rparr>)"
  using assms
proof (induction rs)
  case (Cons r rs)
  then show ?case
    by (cases r) (auto simp: native_respond_state respond_each_sent)
qed simp

text \<open>C30: a request is answered with the first acceptable response its handler gave, in either language,
  whatever else the handler tried to answer before or after it; a handler that ended without one is an
  error of the producer once the language let go of the request, and until then the request waits; a
  handler that failed is an error of the producer with its reason, even if it had responded.\<close>

theorem handler_answers:
  "napi_answer call held (respond_each err fp rs incoming_new) =
     (case same_call call of
        BlockRaises reason \<Rightarrow> Some (Inl (sdk_new CodeProducer reason))
      | GivesFuture (Rejects reason) \<Rightarrow> Some (Inl (sdk_new CodeProducer reason))
      | GivesFuture NeverSettles \<Rightarrow> None
      | GivesFuture Resolves \<Rightarrow>
          (case find (answerable fp) rs of
             Some r \<Rightarrow> Some (Inr (response_of fp r))
           | None \<Rightarrow> if held then None
               else Some (Inl (sdk_new CodeProducer ''handler did not return a response''))))
   \<and> python_answer (same_call call) held (respond_each err fp rs incoming_new)
       = napi_answer call held (respond_each err fp rs incoming_new)"
proof -
  have "respond_each err fp rs incoming_new =
     (case find (answerable fp) rs of
        None \<Rightarrow> incoming_new
      | Some r \<Rightarrow> incoming_new\<lparr>response_sender := False, response_sent := Some (response_of fp r)\<rparr>)"
    by (rule respond_each_first) (simp_all add: incoming_new_def)
  then show ?thesis
    unfolding languages_agree
    by (auto simp: python_answer_def producer_def response_await_def incoming_new_def
        split: python_call.splits promise.splits option.splits)
qed

text \<open>Trailers that are refused leave the upload as it was, so the call can be made again; accepted ones are
  what the writer finishes with.\<close>

lemma native_finish_trailers:
  assumes "exch_upload x = Some u"
  shows "native_finish err fp trailers x =
     (case headers fp trailers of
        Inl e \<Rightarrow> Some (Inl (err e), x)
      | Inr ts \<Rightarrow> map_option (\<lambda>(r, u). (r, x\<lparr>exch_upload := Some u\<rparr>)) (upload_finish err fp trailers u))"
  using assms
  by (cases "finish_upload (projr (headers fp trailers)) u")
    (auto simp: native_finish_def upload_finish_def exchange_writer_def split: sum.splits prod.splits)

end
