(* ===== verification/Settings.thy ===== *)
theory Settings
  imports Profiles
begin

text \<open>
  The crate \<open>dhttp-home\<close>, files \<open>home/src/identity/settings.rs\<close> and \<open>home/src/identity/management.rs\<close>
  (module \<open>settings_integration\<close>): the settings file of a home, the default identity it names, the
  place in the text that an error is reported at, and the profile the default resolves to.  The name
  type of the crate \<open>dhttp-identity\<close> is the type variable \<open>'n\<close> with its \<open>as_full\<close>; the TOML reader and
  printer are the parameters \<open>from_toml\<close> and \<open>to_toml\<close>.  Offsets are \<open>nat\<close>: they never exceed the length
  of a text in memory.
\<close>

section \<open>The settings\<close>

record 'n spanned =
  span :: "nat \<times> nat"
  inner :: 'n

record 'n dhttp_settings =
  default_name :: "'n spanned option"

definition FILE_NAME :: string where "FILE_NAME = ''settings.toml''"

definition default_settings :: "'n dhttp_settings" where
  "default_settings = \<lparr>default_name = None\<rparr>"

definition default_identity_name :: "'n dhttp_settings \<Rightarrow> 'n option" where
  "default_identity_name s = map_option inner (default_name s)"

definition set_default_identity_name :: "'n \<Rightarrow> 'n dhttp_settings \<Rightarrow> 'n dhttp_settings" where
  "set_default_identity_name name s =
     (let kept = (case default_name s of Some spanned \<Rightarrow> span spanned | None \<Rightarrow> (0, 0))
      in s\<lparr>default_name := Some \<lparr>span = kept, inner = name\<rparr>\<rparr>)"

record 'n settings_file =
  file_path :: path
  content :: "string option"
  settings :: "'n dhttp_settings"

definition settings_file_new :: "path \<Rightarrow> 'n settings_file" where
  "settings_file_new path = \<lparr>file_path = path, content = None, settings = default_settings\<rparr>"

section \<open>Lines and columns\<close>

record line_col =
  line :: nat
  column :: nat

text \<open>The characters of a text, each by its first byte, which for a newline is the character.\<close>

definition str_chars :: "string \<Rightarrow> string" where
  "str_chars s = filter (\<lambda>c. \<not> cont c) s"

definition locate_step :: "line_col \<Rightarrow> char \<Rightarrow> line_col" where
  "locate_step before c =
     (if c = CHR 0x0A then \<lparr>line = line before + 1, column = 1\<rparr>
      else \<lparr>line = line before, column = column before + 1\<rparr>)"

fun locate_from :: "nat \<Rightarrow> nat \<Rightarrow> line_col \<Rightarrow> string \<Rightarrow> line_col" where
  "locate_from offset index before [] = before"
| "locate_from offset index before (c # cs) =
     (let current = locate_step before c in
      if index = offset then current else locate_from offset (index + 1) current cs)"

definition locate :: "string \<Rightarrow> nat \<Rightarrow> line_col" where
  "locate source offset = locate_from offset 0 \<lparr>line = 1, column = 1\<rparr> (str_chars source)"

definition show_line_col :: "line_col \<Rightarrow> string" where
  "show_line_col l = show_nat (line l) @ '':'' @ show_nat (column l)"

record file_line_col =
  located_path :: path
  located :: line_col

definition show_file_line_col :: "(path \<Rightarrow> string) \<Rightarrow> file_line_col \<Rightarrow> string" where
  "show_file_line_col display l = display (located_path l) @ '':'' @ show_line_col (located l)"

definition file_locate :: "'n settings_file \<Rightarrow> nat \<Rightarrow> file_line_col option" where
  "file_locate f offset =
     (case content f of
        None \<Rightarrow> None
      | Some source \<Rightarrow> Some \<lparr>located_path = file_path f, located = locate source offset\<rparr>)"

section \<open>Loading and saving\<close>

text \<open>
  The files by path, with the failures the system reports.  A failing write has left the file as it
  was (\<open>None\<close>) or has left the first \<open>k\<close> bytes of the new text in it.
\<close>

record text_files =
  texts :: "path \<Rightarrow> string option"
  read_fault :: "path \<Rightarrow> io_error option"
  write_fault :: "path \<Rightarrow> (io_error \<times> nat option) option"

definition read_to_string :: "text_files \<Rightarrow> path \<Rightarrow> io_error + string" where
  "read_to_string fs path =
     (case read_fault fs path of
        Some e \<Rightarrow> Inl e
      | None \<Rightarrow> ok_or NotFoundKind (texts fs path))"

definition write_text :: "path \<Rightarrow> string \<Rightarrow> text_files \<Rightarrow> (io_error + unit) \<times> text_files" where
  "write_text path s fs =
     (case write_fault fs path of
        None \<Rightarrow> (Inr (), fs\<lparr>texts := (texts fs)(path \<mapsto> s)\<rparr>)
      | Some (e, None) \<Rightarrow> (Inl e, fs)
      | Some (e, Some k) \<Rightarrow> (Inl e, fs\<lparr>texts := (texts fs)(path \<mapsto> take k s)\<rparr>))"

datatype 'e load_settings_error = LoadIo path io_error | Deserialize path 'e
datatype 's save_settings_error = Serialize path 's | SaveIo path io_error

definition settings_load ::
    "(string \<Rightarrow> 'e + 'n dhttp_settings) \<Rightarrow> text_files \<Rightarrow> path
      \<Rightarrow> 'e load_settings_error + 'n settings_file" where
  "settings_load from_toml fs path =
     and_then (map_err (LoadIo path) (read_to_string fs path)) (\<lambda>source.
     and_then (map_err (Deserialize path) (from_toml source)) (\<lambda>settings.
       Inr \<lparr>file_path = path, content = Some source, settings = settings\<rparr>))"

definition settings_save ::
    "('n dhttp_settings \<Rightarrow> 's + string) \<Rightarrow> 'n settings_file \<Rightarrow> text_files
      \<Rightarrow> ('s save_settings_error + unit) \<times> text_files" where
  "settings_save to_toml f fs =
     (case to_toml (settings f) of
        Inl e \<Rightarrow> (Inl (Serialize (file_path f) e), fs)
      | Inr source \<Rightarrow>
          (case write_text (file_path f) source fs of
             (r, fs') \<Rightarrow> (map_err (SaveIo (file_path f)) r, fs')))"

definition settings_path :: "path \<Rightarrow> path" where
  "settings_path home = path_join home FILE_NAME"

definition load_settings ::
    "(string \<Rightarrow> 'e + 'n dhttp_settings) \<Rightarrow> text_files \<Rightarrow> path
      \<Rightarrow> 'e load_settings_error + 'n settings_file" where
  "load_settings from_toml fs home = settings_load from_toml fs (settings_path home)"

definition new_settings :: "path \<Rightarrow> 'n settings_file" where
  "new_settings home = settings_file_new (settings_path home)"

section \<open>The default identity\<close>

text \<open>\<open>None\<close> where no default is configured; the inner option is the panic of the resolution.\<close>

datatype from_settings_error = FromSettings "file_line_col option" resolve_error

definition resolve_default_in ::
    "('n \<Rightarrow> string) \<Rightarrow> bool \<Rightarrow> fs_view \<Rightarrow> path \<Rightarrow> 'n settings_file
      \<Rightarrow> (from_settings_error + identity_profile) option option" where
  "resolve_default_in as_full windows v home f =
     (case default_name (settings f) of
        None \<Rightarrow> None
      | Some name \<Rightarrow>
          Some (map_option (map_err (FromSettings (file_locate f (fst (span name)))))
            (resolve_identity_profile windows v home (as_full (inner name)))))"

datatype 'e resolve_default_error = LoadSettings "'e load_settings_error" | NoDefaultIdentity
  | ResolveDefault from_settings_error

definition resolve_default_identity_profile ::
    "(string \<Rightarrow> 'e + 'n dhttp_settings) \<Rightarrow> ('n \<Rightarrow> string) \<Rightarrow> bool \<Rightarrow> text_files \<Rightarrow> fs_view \<Rightarrow> path
      \<Rightarrow> ('e resolve_default_error + identity_profile) option" where
  "resolve_default_identity_profile from_toml as_full windows fs v home =
     (case load_settings from_toml fs home of
        Inl e \<Rightarrow> Some (Inl (LoadSettings e))
      | Inr f \<Rightarrow>
          (case resolve_default_in as_full windows v home f of
             None \<Rightarrow> Some (Inl NoDefaultIdentity)
           | Some r \<Rightarrow> map_option (map_err ResolveDefault) r))"

section \<open>Facts\<close>

text \<open>The line and the column at which the character of index \<open>i\<close> stands, both counted from one.\<close>

definition position_of :: "string \<Rightarrow> nat \<Rightarrow> line_col" where
  "position_of cs i =
     \<lparr>line = 1 + length (filter (\<lambda>c. c = CHR 0x0A) (take i cs)),
      column = 1 + length (takeWhile (\<lambda>c. c \<noteq> CHR 0x0A) (rev (take i cs)))\<rparr>"

lemma position_step: "locate_step (position_of (ds @ c # cs) (length ds)) c = position_of (ds @ c # cs) (Suc (length ds))"
  by (simp add: position_of_def locate_step_def)

lemma locate_from_position:
  assumes "length ds \<le> offset"
  shows "locate_from offset (length ds) (position_of (ds @ cs) (length ds)) cs
    = position_of (ds @ cs) (min (Suc offset) (length ds + length cs))"
  using assms
proof (induction cs arbitrary: ds)
  case Nil
  then show ?case by simp
next
  case (Cons c cs)
  show ?case
  proof (cases "length ds = offset")
    case True
    then show ?thesis by (simp add: True [symmetric] position_step)
  next
    case False
    with Cons.prems Cons.IH [of "ds @ [c]"] show ?thesis by (simp add: position_step)
  qed
qed

text \<open>the position that \<open>LineCol::locate\<close> gives for a character index is the position of the character
  after it (or the end of the text): a name that starts a line is reported at the second column.\<close>

theorem locate_one_past:
  "locate source offset = position_of (str_chars source) (min (Suc offset) (length (str_chars source)))"
  using locate_from_position [of "[]" offset "str_chars source"]
  by (simp add: locate_def position_of_def)

text \<open>
  What the TOML crate promises of a settings value it printed: reading the text back gives the same
  default name, wherever it now stands.
\<close>

definition toml_contract ::
    "(string \<Rightarrow> 'e + 'n dhttp_settings) \<Rightarrow> ('n dhttp_settings \<Rightarrow> 's + string) \<Rightarrow> bool" where
  "toml_contract from_toml to_toml \<longleftrightarrow>
     (\<forall>s text. to_toml s = Inr text \<longrightarrow>
        (\<exists>s'. from_toml text = Inr s' \<and> default_identity_name s' = default_identity_name s))"

lemma write_text_Inr: "write_text path s fs = (Inr (), fs') \<Longrightarrow> fs' = fs\<lparr>texts := (texts fs)(path \<mapsto> s)\<rparr>"
  by (auto simp: write_text_def split: option.splits prod.splits)

lemma settings_save_Inr:
  assumes "settings_save to_toml f fs = (Inr (), fs')"
  obtains source where "to_toml (settings f) = Inr source"
    "fs' = fs\<lparr>texts := (texts fs)(file_path f \<mapsto> source)\<rparr>"
  using assms
  by (auto simp: settings_save_def map_err_def split: sum.splits prod.splits dest: write_text_Inr)

lemma saved_settings_load:
  assumes "toml_contract from_toml to_toml" and "settings_save to_toml f fs = (Inr (), fs')"
    and "read_fault fs (file_path f) = None"
  obtains g where "settings_load from_toml fs' (file_path f) = Inr g" "file_path g = file_path f"
    "content g \<noteq> None" "default_identity_name (settings g) = default_identity_name (settings f)"
proof -
  obtain source where source: "to_toml (settings f) = Inr source"
      "fs' = fs\<lparr>texts := (texts fs)(file_path f \<mapsto> source)\<rparr>"
    by (rule settings_save_Inr [OF assms(2)])
  then obtain s' where "from_toml source = Inr s'"
      "default_identity_name s' = default_identity_name (settings f)"
    using assms(1) by (auto simp: toml_contract_def)
  with source(2) assms(3) show thesis
    by (intro that [of "\<lparr>file_path = file_path f, content = Some source, settings = s'\<rparr>"])
      (simp_all add: settings_load_def read_to_string_def)
qed

lemma map_err_map_err: "map_err h (map_err g r) = map_err (\<lambda>e. h (g e)) r"
  by (cases r) simp_all

lemma set_default_name [simp]: "default_identity_name (set_default_identity_name n s) = Some n"
  by (simp add: default_identity_name_def set_default_identity_name_def)

text \<open>a default identity that was set and saved in the settings file of a home is the one the home
  resolves: the result is that of resolving its full name, an error carrying a place in the settings
  file, and never that no default is configured.\<close>

theorem saved_default_resolves:
  assumes "toml_contract from_toml to_toml"
    and "settings_save to_toml ((f :: 'n settings_file)\<lparr>settings := set_default_identity_name n (settings f)\<rparr>) fs
      = (Inr (), fs')"
    and "file_path f = settings_path home" and "read_fault fs (settings_path home) = None"
  shows "\<exists>place. located_path place = settings_path home \<and>
    resolve_default_identity_profile from_toml as_full windows fs' v home
      = map_option (map_err (\<lambda>e. ResolveDefault (FromSettings (Some place) e)))
          (resolve_identity_profile windows v home (as_full n))"
proof -
  let ?f = "f\<lparr>settings := set_default_identity_name n (settings f)\<rparr>"
  obtain g where g: "settings_load from_toml fs' (settings_path home) = Inr g"
      "file_path g = settings_path home" "content g \<noteq> None"
      "default_identity_name (settings g) = Some n"
    using saved_settings_load [OF assms(1,2)] assms(3,4) by auto
  then obtain source name where "content g = Some source" "default_name (settings g) = Some name" "inner name = n"
    by (auto simp: default_identity_name_def)
  with g(1,2) show ?thesis
    by (intro exI [of _ "\<lparr>located_path = settings_path home, located = locate source (fst (span name))\<rparr>"])
      (simp add: resolve_default_identity_profile_def load_settings_def resolve_default_in_def
        file_locate_def option.map_comp comp_def map_err_map_err)
qed

definition example_print :: "string dhttp_settings \<Rightarrow> unit + string" where
  "example_print s = Inr (case default_identity_name s of None \<Rightarrow> [] | Some n \<Rightarrow> CHR ''='' # n)"

definition example_read :: "string \<Rightarrow> unit + string dhttp_settings" where
  "example_read text =
     Inr (case text of [] \<Rightarrow> default_settings
          | _ # n \<Rightarrow> \<lparr>default_name = Some \<lparr>span = (1, length text), inner = n\<rparr>\<rparr>)"

lemma example_contract: "toml_contract example_read example_print"
  by (auto simp: toml_contract_def example_print_def example_read_def default_identity_name_def
      default_settings_def split: option.splits)

definition example_files :: text_files where
  "example_files = \<lparr>texts = Map.empty, read_fault = (\<lambda>_. None), write_fault = (\<lambda>_. None)\<rparr>"

definition example_view :: fs_view where
  "example_view = \<lparr>stat = (\<lambda>p. if p = [''home'', ''alice.pilot''] then Inr FtDir else Inl NotFoundKind),
     lstat = (\<lambda>_. Inl NotFoundKind), read_dir = (\<lambda>_. Inl NotFoundKind)\<rparr>"

lemma saved_default_resolves_witness:
  "\<exists>place. located_path place = settings_path [''home''] \<and>
     resolve_default_identity_profile example_read id False
       (snd (settings_save example_print ((new_settings [''home''])\<lparr>settings :=
          set_default_identity_name ''alice.pilot.dhttp.net'' default_settings\<rparr>) example_files))
       example_view [''home'']
     = map_option (map_err (\<lambda>e. ResolveDefault (FromSettings (Some place) e)))
         (resolve_identity_profile False example_view [''home''] (id ''alice.pilot.dhttp.net''))"
proof (rule saved_default_resolves [OF example_contract, where f = "new_settings [''home'']" and fs = example_files])
  show "settings_save example_print ((new_settings [''home''])\<lparr>settings :=
      set_default_identity_name ''alice.pilot.dhttp.net'' (settings (new_settings [''home'']))\<rparr>) example_files
    = (Inr (), snd (settings_save example_print ((new_settings [''home''])\<lparr>settings :=
        set_default_identity_name ''alice.pilot.dhttp.net'' default_settings\<rparr>) example_files))"
    by (simp add: settings_save_def example_print_def write_text_def example_files_def
        new_settings_def settings_file_new_def)
qed (simp_all add: new_settings_def settings_file_new_def example_files_def)

lemma example_resolution:
  "resolve_identity_profile False example_view [''home''] ''alice.pilot.dhttp.net''
     = Some (Inr \<lparr>profile_path = [''home'', ''alice.pilot''], profile_name = ''alice.pilot.dhttp.net''\<rparr>)"
  by code_simp

end
