(* ===== verification/Database.thy ===== *)
theory Database
  imports Profiles
begin

text \<open>
  The crate \<open>dhttp-access\<close>, file \<open>access/src/db.rs\<close>: where the access database of an identity lies, and
  the calls with which it is opened, created and configured.  SQLite and the migrator belong to
  \<open>sea-orm\<close>: a call on them is an entry of a log and is answered by a script, so that each call may
  fail.  The schema and the data the migrations leave are the subject of the theory of the rule store.
\<close>

section \<open>Calls\<close>

datatype db_call = MakeDirs path | Connect string | ExecuteUnprepared string | MigratorUp

text \<open>The answers to the coming database calls, \<open>None\<close> for a success (as for every call after the script),
  and the answer of the system to \<open>create_dir_all\<close>.\<close>

record 'd db_session =
  calls :: "db_call list"
  answers :: "'d option list"
  make_dirs :: "path \<Rightarrow> io_error + unit"

definition db_request :: "db_call \<Rightarrow> 'd db_session \<Rightarrow> ('d + unit) \<times> 'd db_session" where
  "db_request c s =
     (let s' = s\<lparr>calls := calls s @ [c], answers := tl (answers s)\<rparr> in
      case answers s of Some e # _ \<Rightarrow> (Inl e, s') | _ \<Rightarrow> (Inr (), s'))"

definition create_dirs :: "path \<Rightarrow> 'd db_session \<Rightarrow> (io_error + unit) \<times> 'd db_session" where
  "create_dirs p s = (make_dirs s p, s\<lparr>calls := calls s @ [MakeDirs p]\<rparr>)"

text \<open>The operator \<open>?\<close> behind \<open>context\<close>: the error of a call is wrapped and returned.\<close>

definition attempt ::
    "('e \<Rightarrow> 'f) \<Rightarrow> ('e + 'a) \<times> 's \<Rightarrow> ('a \<Rightarrow> 's \<Rightarrow> ('f + 'b) \<times> 's) \<Rightarrow> ('f + 'b) \<times> 's" where
  "attempt wrap step rest =
     (case step of (Inl e, s) \<Rightarrow> (Inl (wrap e), s) | (Inr x, s) \<Rightarrow> rest x s)"

section \<open>Paths and addresses\<close>

text \<open>\<open>Path::display\<close> of a path of Unicode names, \<open>Path::parent\<close> and \<open>Path::is_file\<close>.\<close>

fun display_names :: "string list \<Rightarrow> string" where
  "display_names [] = []"
| "display_names [n] = n"
| "display_names (n # ns) = n @ ''/'' @ display_names ns"

definition display_path :: "path \<Rightarrow> string" where
  "display_path p =
     (case p of
        [] \<Rightarrow> []
      | n # ns \<Rightarrow> if n = ''/'' then ''/'' @ display_names ns else display_names p)"

definition parent :: "path \<Rightarrow> path option" where
  "parent p = (if p = [] \<or> p = [''/''] then None else Some (butlast p))"

definition is_file :: "fs_view \<Rightarrow> path \<Rightarrow> bool" where
  "is_file v p = (stat v p = Inr FtFile)"

definition SQLITE_BUSY_TIMEOUT_MS :: "64 word" where "SQLITE_BUSY_TIMEOUT_MS = 5000"

definition identity_access_db_path :: "identity_profile \<Rightarrow> path" where
  "identity_access_db_path p = access_db_path p"

definition sqlite_uri :: "path \<Rightarrow> string \<Rightarrow> string" where
  "sqlite_uri p mode = ''sqlite://'' @ display_path p @ ''?mode='' @ mode"

section \<open>Opening\<close>

datatype 'd access_db_error = LocateDhttpHome load_home_error | MissingStore path
  | CreateStoreDirectory path io_error | ConnectDatabase string 'd | ConfigureDatabase 'd
  | InitializeDatabase 'd

definition load_dhttp_home :: "environment \<Rightarrow> 'd access_db_error + path" where
  "load_dhttp_home env = map_err LocateDhttpHome (load_home env User)"

definition configure_sqlite :: "'d db_session \<Rightarrow> ('d access_db_error + unit) \<times> 'd db_session" where
  "configure_sqlite s =
     attempt ConfigureDatabase (db_request (ExecuteUnprepared ''PRAGMA foreign_keys = ON;'') s) (\<lambda>_ s.
     attempt ConfigureDatabase (db_request (ExecuteUnprepared ''PRAGMA journal_mode = WAL;'') s) (\<lambda>_ s.
     attempt ConfigureDatabase (db_request (ExecuteUnprepared
         (''PRAGMA busy_timeout = '' @ show_nat (unat SQLITE_BUSY_TIMEOUT_MS) @ '';'')) s) (\<lambda>_ s.
       (Inr (), s))))"

definition connect_sqlite ::
    "path \<Rightarrow> string \<Rightarrow> 'd db_session \<Rightarrow> ('d access_db_error + unit) \<times> 'd db_session" where
  "connect_sqlite p mode s =
     (let uri = sqlite_uri p mode in
      attempt (ConnectDatabase uri) (db_request (Connect uri) s) (\<lambda>_ s.
      attempt id (configure_sqlite s) (\<lambda>_ s. (Inr (), s))))"

definition initial_database :: "'d db_session \<Rightarrow> ('d + unit) \<times> 'd db_session" where
  "initial_database s = db_request MigratorUp s"

definition open_existing_access_database ::
    "fs_view \<Rightarrow> path \<Rightarrow> 'd db_session \<Rightarrow> ('d access_db_error + unit) \<times> 'd db_session" where
  "open_existing_access_database v p s =
     (if \<not> is_file v p then (Inl (MissingStore p), s) else connect_sqlite p ''rw'' s)"

definition init_access_database ::
    "path \<Rightarrow> 'd db_session \<Rightarrow> ('d access_db_error + unit) \<times> 'd db_session" where
  "init_access_database p s =
     (case parent p of
        None \<Rightarrow> (Inl (MissingStore p), s)
      | Some dir \<Rightarrow>
          attempt (CreateStoreDirectory dir) (create_dirs dir s) (\<lambda>_ s.
          attempt id (connect_sqlite p ''rwc'' s) (\<lambda>_ s.
          attempt InitializeDatabase (initial_database s) (\<lambda>_ s. (Inr (), s)))))"

definition open_access_database ::
    "fs_view \<Rightarrow> identity_profile \<Rightarrow> 'd db_session \<Rightarrow> ('d access_db_error + unit) \<times> 'd db_session" where
  "open_access_database v p s = open_existing_access_database v (identity_access_db_path p) s"

definition init_access_database_for ::
    "identity_profile \<Rightarrow> 'd db_session \<Rightarrow> ('d access_db_error + unit) \<times> 'd db_session" where
  "init_access_database_for p s = init_access_database (identity_access_db_path p) s"

section \<open>Facts\<close>

text \<open>
  A plan: calls in order, each with the error that reports its failure.  The result \<open>follows\<close> a plan
  when the calls made are its first ones, a success is the whole plan, and an error is that of the
  last call made.
\<close>

type_synonym 'd plan = "(db_call \<times> ('d access_db_error \<Rightarrow> bool)) list"

definition follows ::
    "'d plan \<Rightarrow> 'd db_session \<Rightarrow> ('d access_db_error + unit) \<times> 'd db_session \<Rightarrow> bool" where
  "follows plan s result \<longleftrightarrow>
     (\<exists>k. calls (snd result) = calls s @ map fst (take k plan) \<and> k \<le> length plan \<and>
        (case fst result of
           Inr _ \<Rightarrow> k = length plan
         | Inl e \<Rightarrow> 0 < k \<and> snd (plan ! (k - 1)) e))"

lemma follows_done: "calls s' = calls s \<Longrightarrow> follows [] s (Inr (), s')"
  by (simp add: follows_def)

lemma follows_one:
  assumes "snd step = s'" and "calls s' = calls s @ [c]"
    and "\<And>e. fst step = Inl e \<Longrightarrow> P (wrap e)"
    and "\<And>x. fst step = Inr x \<Longrightarrow> follows plan s' (rest x s')"
  shows "follows ((c, P) # plan) s (attempt wrap step rest)"
proof (cases "fst step")
  case (Inl e)
  with assms(1) have "attempt wrap step rest = (Inl (wrap e), s')"
    by (cases step) (simp add: attempt_def)
  with assms(2) assms(3) [OF Inl] show ?thesis
    by (auto simp: follows_def intro!: exI [of _ 1])
next
  case (Inr x)
  with assms(1) have "attempt wrap step rest = rest x s'"
    by (cases step) (simp add: attempt_def)
  with assms(4) [OF Inr] obtain k where k: "calls (snd (attempt wrap step rest)) = calls s' @ map fst (take k plan)"
      "k \<le> length plan"
      "case fst (attempt wrap step rest) of Inr _ \<Rightarrow> k = length plan
         | Inl e \<Rightarrow> 0 < k \<and> snd (plan ! (k - 1)) e"
    by (auto simp: follows_def)
  with assms(2) show ?thesis
    unfolding follows_def by (intro exI [of _ "Suc k"]) (auto split: sum.splits simp: nth_Cons')
qed

lemma follows_append:
  assumes "follows plan s step"
    and "\<And>x s'. step = (Inr x, s') \<Longrightarrow> follows plan' s' (rest x s')"
  shows "follows (plan @ plan') s (attempt id step rest)"
proof (cases "fst step")
  case (Inl e)
  then obtain s' where "step = (Inl e, s')" by (cases step) auto
  moreover with assms(1) obtain k where "calls s' = calls s @ map fst (take k plan)" "k \<le> length plan"
      "0 < k" "snd (plan ! (k - 1)) e"
    by (auto simp: follows_def)
  ultimately show ?thesis
    by (auto simp: follows_def attempt_def nth_append intro!: exI [of _ k])
next
  case (Inr x)
  then obtain s' where s': "step = (Inr x, s')" by (cases step) auto
  with assms(1) have "calls s' = calls s @ map fst plan" by (auto simp: follows_def)
  moreover from assms(2) [OF s'] obtain k where
    "calls (snd (rest x s')) = calls s' @ map fst (take k plan')" "k \<le> length plan'"
    "case fst (rest x s') of Inr _ \<Rightarrow> k = length plan' | Inl e \<Rightarrow> 0 < k \<and> snd (plan' ! (k - 1)) e"
    by (auto simp: follows_def)
  ultimately show ?thesis
    unfolding follows_def
    by (intro exI [of _ "length plan + k"]) (auto simp: s' attempt_def nth_append split: sum.splits)
qed

lemma db_request_calls: "calls (snd (db_request c s)) = calls s @ [c]"
  by (auto simp: db_request_def Let_def split: list.splits option.splits)

lemma follows_request:
  assumes "\<And>e. P (wrap e)"
    and "\<And>x s'. follows plan s' (rest x s')"
  shows "follows ((c, P) # plan) s (attempt wrap (db_request c s) rest)"
  by (rule follows_one [OF refl db_request_calls]) (rule assms)+

definition pragma :: "string \<Rightarrow> db_call \<times> ('d access_db_error \<Rightarrow> bool)" where
  "pragma sql = (ExecuteUnprepared sql, \<lambda>e. \<exists>d. e = ConfigureDatabase d)"

definition PRAGMAS :: "string list" where
  "PRAGMAS = [''PRAGMA foreign_keys = ON;'', ''PRAGMA journal_mode = WAL;'', ''PRAGMA busy_timeout = 5000;'']"

definition connect_plan :: "path \<Rightarrow> string \<Rightarrow> 'd plan" where
  "connect_plan p mode =
     (Connect (sqlite_uri p mode), \<lambda>e. \<exists>d. e = ConnectDatabase (sqlite_uri p mode) d)
     # map pragma PRAGMAS"

definition init_plan :: "path \<Rightarrow> path \<Rightarrow> 'd plan" where
  "init_plan dir p =
     (MakeDirs dir, \<lambda>e. \<exists>io. e = CreateStoreDirectory dir io) # connect_plan p ''rwc''
     @ [(MigratorUp, \<lambda>e. \<exists>d. e = InitializeDatabase d)]"

lemma busy_timeout_text:
  "''PRAGMA busy_timeout = '' @ show_nat (unat SQLITE_BUSY_TIMEOUT_MS) @ '';'' = ''PRAGMA busy_timeout = 5000;''"
  by (simp add: SQLITE_BUSY_TIMEOUT_MS_def show_nat.simps digit_char_def char_of_def bit_0)

lemma configure_sqlite_follows:
  "follows (map pragma PRAGMAS) s
     (configure_sqlite s)"
  unfolding configure_sqlite_def busy_timeout_text PRAGMAS_def list.map pragma_def
  by (auto intro!: follows_request follows_done)

lemma attempt_id_done: "attempt id step (\<lambda>_ s. (Inr (), s)) = (step :: ('f + unit) \<times> 's)"
  by (cases step) (auto simp: attempt_def split: sum.splits)

lemma connect_sqlite_follows: "follows (connect_plan p mode) s (connect_sqlite p mode s)"
  by (simp only: connect_sqlite_def connect_plan_def attempt_id_done Let_def)
    (auto intro!: follows_request configure_sqlite_follows)

lemma init_access_database_follows:
  assumes "parent p = Some dir"
  shows "follows (init_plan dir p) s (init_access_database p s)"
  unfolding init_plan_def init_access_database_def assms option.case
proof (rule follows_one)
  fix s' :: "'a db_session"
  show "follows (connect_plan p ''rwc'' @ [(MigratorUp, \<lambda>e. \<exists>d. e = InitializeDatabase d)]) s'
      (attempt id (connect_sqlite p ''rwc'' s') (\<lambda>_ s.
         attempt InitializeDatabase (initial_database s) (\<lambda>_ s. (Inr (), s))))"
    by (rule follows_append [OF connect_sqlite_follows])
      (auto simp: initial_database_def intro!: follows_request follows_done)
qed (auto simp: create_dirs_def)

lemma access_db_parent: "parent (identity_access_db_path p) = Some (db_dir p)"
  by (simp add: parent_def identity_access_db_path_def access_db_path_def ACCESS_DB_FILE_def
      path_join_def starts_with_def components_def db_dir_def DB_DIR_def butlast_append)

text \<open>opening the access database of an identity makes no call unless its file exists, and then
  connects without leave to create it and sets the three pragmas; initialising makes the directory,
  connects with leave to create, sets the pragmas and then migrates.  A handle is returned after the
  whole sequence only, and an error names the stage of the last call made.\<close>

theorem access_database_sequence:
  "(if is_file v (access_db_path p)
    then follows (connect_plan (access_db_path p) ''rw'') s (open_access_database v p s)
    else open_access_database v p s = (Inl (MissingStore (access_db_path p)), s))
   \<and> follows (init_plan (db_dir p) (access_db_path p)) s' (init_access_database_for p s')"
  using init_access_database_follows [OF access_db_parent, of p s']
  by (simp add: open_access_database_def open_existing_access_database_def identity_access_db_path_def
      connect_sqlite_follows init_access_database_for_def)

text \<open>the address that a connection is opened with gives back the path in front of its first
  question mark exactly for the paths that contain none; for the others the connector is asked for a
  shorter path than the one that was checked.\<close>

theorem sqlite_uri_names_path:
  "split_once CHR ''?'' (sqlite_uri p mode) = Some (''sqlite://'' @ display_path p, ''mode='' @ mode)
     \<longleftrightarrow> CHR ''?'' \<notin> set (display_path p)"
  by (auto simp: sqlite_uri_def split_once_Some)

end
