(* ===== verification/Transport.thy ===== *)
theory Transport
  imports Errors
begin

text \<open>
  The stream adapter: the crate \<open>dhttp\<close>, file \<open>dhttp/src/transport.rs\<close>.  The streams, the reset errors of the
  transport and the errors of \<open>h3x\<close> belong to other crates and are the arguments \<open>h3_ops\<close>; the adapter decides
  which error of HTTP/3 an error of QUIC becomes.  Reading, writing, stopping and cancelling a stream go
  to the stream it wraps.
\<close>

record ('h, 'v) h3_ops =
  reset_code :: "any_error \<Rightarrow> 64 word option"
  code_try_from :: "64 word \<Rightarrow> 64 word option"
  stream_error :: "64 word \<Rightarrow> string \<Rightarrow> 'h"
  connection_error :: "64 word \<Rightarrow> string \<Rightarrow> 'h"
  from_stream_io :: "io_source \<Rightarrow> 'h"
  internal_code :: "64 word"
  varint_try_from :: "64 word \<Rightarrow> string + 'v"

text \<open>The calls of the connection; an error is an \<open>InternalError\<close> of the whole connection.\<close>

definition connection_failed :: "('h, 'v) h3_ops \<Rightarrow> string \<Rightarrow> 'h" where
  "connection_failed ops e = connection_error ops (internal_code ops) e"

definition open_bi ::
    "('h, 'v) h3_ops \<Rightarrow> ('i \<Rightarrow> 64 word) \<Rightarrow> string + ('i \<times> 'rd \<times> 'wr) option
      \<Rightarrow> 'h + (64 word \<times> 'rd \<times> 'wr) option" where
  "open_bi ops into answer =
     (case answer of
        Inl e \<Rightarrow> Inl (connection_failed ops e)
      | Inr stream \<Rightarrow> Inr (map_option (\<lambda>(i, recv, send). (into i, recv, send)) stream))"

definition accept_bi ::
    "('h, 'v) h3_ops \<Rightarrow> ('i \<Rightarrow> 64 word) \<Rightarrow> string + ('i \<times> 'rd \<times> 'wr) \<Rightarrow> 'h + (64 word \<times> 'rd \<times> 'wr)" where
  "accept_bi ops into answer =
     (case answer of
        Inl e \<Rightarrow> Inl (connection_failed ops e)
      | Inr (i, recv, send) \<Rightarrow> Inr (into i, recv, send))"

definition open_uni ::
    "('h, 'v) h3_ops \<Rightarrow> ('i \<Rightarrow> 64 word) \<Rightarrow> string + ('i \<times> 'wr) option \<Rightarrow> 'h + (64 word \<times> 'wr) option" where
  "open_uni ops into answer =
     (case answer of
        Inl e \<Rightarrow> Inl (connection_failed ops e)
      | Inr stream \<Rightarrow> Inr (map_option (\<lambda>(i, send). (into i, send)) stream))"

definition accept_uni ::
    "('h, 'v) h3_ops \<Rightarrow> ('i \<Rightarrow> 64 word) \<Rightarrow> string + ('i \<times> 'rd) \<Rightarrow> 'h + (64 word \<times> 'rd)" where
  "accept_uni ops into answer =
     (case answer of
        Inl e \<Rightarrow> Inl (connection_failed ops e)
      | Inr (i, recv) \<Rightarrow> Inr (into i, recv))"

text \<open>The close that reaches the connection, if one does.\<close>

definition transport_close :: "('h, 'v) h3_ops \<Rightarrow> string \<Rightarrow> 64 word \<Rightarrow> ('h + unit) \<times> ('v \<times> string) option" where
  "transport_close ops reason c =
     (case varint_try_from ops c of
        Inl e \<Rightarrow> (Inl (connection_failed ops e), None)
      | Inr v \<Rightarrow> (Inr (), Some (v, reason)))"

definition map_stream_error :: "('h, 'v) h3_ops \<Rightarrow> (path \<Rightarrow> string) \<Rightarrow> io_source \<Rightarrow> 'h" where
  "map_stream_error ops display e =
     (case e of
        IoSource kind (Some source) \<Rightarrow>
          (case reset_code ops source of
             Some c \<Rightarrow>
               (case code_try_from ops c of
                  Some c \<Rightarrow> stream_error ops c (show_any display (AnyIo e))
                | None \<Rightarrow> from_stream_io ops e)
           | None \<Rightarrow> from_stream_io ops e)
      | _ \<Rightarrow> from_stream_io ops e)"

section \<open>Streams\<close>

text \<open>A stream wraps that of QUIC, whose operations are \<open>stream_ops\<close>; a poll gives \<open>None\<close> while it is pending.\<close>

datatype 'rd recv_stream = RecvStream 'rd

datatype 'wr send_stream = SendStream 'wr

record ('rd, 'wr) stream_ops =
  quic_read :: "nat \<Rightarrow> 'rd \<Rightarrow> (io_source + string) option \<times> 'rd"
  quic_stop :: "64 word \<Rightarrow> 'rd \<Rightarrow> 'rd"
  quic_write :: "string \<Rightarrow> 'wr \<Rightarrow> (io_source + nat) option \<times> 'wr"
  quic_flush :: "'wr \<Rightarrow> (io_source + unit) option \<times> 'wr"
  quic_shutdown :: "'wr \<Rightarrow> (io_source + unit) option \<times> 'wr"
  quic_cancel :: "64 word \<Rightarrow> 'wr \<Rightarrow> 'wr"

definition recv_map_error :: "('h, 'v) h3_ops \<Rightarrow> (path \<Rightarrow> string) \<Rightarrow> io_source \<Rightarrow> 'h" where
  "recv_map_error = map_stream_error"

definition send_map_error :: "('h, 'v) h3_ops \<Rightarrow> (path \<Rightarrow> string) \<Rightarrow> io_source \<Rightarrow> 'h" where
  "send_map_error = map_stream_error"

fun recv_poll_read where
  "recv_poll_read ops room (RecvStream r) = map_prod id RecvStream (quic_read ops room r)"

fun recv_stop where
  "recv_stop ops c (RecvStream r) = RecvStream (quic_stop ops c r)"

fun send_poll_write where
  "send_poll_write ops bytes (SendStream w) = map_prod id SendStream (quic_write ops bytes w)"

fun send_poll_flush where
  "send_poll_flush ops (SendStream w) = map_prod id SendStream (quic_flush ops w)"

fun send_poll_shutdown where
  "send_poll_shutdown ops (SendStream w) = map_prod id SendStream (quic_shutdown ops w)"

fun send_cancel where
  "send_cancel ops c (SendStream w) = SendStream (quic_cancel ops c w)"

section \<open>Facts\<close>

text \<open>A reset keeps its code exactly if HTTP/3 knows the code; everything else keeps the error itself.\<close>

lemma reset_code_kept:
  assumes "\<And>c. code_try_from ops c = Some c \<or> code_try_from ops c = None"
  shows "map_stream_error ops display (IoSource kind (Some source)) =
     (case reset_code ops source of
        Some c \<Rightarrow> if code_try_from ops c = None then from_stream_io ops (IoSource kind (Some source))
          else stream_error ops c (show_any display (AnyIo (IoSource kind (Some source))))
      | None \<Rightarrow> from_stream_io ops (IoSource kind (Some source)))"
proof (cases "reset_code ops source")
  case (Some c)
  with assms [of c] show ?thesis by (auto simp: map_stream_error_def)
qed (simp add: map_stream_error_def)

lemma close_code_checked:
  "snd (transport_close ops reason c) \<noteq> None \<longleftrightarrow> is_ok (fst (transport_close ops reason c))"
  by (simp add: transport_close_def split: sum.splits)

end
