(* ===== verification/Trust.thy ===== *)
theory Trust
  imports Errors
begin

text \<open>
  The trust anchor: the crate \<open>dhttp\<close>, files \<open>dhttp/bootstrap_config.rs\<close> and \<open>dhttp/build.rs\<close> (the root
  certificate a build embeds) and \<open>dhttp/src/trust.rs\<close> (what is verified against it).  The readers of PEM and
  X.509 and the verifiers of the crate \<open>rustls\<close> are parameters; a panic is \<open>None\<close>.
\<close>

section \<open>The embedded certificate\<close>

datatype pem_item = X509Certificate string | OtherItem

datatype 'e root_ca_error = DecodePem 'e | MissingCertificate | UnexpectedPemItem | MultipleCertificates
  | InvalidX509 string | TrailingDerData

text \<open>\<open>read_one\<close> is \<open>read_one_from_slice\<close>: the next item with what follows it.  The loop ends because a second
  certificate is an error.\<close>

function read_root ::
    "(string \<Rightarrow> 'e + (pem_item \<times> string) option) \<Rightarrow> string option \<Rightarrow> string \<Rightarrow> 'e root_ca_error + string option" where
  "read_root read_one certificate remainder =
     (case read_one remainder of
        Inl e \<Rightarrow> Inl (DecodePem e)
      | Inr None \<Rightarrow> Inr certificate
      | Inr (Some (OtherItem, _)) \<Rightarrow> Inl UnexpectedPemItem
      | Inr (Some (X509Certificate item, rest)) \<Rightarrow>
          if certificate \<noteq> None then Inl MultipleCertificates
          else read_root read_one (Some item) rest)"
  by pat_completeness auto
termination
  by (relation "measure (\<lambda>(_, certificate, _). if certificate = None then 1 else 0)") auto

declare read_root.simps [simp del]

text \<open>\<open>x509\<close> gives what is left behind the certificate it parsed.\<close>

definition parse_root_ca_der ::
    "(string \<Rightarrow> 'e + (pem_item \<times> string) option) \<Rightarrow> (string \<Rightarrow> string + string) \<Rightarrow> string
      \<Rightarrow> 'e root_ca_error + string" where
  "parse_root_ca_der read_one x509 pem =
     and_then (read_root read_one None pem) (\<lambda>certificate.
     and_then (ok_or MissingCertificate certificate) (\<lambda>certificate.
     and_then (map_err InvalidX509 (x509 certificate)) (\<lambda>remainder.
       if remainder \<noteq> [] then Inl TrailingDerData else Inr certificate)))"

text \<open>\<open>expect\<close> and \<open>unwrap_or_else\<close> with a panic.\<close>

definition expect :: "'e + 'a \<Rightarrow> 'a option" where
  "expect r = (case r of Inl _ \<Rightarrow> None | Inr x \<Rightarrow> Some x)"

datatype env_var = Present string | NotPresent | NotUnicode

definition root_ca_der ::
    "(string \<Rightarrow> 'e + (pem_item \<times> string) option) \<Rightarrow> (string \<Rightarrow> string + string) \<Rightarrow> string \<Rightarrow> env_var \<Rightarrow> string option" where
  "root_ca_der read_one x509 default_pem var =
     (case (case var of Present pem \<Rightarrow> Some pem | NotPresent \<Rightarrow> Some default_pem | NotUnicode \<Rightarrow> None) of
        None \<Rightarrow> None
      | Some pem \<Rightarrow> expect (parse_root_ca_der read_one x509 pem))"

section \<open>Verifiers\<close>

datatype client_identity_policy = Optional | Required

record ('s, 'b, 'v, 'w) rustls_ops =
  empty_store :: 's
  add_root :: "string \<Rightarrow> 's \<Rightarrow> string + 's"
  server_verifier :: "'s \<Rightarrow> string + 'v"
  client_builder :: "'s \<Rightarrow> 'b"
  allow_unauthenticated :: "'b \<Rightarrow> 'b"
  client_verifier :: "'b \<Rightarrow> string + 'w"

definition dhttp_root_cert_store :: "('s, 'b, 'v, 'w) rustls_ops \<Rightarrow> string \<Rightarrow> 's option" where
  "dhttp_root_cert_store ops der = expect (add_root ops der (empty_store ops))"

definition dhttp_server_cert_verifier :: "('s, 'b, 'v, 'w) rustls_ops \<Rightarrow> string \<Rightarrow> 'v option" where
  "dhttp_server_cert_verifier ops der =
     Option.bind (dhttp_root_cert_store ops der) (\<lambda>store. expect (server_verifier ops store))"

definition dhttp_client_cert_verifier ::
    "('s, 'b, 'v, 'w) rustls_ops \<Rightarrow> string \<Rightarrow> client_identity_policy \<Rightarrow> 'w option" where
  "dhttp_client_cert_verifier ops der policy =
     Option.bind (dhttp_root_cert_store ops der) (\<lambda>store.
       let builder = client_builder ops store in
       case policy of
         Optional \<Rightarrow> expect (client_verifier ops (allow_unauthenticated ops builder))
       | Required \<Rightarrow> expect (client_verifier ops builder))"

text \<open>\<open>set_roots\<close> is \<open>qtls::RootCerts::set\<close>.\<close>

definition initialize :: "(string list \<Rightarrow> 'g \<Rightarrow> (string + unit) \<times> 'g) \<Rightarrow> string \<Rightarrow> 'g \<Rightarrow> (core_error + unit) \<times> 'g" where
  "initialize set_roots der g = (case set_roots [der] g of (r, g) \<Rightarrow> (map_err TlsConfig r, g))"

section \<open>Facts\<close>

lemma expect_Some [simp]: "expect r = Some x \<longleftrightarrow> r = Inr x"
  by (cases r) (simp_all add: expect_def)

text \<open>The items of a text, in the order in which they are read.\<close>

inductive pem_items :: "(string \<Rightarrow> 'e + (pem_item \<times> string) option) \<Rightarrow> string \<Rightarrow> pem_item list \<Rightarrow> bool"
  for read_one where
  items_end: "read_one s = Inr None \<Longrightarrow> pem_items read_one s []"
| items_next: "read_one s = Inr (Some (i, rest)) \<Longrightarrow> pem_items read_one rest is \<Longrightarrow> pem_items read_one s (i # is)"

inductive_cases pem_items_nilE: "pem_items read_one s []"
inductive_cases pem_items_consE: "pem_items read_one s (i # is)"

lemma read_root_second:
  "read_root read_one (Some der) s = Inr c \<longleftrightarrow> pem_items read_one s [] \<and> c = Some der"
  by (subst read_root.simps)
    (auto intro: items_end elim: pem_items_nilE split: sum.splits option.splits prod.splits pem_item.splits)

lemma read_root_first:
  "read_root read_one None s = Inr c \<longleftrightarrow>
     pem_items read_one s [] \<and> c = None
     \<or> (\<exists>der. pem_items read_one s [X509Certificate der] \<and> c = Some der)"
  by (subst read_root.simps)
    (auto simp: read_root_second intro: items_end items_next elim: pem_items_nilE elim!: pem_items_consE
      split: sum.splits option.splits prod.splits pem_item.splits)

lemma read_root_second_error:
  "read_root read_one (Some der) s = Inl MultipleCertificates \<longleftrightarrow>
     (\<exists>item rest. read_one s = Inr (Some (X509Certificate item, rest)))"
  by (subst read_root.simps) (auto split: sum.splits option.splits prod.splits pem_item.splits)

lemma parse_root_ca_der_Inr:
  "parse_root_ca_der read_one x509 pem = Inr der \<longleftrightarrow>
     pem_items read_one pem [X509Certificate der] \<and> x509 der = Inr []"
  by (auto simp: parse_root_ca_der_def and_then_eq_Inr read_root_first split: if_splits)

text \<open>a build embeds a certificate exactly if the text of its root certificate is valid Unicode and reads as
  one certificate and nothing else, whose DER encoding ends where the certificate ends; otherwise the build
  stops.  Both verifiers then rest on that certificate alone, and clients may stay anonymous exactly under the
  optional policy.\<close>

theorem embedded_root_single:
  "(root_ca_der read_one x509 default_pem var = Some der \<longleftrightarrow>
     (\<exists>pem. (var = Present pem \<or> var = NotPresent \<and> pem = default_pem)
        \<and> pem_items read_one pem [X509Certificate der] \<and> x509 der = Inr []))
   \<and> (dhttp_server_cert_verifier ops der = Some v \<longleftrightarrow>
        (\<exists>store. add_root ops der (empty_store ops) = Inr store \<and> server_verifier ops store = Inr v))
   \<and> (dhttp_client_cert_verifier ops der policy = Some w \<longleftrightarrow>
        (\<exists>store. add_root ops der (empty_store ops) = Inr store
          \<and> client_verifier ops ((if policy = Optional then allow_unauthenticated ops else id)
              (client_builder ops store)) = Inr w))"
proof (intro conjI)
  show "root_ca_der read_one x509 default_pem var = Some der \<longleftrightarrow>
     (\<exists>pem. (var = Present pem \<or> var = NotPresent \<and> pem = default_pem)
        \<and> pem_items read_one pem [X509Certificate der] \<and> x509 der = Inr [])"
    by (cases var) (auto simp: root_ca_der_def parse_root_ca_der_Inr)
  show "dhttp_server_cert_verifier ops der = Some v \<longleftrightarrow>
        (\<exists>store. add_root ops der (empty_store ops) = Inr store \<and> server_verifier ops store = Inr v)"
    by (auto simp: dhttp_server_cert_verifier_def dhttp_root_cert_store_def bind_eq_Some_conv)
  show "dhttp_client_cert_verifier ops der policy = Some w \<longleftrightarrow>
        (\<exists>store. add_root ops der (empty_store ops) = Inr store
          \<and> client_verifier ops ((if policy = Optional then allow_unauthenticated ops else id)
              (client_builder ops store)) = Inr w)"
    by (cases policy) (auto simp: dhttp_client_cert_verifier_def dhttp_root_cert_store_def bind_eq_Some_conv)
qed

lemma root_item_refused:
  "read_one pem = Inr (Some (OtherItem, rest)) \<Longrightarrow> parse_root_ca_der read_one x509 pem = Inl UnexpectedPemItem"
  "pem_items read_one pem [] \<Longrightarrow> parse_root_ca_der read_one x509 pem = Inl MissingCertificate"
  "pem_items read_one pem (X509Certificate a # X509Certificate b # is)
     \<Longrightarrow> parse_root_ca_der read_one x509 pem = Inl MultipleCertificates"
  by (simp_all add: parse_root_ca_der_def read_root.simps split: prod.splits)
    (auto elim!: pem_items_nilE pem_items_consE simp: read_root.simps)

end
