(* ===== verification/RuleListing.thy ===== *)
theory RuleListing
  imports RuleStore
begin

text \<open>
  Listings of stored rules: the crate \<open>dhttp-access\<close>, file \<open>access/src/db/service/location_service.rs\<close>, the
  textual forms of \<open>RuleSets\<close>, \<open>MatchedLocationRules\<close> and \<open>AllLocationRules\<close> and the two public forms of
  appending.  A listing numbers the rules of a set; the same numbers are what \<open>remove_rules\<close> takes.
\<close>

section \<open>Appending\<close>

definition append_rule ::
    "('r, 'q) engine \<Rightarrow> (statement \<Rightarrow> bool) \<Rightarrow> int \<Rightarrow> 'r store \<Rightarrow> 'r location_pattern
      \<Rightarrow> request_action \<Rightarrow> 'r location_rule_exprs \<Rightarrow> 'r store_error + 'r store" where
  "append_rule E fails now st location action expr =
     and_then (append_rule_internal E fails now st location action expr) (\<lambda>(_, st'). Inr st')"

definition append_rule_with_id ::
    "('r, 'q) engine \<Rightarrow> (statement \<Rightarrow> bool) \<Rightarrow> int \<Rightarrow> 'r store \<Rightarrow> 'r location_pattern
      \<Rightarrow> request_action \<Rightarrow> 'r location_rule_exprs \<Rightarrow> 'r store_error + ('r rule_row \<times> 'r store)" where
  "append_rule_with_id E fails now st location action expr =
     append_rule_internal E fails now st location action expr"

section \<open>Text\<close>

definition NEWLINE :: string where "NEWLINE = [CHR 0x0A]"

definition show_set_line :: "'r location_pattern \<Rightarrow> string" where
  "show_set_line location = ''- '' @ p_text location @ NEWLINE"

definition show_rule_sets :: "'r location_row list \<Rightarrow> string" where
  "show_rule_sets sets = concat (map (\<lambda>l. show_set_line (loc_pattern l)) sets)"

definition show_rule_line :: "nat \<Rightarrow> 'r rule_row \<Rightarrow> string" where
  "show_rule_line i r =
     ''  #'' @ show_nat i @ '': '' @ request_action_as_str (rule_action r) @ '' '' @ show_exprs (rule_exprs r) @ NEWLINE"

definition show_numbered :: "'r rule_row list \<Rightarrow> string" where
  "show_numbered rules = concat (map (\<lambda>(i, r). show_rule_line i r) (List.enumerate 0 rules))"

definition show_matched :: "'r location_pattern \<times> 'r rule_row list \<Rightarrow> string" where
  "show_matched matched = (case matched of (location, rules) \<Rightarrow> show_set_line location @ show_numbered rules)"

definition show_all_rules :: "'r all_location_rules \<Rightarrow> string" where
  "show_all_rules m =
     concat (map (\<lambda>(pt, _, rules). show_set_line (pt_pattern pt) @ show_numbered rules @ NEWLINE) m)"

section \<open>Facts\<close>

lemma nths_filter:
  assumes "\<And>i. i < length xs \<Longrightarrow> P (xs ! i) \<longleftrightarrow> i \<in> A"
  shows "nths xs A = filter P xs"
proof -
  have "nths xs A = nths xs {i. i < length xs \<and> P (xs ! i)}"
    unfolding nths_def using assms
    by (intro arg_cong [where f = "map fst"] filter_cong) (auto simp: set_zip)
  then show ?thesis by (simp only: filter_eq_nths)
qed

lemma nths_drop_selected:
  assumes "distinct (map f xs)" and "\<forall>i \<in> set is. i < length xs"
  shows "filter (\<lambda>x. f x \<notin> f ` set (map ((!) xs) is)) xs = nths xs {i. i \<notin> set is}"
proof (rule nths_filter [symmetric])
  fix i assume "i < length xs"
  with assms show "f (xs ! i) \<notin> f ` set (map ((!) xs) is) \<longleftrightarrow> i \<in> {i. i \<notin> set is}"
    by (auto simp: distinct_conv_nth dest: bspec)
qed

lemma select_rules_Inr:
  "select_rules visible is = Inr selected \<longleftrightarrow>
     (\<forall>i \<in> set is. i < length visible) \<and> selected = map ((!) visible) is"
  by (induction "is" arbitrary: selected) (auto simp: and_then_eq_Inr)

lemma rules_of_location_sub: "set (rules_of_location st lid) = {r \<in> set (rule_rows st). rule_location r = lid}"
  by (simp add: rules_of_location_def order_by_creation_def)

lemma rules_of_location_distinct:
  assumes "store_ok st"
  shows "distinct (map rule_id (rules_of_location st lid))" "distinct (map index_key (rules_of_location st lid))"
  using assms
  by (auto simp: store_ok_def rules_of_location_def order_by_creation_def distinct_map intro: inj_on_subset)

lemma deduplicate_ordered:
  assumes "store_ok st"
  shows "deduplicate_rules (rules_of_location st lid) = rules_of_location st lid"
  unfolding deduplicate_rules_def
  using assms by (subst deduplicate_unique [where lid = lid])
    (auto simp: rules_of_location_sub rules_of_location_distinct)

lemma rules_of_location_delete:
  "rules_of_location (delete_rules st ids) lid = filter (\<lambda>r. rule_id r \<notin> set ids) (rules_of_location st lid)"
  by (simp add: rules_of_location_def order_by_creation_def delete_rules_def filter_sort conj_commute)

lemma rules_by_pattern_Inr:
  assumes "store_ok st"
  shows "list_rules_by_pattern E fails st location = Inr (pattern, rules) \<longleftrightarrow>
     \<not> fails BeginTransaction \<and> \<not> fails QueryExactLocation \<and> \<not> fails LoadRules \<and> \<not> fails Commit
     \<and> (\<exists>l. exact_location st location = Some l \<and> pattern = loc_pattern l
          \<and> rules = rules_of_location st (loc_id l))"
  by (auto simp: list_rules_by_pattern_def and_then_eq_Inr match_strict_Inr deduplicate_ordered [OF assms])

lemma remove_rules_Inr:
  assumes "store_ok st"
  shows "remove_rules E fails st location sequence = Inr st' \<longleftrightarrow>
     \<not> fails BeginTransaction \<and> \<not> fails QueryExactLocation \<and> \<not> fails LoadRules \<and> \<not> fails DeleteRules
     \<and> \<not> fails Commit
     \<and> (\<exists>l. exact_location st location = Some l
          \<and> (\<forall>i \<in> set sequence. i < length (rules_of_location st (loc_id l)))
          \<and> st' = delete_rules st (logically_selected
              (map ((!) (rules_of_location st (loc_id l))) sequence) (rules_of_location st (loc_id l))))"
  by (auto simp: remove_rules_def and_then_eq_Inr match_strict_Inr deduplicate_ordered [OF assms] select_rules_Inr)

lemma same_rule_in_set:
  assumes "store_ok st" and "a \<in> set (rules_of_location st lid)" "b \<in> set (rules_of_location st lid)"
  shows "same_logical_rule a b \<longleftrightarrow> a = b"
proof
  assume "same_logical_rule a b"
  moreover have "rule_location a = rule_location b" using assms(2,3) by (simp add: rules_of_location_sub)
  ultimately have "index_key a = index_key b" by (rule same_logical_index)
  with rules_of_location_distinct(2) [OF assms(1), of lid] assms(2,3) show "a = b"
    by (auto simp: distinct_map inj_on_def)
qed (simp add: same_logical_rule_def polish_same_refl)

lemma logically_selected_exact:
  assumes "store_ok st" and "set selected \<subseteq> set (rules_of_location st lid)"
  shows "set (logically_selected selected (rules_of_location st lid)) = rule_id ` set selected"
proof -
  have "list_ex (same_logical_rule c) selected \<longleftrightarrow> c \<in> set selected" if "c \<in> set (rules_of_location st lid)" for c
    using same_rule_in_set [OF assms(1) that] assms(2) by (auto simp: list_ex_iff)
  then show ?thesis using assms(2) by (auto simp: logically_selected_def)
qed

text \<open>C16: the rule a listing shows under a number is the rule that removal by that number removes.  Numbers
  beyond the listing are refused; otherwise the next listing of the set shows the others in the same order,
  numbered anew, and the rules of every other set are untouched.\<close>

theorem listing_numbers_remove:
  assumes ok: "store_ok st"
    and listed: "list_rules_by_pattern E fails st location = Inr (pattern, rules)"
    and removed: "remove_rules E fails st location sequence = Inr st'"
  shows "(\<forall>i \<in> set sequence. i < length rules)
    \<and> list_rules_by_pattern E fails st' location = Inr (pattern, nths rules {i. i \<notin> set sequence})
    \<and> (\<forall>l \<in> set (locations st). p_text (loc_pattern l) \<noteq> p_text location \<longrightarrow>
         rules_of_location st' (loc_id l) = rules_of_location st (loc_id l))"
proof -
  from listed obtain l where l: "exact_location st location = Some l" "pattern = loc_pattern l"
    "rules = rules_of_location st (loc_id l)" by (auto simp: rules_by_pattern_Inr [OF ok])
  with removed have bound: "\<forall>i \<in> set sequence. i < length rules"
    and st': "st' = delete_rules st (logically_selected (map ((!) rules) sequence) rules)"
    by (auto simp: remove_rules_Inr [OF ok])
  have ok': "store_ok st'" using remove_ok(2) [OF ok removed] .
  have ids: "set (logically_selected (map ((!) rules) sequence) rules) = rule_id ` set (map ((!) rules) sequence)"
    unfolding l(3) using bound l(3) by (intro logically_selected_exact [OF ok]) auto
  have "rules_of_location st' (loc_id l) = nths rules {i. i \<notin> set sequence}"
    unfolding st' rules_of_location_delete ids l(3) [symmetric]
    using rules_of_location_distinct(1) [OF ok] bound l(3) by (intro nths_drop_selected) auto
  moreover have "exact_location st' location = Some l" using l(1) by (simp add: st' delete_rules_def exact_location_def)
  ultimately have "list_rules_by_pattern E fails st' location = Inr (pattern, nths rules {i. i \<notin> set sequence})"
    using listed l(2) by (simp add: rules_by_pattern_Inr [OF ok'] rules_by_pattern_Inr [OF ok])
  moreover have "rules_of_location st' (loc_id k) = rules_of_location st (loc_id k)"
    if k: "k \<in> set (locations st)" "p_text (loc_pattern k) \<noteq> p_text location" for k
  proof -
    from l(1) have "l \<in> set (locations st)" "p_text (loc_pattern l) = p_text location"
      by (auto simp: exact_location_def dest: find_SomeD)
    with ok k have other: "loc_id k \<noteq> loc_id l" by (auto simp: store_ok_def distinct_map inj_on_def)
    have "rule_id r \<notin> rule_id ` set (map ((!) rules) sequence)" if r: "r \<in> set (rules_of_location st (loc_id k))" for r
    proof
      assume "rule_id r \<in> rule_id ` set (map ((!) rules) sequence)"
      then obtain i where "i \<in> set sequence" "rule_id r = rule_id (rules ! i)" by auto
      with bound obtain s where "s \<in> set rules" "rule_id r = rule_id s" by (metis nth_mem)
      moreover from this(1) r have "s \<in> set (rule_rows st)" "rule_location s = loc_id l"
        "r \<in> set (rule_rows st)" "rule_location r = loc_id k" by (simp_all add: l(3) rules_of_location_sub)
      moreover from ok have "inj_on rule_id (set (rule_rows st))" by (simp add: store_ok_def distinct_map)
      ultimately show False using other by (metis inj_onD)
    qed
    then show ?thesis unfolding st' rules_of_location_delete ids by (simp add: filter_id_conv)
  qed
  ultimately show ?thesis using bound by blast
qed

definition example_rule :: "int \<Rightarrow> request_action \<Rightarrow> string rule_row" where
  "example_rule i action =
     \<lparr>rule_id = i, rule_location = 1, rule_action = action,
      rule_exprs = \<lparr>infix_text = ''*?'', polish_parts = [Expr Any]\<rparr>, rule_created = i, rule_updated = i\<rparr>"

definition example_location :: "string location_pattern" where
  "example_location = \<lparr>p_kind = LCommon, p_regex = ''^/'', p_text = ''/''\<rparr>"

definition example_store :: "string store" where
  "example_store =
     \<lparr>locations = [\<lparr>loc_id = 1, loc_pattern = example_location, loc_created = 1, loc_updated = 1\<rparr>],
      rule_rows = [example_rule 2 Allow, example_rule 1 Deny], next_location_id = 2, next_rule_id = 3\<rparr>"

lemma example_store_ok: "store_ok example_store"
  by (simp add: store_ok_def example_store_def example_rule_def index_key_def)

lemma example_rules: "rules_of_location example_store 1 = [example_rule 1 Deny, example_rule 2 Allow]"
  by (simp add: rules_of_location_def order_by_creation_def example_store_def example_rule_def)

lemma example_exact:
  "exact_location example_store example_location
     = Some \<lparr>loc_id = 1, loc_pattern = example_location, loc_created = 1, loc_updated = 1\<rparr>"
  by (simp add: exact_location_def example_store_def)

lemma listing_numbers_remove_witness:
  "\<exists>st'. remove_rules toy_engine (\<lambda>_. False) example_store example_location [0] = Inr st'
     \<and> list_rules_by_pattern toy_engine (\<lambda>_. False) st' example_location
         = Inr (example_location, [example_rule 2 Allow])"
proof -
  have "list_rules_by_pattern toy_engine (\<lambda>_. False) example_store example_location
      = Inr (example_location, [example_rule 1 Deny, example_rule 2 Allow])"
    by (simp add: rules_by_pattern_Inr [OF example_store_ok] example_exact example_rules)
  moreover obtain st' where st': "remove_rules toy_engine (\<lambda>_. False) example_store example_location [0] = Inr st'"
    by (simp add: remove_rules_Inr [OF example_store_ok] example_exact example_rules)
  ultimately have "list_rules_by_pattern toy_engine (\<lambda>_. False) st' example_location
      = Inr (example_location, nths [example_rule 1 Deny, example_rule 2 Allow] {i. i \<notin> set [0]})"
    using listing_numbers_remove [OF example_store_ok] by blast
  with st' show ?thesis by (simp add: nths_Cons)
qed

text \<open>The text of a listing has, under each number, the line of the rule of that number.\<close>

lemma show_matched_lines:
  "show_matched (location, rules) =
     show_set_line location @ concat (map (\<lambda>i. show_rule_line i (rules ! i)) [0..<length rules])"
proof -
  have "map (\<lambda>(i, r). show_rule_line i r) (List.enumerate 0 rules)
      = map (\<lambda>i. show_rule_line i (rules ! i)) [0..<length rules]"
    by (rule nth_equalityI) (simp_all add: nth_enumerate_eq)
  then show ?thesis by (simp add: show_matched_def show_numbered_def)
qed

end
