(* ===== verification/Policy.thy ===== *)
theory Policy
  imports RuleListing
begin

text \<open>
  The interface of access decisions: the crate \<open>dhttp-access\<close>, file \<open>access/src/policy.rs\<close>.  The trait
  \<open>LocationRuleRequest\<close> is the function that evaluates an atom; the trait \<open>LocationRuleEvaluator\<close> is the locale
  \<open>rule_evaluator\<close>, with what its two implementations promise: the matcher in memory and the database.
\<close>

section \<open>Requests\<close>

type_synonym 'r rule_request = "'r atomic \<Rightarrow> eval_error + bool"

text \<open>\<open>Evaluable for AtomicLocationRuleExpr\<close>: an atom is evaluated by asking the request.\<close>

definition atomic_evaluable :: "'r rule_request \<Rightarrow> 'r atomic \<Rightarrow> eval_error + bool" where
  "atomic_evaluable request expr = request expr"

definition request_decision :: "'r rule_request \<Rightarrow> 'r exprs \<Rightarrow> request_action \<Rightarrow> request_action option" where
  "request_decision request parts action =
     rule_eval (atomic_evaluable request) eval_error_fallback parts action"

section \<open>The interface\<close>

text \<open>\<open>serving\<close> is the rule set a path falls to, its rules from the newest on.\<close>

locale rule_evaluator =
  fixes serving :: "string \<Rightarrow> ('r location_pattern \<times> ('r exprs \<times> request_action) list) option"
    and evaluate :: "'r rule_request \<Rightarrow> string \<Rightarrow> 'r location_rule_decision_error + 'r location_rule_decision"
    and serves :: "'r location_pattern \<Rightarrow> string \<Rightarrow> bool"
  assumes serving_serves: "serving path = Some (location, rules) \<Longrightarrow> serves location path"
    and decided: "evaluate request path = Inr d \<Longrightarrow>
      \<exists>rules. serving path = Some (dec_location d, rules)
        \<and> find_map (\<lambda>(e, a). request_decision request e a) rules = Some (dec_action d)"
    and undecided: "evaluate request path = Inl (NoRuleInSet location) \<Longrightarrow>
      \<exists>rules. serving path = Some (location, rules)
        \<and> find_map (\<lambda>(e, a). request_decision request e a) rules = None"
    and unserved: "evaluate request path = Inl (NoRuleSet p) \<Longrightarrow> serving path = None"
begin

lemma allowed_by_true_rule:
  assumes "evaluate request path = Inr d" and "dec_action d = Allow"
  obtains rules e where "serving path = Some (dec_location d, rules)" "serves (dec_location d) path"
    "(e, Allow) \<in> set rules" "exprs_try_eval result_operator request e = Inr (Inr True)"
proof -
  from decided [OF assms(1)] assms(2) obtain rules where r: "serving path = Some (dec_location d, rules)"
    "find_map (\<lambda>(e, a). request_decision request e a) rules = Some Allow" by auto
  then obtain us e a vs where "rules = us @ (e, a) # vs" and ea: "request_decision request e a = Some Allow"
    by (auto simp: find_map_Some)
  then have rule: "(e, a) \<in> set rules" by simp
  from ea have "a = Allow \<and> exprs_try_eval result_operator request e = Inr (Inr True)"
    by (auto simp: request_decision_def atomic_evaluable_def [abs_def] rule_eval_def eval_error_fallback_def
        split: sum.splits if_splits)
  with r rule show thesis using serving_serves [OF r(1)] by (intro that) auto
qed

text \<open>A newest rule that cannot be evaluated for want of a client name denies, whatever its action.\<close>

lemma unnamed_denied:
  assumes "serving path = Some (location, (e, a) # rules)"
    and "exprs_try_eval result_operator request e = Inr (Inl MissingClientName)"
    and "evaluate request path = Inr d"
  shows "dec_action d = Deny"
  using decided [OF assms(3)] assms(1,2)
  by (auto simp: request_decision_def atomic_evaluable_def [abs_def] rule_eval_def eval_error_fallback_def)

text \<open>No request is decided on a path without a rule set.\<close>

lemma unserved_undecided: "serving path = None \<Longrightarrow> \<not> is_ok (evaluate request path)"
  by (cases "evaluate request path") (auto dest: decided)

end

section \<open>The two evaluators\<close>

definition matcher_serving ::
    "('r, 'q) engine \<Rightarrow> 'r location_rules_matcher \<Rightarrow> string
      \<Rightarrow> ('r location_pattern \<times> ('r exprs \<times> request_action) list) option" where
  "matcher_serving E m path =
     map_option (\<lambda>(pt, rules). (pt_pattern pt, map (\<lambda>(e, a). (polish_parts e, a)) (rev rules)))
       (find (\<lambda>(pt, _). pattern_is_match E (pt_pattern pt) path) m)"

definition database_serving ::
    "('r, 'q) engine \<Rightarrow> 'r store \<Rightarrow> string
      \<Rightarrow> ('r location_pattern \<times> ('r exprs \<times> request_action) list) option" where
  "database_serving E st path =
     map_option (\<lambda>(pt, lid). (pt_pattern pt,
         map (\<lambda>r. (polish_parts (rule_exprs r), rule_action r)) (rev (rules_of_location st lid))))
       (serving_location E st path)"

interpretation matcher_policy:
  rule_evaluator "matcher_serving E m" "\<lambda>request. evaluate_rules E (request_decision request) m" "pattern_is_match E"
  for E m
proof
  fix path location and rules :: "('a exprs \<times> request_action) list"
  assume "matcher_serving E m path = Some (location, rules)"
  then show "pattern_is_match E location path" by (auto simp: matcher_serving_def dest: find_SomeD)
qed (auto simp: matcher_serving_def evaluate_rules_def match_rule_def match_rules_def and_then_def map_err_def
    ok_or_def find_map_map comp_def case_prod_unfold
    split: sum.splits option.splits match_rule_failed.splits match_location_failed.splits prod.splits)

interpretation database_policy:
  rule_evaluator "database_serving E st" "\<lambda>request. evaluate_database E fails (request_decision request) st"
    "pattern_is_match E"
  for E fails st
proof
  fix path location and rules :: "('a exprs \<times> request_action) list"
  assume "database_serving E st path = Some (location, rules)"
  then show "pattern_is_match E location path"
    by (auto simp: database_serving_def serving_location_def dest: find_SomeD)
qed (auto simp: database_serving_def evaluate_database_def find_map_map comp_def case_prod_unfold
    split: if_splits option.splits prod.splits)

lemma dedup_sorted_sub: "set (dedup_sorted eq xs) \<subseteq> set xs"
  by (induction eq xs rule: dedup_sorted.induct) auto

lemma serving_location_stored:
  assumes "serving_location E st path = Some (pt, lid)"
  shows "\<exists>l \<in> set (locations st). loc_id l = lid \<and> loc_pattern l = pt_pattern pt"
proof -
  let ?xs = "map (\<lambda>l. (pattern_time l, loc_id l)) (locations st)"
  from assms have "(pt, lid) \<in> set (btree_collect time_cmp time_eq ?xs)"
    by (auto simp: serving_location_def dest: find_SomeD)
  then have "(pt, lid) \<in> set ?xs"
    using dedup_sorted_sub [of time_eq "stable_sort time_cmp ?xs"] by (auto simp: btree_collect_def)
  then show ?thesis by (auto simp: pattern_time_def)
qed

text \<open>C10: the database lets a request pass only by a stored allow rule of a stored rule set whose pattern matches
  the path and whose expression the request makes true, whichever statements fail; where the newest
  rule of the set cannot be evaluated for want of a client name, the decision is to deny.\<close>

theorem database_allows_by_stored_rule:
  assumes "evaluate_database E fails (request_decision request) st path = Inr d"
  shows "\<exists>l \<in> set (locations st). loc_pattern l = dec_location d \<and> pattern_is_match E (loc_pattern l) path
    \<and> (dec_action d = Allow \<longrightarrow>
         (\<exists>r \<in> set (rule_rows st). rule_location r = loc_id l \<and> rule_action r = Allow
            \<and> exprs_try_eval result_operator request (polish_parts (rule_exprs r)) = Inr (Inr True)))
    \<and> (\<forall>r older. rules_of_location st (loc_id l) = older @ [r]
         \<and> exprs_try_eval result_operator request (polish_parts (rule_exprs r)) = Inr (Inl MissingClientName) \<longrightarrow>
         dec_action d = Deny)"
proof -
  from database_policy.decided [OF assms] obtain pt lid where serving: "serving_location E st path = Some (pt, lid)"
    "dec_location d = pt_pattern pt" by (auto simp: database_serving_def)
  from serving_location_stored [OF serving(1)] obtain l where
    l: "l \<in> set (locations st)" "loc_id l = lid" "loc_pattern l = dec_location d" using serving(2) by auto
  have match: "pattern_is_match E (dec_location d) path"
    using serving by (intro database_policy.serving_serves [of E st]) (auto simp: database_serving_def)
  have "\<exists>r \<in> set (rule_rows st). rule_location r = loc_id l \<and> rule_action r = Allow
      \<and> exprs_try_eval result_operator request (polish_parts (rule_exprs r)) = Inr (Inr True)"
    if allow: "dec_action d = Allow"
  proof -
    obtain rules e where "database_serving E st path = Some (dec_location d, rules)" "(e, Allow) \<in> set rules"
      "exprs_try_eval result_operator request e = Inr (Inr True)"
      by (rule database_policy.allowed_by_true_rule [OF assms allow])
    then show ?thesis using serving(1) l(2)
      by (auto simp: database_serving_def rules_of_location_sub) metis
  qed
  moreover have "dec_action d = Deny"
    if "rules_of_location st (loc_id l) = older @ [r]"
      "exprs_try_eval result_operator request (polish_parts (rule_exprs r)) = Inr (Inl MissingClientName)" for r older
  proof (rule database_policy.unnamed_denied [OF _ that(2) assms])
    show "database_serving E st path = Some (dec_location d, (polish_parts (rule_exprs r), rule_action r)
        # map (\<lambda>r. (polish_parts (rule_exprs r), rule_action r)) (rev older))"
      using serving l(2) that(1) by (simp add: database_serving_def)
  qed
  ultimately show ?thesis using l match by (intro bexI [of _ l]) auto
qed

lemma database_allows_by_stored_rule_witness:
  "\<exists>d. evaluate_database toy_engine (\<lambda>_. False) (request_decision (\<lambda>_. Inr True)) example_store ''/x'' = Inr d
     \<and> (\<exists>l \<in> set (locations example_store). loc_pattern l = dec_location d \<and> dec_action d = Allow
          \<and> (\<exists>r \<in> set (rule_rows example_store). rule_location r = loc_id l \<and> rule_action r = Allow))"
proof -
  have "pattern_is_match toy_engine example_location ''/x''"
    by (simp add: pattern_is_match_def toy_engine_def example_location_def)
  then have "serving_location toy_engine example_store ''/x''
      = Some (\<lparr>pt_timestamp = 0, pt_pattern = example_location\<rparr>, 1)"
    by (simp add: serving_location_def example_store_def btree_collect_def stable_sort_def pattern_time_def
        timestamp_micros_def)
  moreover have "request_decision (\<lambda>_. Inr True) [Expr (Any :: string atomic)] Allow = Some Allow"
    by (simp add: request_decision_def atomic_evaluable_def rule_eval_def exprs_try_eval_def try_run_def vm_step_def
        new_vm_def vm_try_eval.simps vm_finish_def)
  ultimately have e: "evaluate_database toy_engine (\<lambda>_. False) (request_decision (\<lambda>_. Inr True)) example_store ''/x''
      = Inr \<lparr>dec_location = example_location, dec_action = Allow\<rparr>"
    by (simp add: evaluate_database_def example_rules) (simp add: example_rule_def)
  from database_allows_by_stored_rule [OF e] e show ?thesis by auto
qed

end
