(* ===== verification/Responses.thy ===== *)
theory Responses
  imports Network
begin

text \<open>
  Sending a request and awaiting its response: the crate \<open>dhttp\<close>, file \<open>dhttp/src/endpoint/request.rs\<close>, the two
  implementations of \<open>IntoFuture\<close>.  The connection comes from the pool of the network; the streams and the
  transfer over them are those of the crate \<open>h3x\<close> and are arguments.
\<close>

section \<open>The connection of a request\<close>

text \<open>\<open>DhttpNetwork::global\<close> and its \<open>get_connection\<close>: the connection with the certificates of its peer.\<close>

definition pooled ::
    "('q, 'k, 's, 'v, 'r) quic_ops \<Rightarrow> ('q, 'c) connector \<Rightarrow> ('c, 'k, 'p) pool_ops \<Rightarrow> ('svc, 'r) network option \<Rightarrow> 'p
      \<Rightarrow> ('k endpoint option \<Rightarrow> string \<Rightarrow> core_error + 'c transport \<times> 'c list option) option" where
  "pooled ops cn pl net p =
     map_option (\<lambda>n e remote.
       and_then (fst (get_connection ops cn pl (Some n) e remote p)) (\<lambda>t.
         Inr (t, map_option authority_chain (remote_authority t)))) net"

definition pool_after ::
    "http_crate \<Rightarrow> ('q, 'k, 's, 'v, 'r) quic_ops \<Rightarrow> ('q, 'c) connector \<Rightarrow> ('c, 'k, 'p) pool_ops
      \<Rightarrow> ('svc, 'r) network option \<Rightarrow> 'k request \<Rightarrow> 'p \<Rightarrow> 'p" where
  "pool_after h ops cn pl net r p =
     (case (resolve_request_uri h (map_option endpoint_name (endpoint_of r)) (request_uri r), net) of
        (Inr (u, remote), Some n) \<Rightarrow> snd (get_connection ops cn pl (Some n) (endpoint_of r) remote p)
      | _ \<Rightarrow> p)"

definition request_connection where
  "request_connection h parse ops cn pl net r p =
     (connect_request h parse (pooled ops cn pl net p) r, pool_after h ops cn pl net r p)"

section \<open>The response\<close>

text \<open>The message and the authority among its extensions.\<close>

record ('m, 'c) response =
  response_message :: 'm
  response_peer :: "'c authority option"

definition with_peer :: "'c authority option \<Rightarrow> ('m, 'c) response \<Rightarrow> ('m, 'c) response" where
  "with_peer peer response =
     (case peer of Some a \<Rightarrow> response\<lparr>response_peer := Some a\<rparr> | None \<Rightarrow> response)"

text \<open>An empty request: \<open>open_bi\<close> opens the streams, \<open>transfer\<close> is how the two directions end on them.\<close>

definition empty_into_future where
  "empty_into_future h parse ops cn pl net open_bi transfer r p =
     (case request_connection h parse ops cn pl net r p of (connected, p) \<Rightarrow>
        (and_then connected (\<lambda>(h3, message).
         and_then (map_err Http3 (open_bi h3)) (\<lambda>streams.
         case transfer message streams of (writing, reading) \<Rightarrow>
         and_then (send_empty_request writing reading) (\<lambda>response.
           Inr (with_peer (remote_authority h3) response)))), p))"

text \<open>A streaming request gives its writer and the future of the response, which keeps the peer.\<close>

definition window_into_future where
  "window_into_future h parse ops cn pl net open_bi r p =
     (case request_connection h parse ops cn pl net r p of (connected, p) \<Rightarrow>
        (and_then connected (\<lambda>(h3, message).
         and_then (map_err Http3 (open_bi h3)) (\<lambda>streams.
           Inr (message, streams, send_request message, remote_authority h3))), p))"

text \<open>The future: \<open>reading\<close> is how \<open>read_response\<close> ends; an error cancels the shared window with its code.\<close>

definition await_response ::
    "'c authority option \<Rightarrow> h3_error + ('m, 'c) response \<Rightarrow> request_writer
      \<Rightarrow> (core_error + ('m, 'c) response) \<times> request_writer" where
  "await_response peer reading w =
     (case reading of
        Inl e \<Rightarrow> (Inl (Http3 e), writer_act (ResponseFailed (h3_code e)) w)
      | Inr response \<Rightarrow> (Inr (with_peer peer response), w))"

section \<open>Facts\<close>

text \<open>The first certificate of a chain carries the owner.\<close>

definition chain_owner :: "('c \<Rightarrow> extension list option) \<Rightarrow> 'c list \<Rightarrow> owner_hash \<Rightarrow> bool" where
  "chain_owner parse chain owner \<longleftrightarrow>
     (\<exists>ski. extract_dhttp_ski parse chain = Inr ski \<and> ski_owner_hash ski = owner)"

lemma check_peer_owner:
  "check_peer parse (Some owner) (map_option authority_chain peer) = Inr () \<Longrightarrow>
     \<exists>a. peer = Some a \<and> chain_owner parse (authority_chain a) owner"
  by (cases peer) (auto simp: check_peer_def chain_owner_def split: sum.splits if_splits)

lemma request_connection_Inr:
  assumes "request_connection h parse ops cn pl net r p = (Inr (h3, message), p')"
  obtains n u remote where "net = Some n"
    "resolve_request_uri h (map_option endpoint_name (endpoint_of r)) (request_uri r) = Inr (u, remote)"
    "message = r\<lparr>request_uri := u\<rparr>"
    "get_connection ops cn pl net (endpoint_of r) remote p = (Inr h3, p')"
    "check_peer parse (expected_owner r) (map_option authority_chain (remote_authority h3)) = Inr ()"
proof -
  have c: "connect_request h parse (pooled ops cn pl net p) r = Inr (h3, message)"
    and p': "p' = pool_after h ops cn pl net r p"
    using assms by (simp_all add: request_connection_def)
  from c obtain u remote get peer where uri:
    "resolve_request_uri h (map_option endpoint_name (endpoint_of r)) (request_uri r) = Inr (u, remote)"
    and get: "pooled ops cn pl net p = Some get" "get (endpoint_of r) remote = Inr (h3, peer)"
    and rest: "message = r\<lparr>request_uri := u\<rparr>" "check_peer parse (expected_owner r) peer = Inr ()"
    by (auto simp: connect_request_def and_then_eq_Inr)
  from get obtain n where n: "net = Some n" "fst (get_connection ops cn pl net (endpoint_of r) remote p) = Inr h3"
    and peer: "peer = map_option authority_chain (remote_authority h3)"
    by (auto simp: pooled_def and_then_eq_Inr)
  have "get_connection ops cn pl net (endpoint_of r) remote p = (Inr h3, p')"
    using n uri p' by (simp add: pool_after_def prod_eq_iff)
  with uri n rest peer that show thesis by blast
qed

text \<open>The authority of the connection: that of the resolved name, with the owner that was asked for.\<close>

definition asked_for where
  "asked_for h parse server_of r a \<longleftrightarrow>
     (\<exists>u remote. resolve_request_uri h (map_option endpoint_name (endpoint_of r)) (request_uri r) = Inr (u, remote)
        \<and> authority_name a = server_of remote)
     \<and> (\<forall>owner. expected_owner r = Some owner \<longrightarrow> chain_owner parse (authority_chain a) owner)"

lemma connection_asked_for:
  assumes "quic_contract ops vw" "pool_contract pl entries" "connector_contract vw server_of cn"
    and "entries_match server_of entries p"
    and c: "request_connection h parse ops cn pl net r p = (Inr (h3, message), p')"
  shows "\<exists>a. remote_authority h3 = Some a \<and> asked_for h parse server_of r a
     \<and> map_option authority_name (local_authority h3) = map_option endpoint_name (endpoint_of r)"
proof -
  from c obtain u remote where uri:
    "resolve_request_uri h (map_option endpoint_name (endpoint_of r)) (request_uri r) = Inr (u, remote)"
    and g: "get_connection ops cn pl net (endpoint_of r) remote p = (Inr h3, p')"
    and check: "check_peer parse (expected_owner r) (map_option authority_chain (remote_authority h3)) = Inr ()"
    by (rule request_connection_Inr)
  from get_connection_match [OF assms(1-4) g]
  have m: "names_match server_of (map_option endpoint_name (endpoint_of r), Some remote) h3" by simp
  then obtain a where a: "remote_authority h3 = Some a" "authority_name a = server_of remote"
    by (auto simp: names_match_def)
  have "chain_owner parse (authority_chain a) owner" if "expected_owner r = Some owner" for owner
    using check_peer_owner [of parse owner "remote_authority h3"] check that a(1) by auto
  moreover have "map_option authority_name (local_authority h3) = map_option endpoint_name (endpoint_of r)"
    using m by (simp add: names_match_def)
  ultimately show ?thesis using a uri unfolding asked_for_def by blast
qed

lemma request_pool_match:
  assumes "quic_contract ops vw" "pool_contract pl entries" "connector_contract vw server_of cn"
    and ok: "entries_match server_of entries p"
    and c: "request_connection h parse ops cn pl net r p = (c, p')"
  shows "entries_match server_of entries p'"
proof (cases "p' = p")
  case False
  then obtain n u remote where "net = Some n" "p' = snd (get_connection ops cn pl (Some n) (endpoint_of r) remote p)"
    using c by (auto simp: request_connection_def pool_after_def split: sum.splits option.splits)
  then have "get_connection ops cn pl (Some n) (endpoint_of r) remote p
      = (fst (get_connection ops cn pl (Some n) (endpoint_of r) remote p), p')" by simp
  from get_connection_match [OF assms(1-3) ok this] show ?thesis by simp
qed (use ok in simp)

lemma empty_into_future_Inr:
  assumes "empty_into_future h parse ops cn pl net open_bi transfer r p = (Inr response, p')"
  obtains h3 message old where "request_connection h parse ops cn pl net r p = (Inr (h3, message), p')"
    "response = with_peer (remote_authority h3) old"
  using assms
  by (auto simp: empty_into_future_def and_then_eq_Inr case_prod_beta prod_eq_iff)

lemma window_into_future_Inr:
  assumes "window_into_future h parse ops cn pl net open_bi r p = (Inr (message, streams, w, peer), p')"
  obtains h3 where "request_connection h parse ops cn pl net r p = (Inr (h3, message), p')"
    "peer = remote_authority h3" "w = send_request message"
  using assms
  by (auto simp: window_into_future_def and_then_eq_Inr split: prod.splits)

section \<open>Properties\<close>

text \<open>
  C5: A response names the peer that was asked for.  Whatever was requested, accepted and closed before, the
  authority that the response of a request carries, streaming or not, is that of the peer of the connection it
  was sent on: a server authenticated for the name its URI resolves to, whose first certificate carries the
  owner the request expects, if it expects one.  The connection, found or made, stays one of the pool's, and
  the connections of the pool keep to the names they are held for.
\<close>

theorem responses_name_the_peer:
  assumes "quic_contract ops vw" "pool_contract pl entries" "connector_contract vw server_of cn"
    and "entries p0 = {}" "list_all (pool_event_ok vw server_of) evs" "p = fold (pool_step ops pl) evs p0"
  shows "(\<forall>response p'. empty_into_future h parse ops cn pl net open_bi transfer r p = (Inr response, p') \<longrightarrow>
        entries_match server_of entries p'
        \<and> (\<exists>a. response_peer response = Some a \<and> asked_for h parse server_of r a))
    \<and> (\<forall>message streams w peer p' reading w' response.
        window_into_future h parse ops cn pl net open_bi r p = (Inr (message, streams, w, peer), p')
        \<and> fst (await_response peer reading w') = Inr response \<longrightarrow>
        entries_match server_of entries p'
        \<and> (\<exists>a. response_peer response = Some a \<and> asked_for h parse server_of r a))"
proof -
  have ok: "entries_match server_of entries p"
    using pool_run_match [OF assms(1,2,5), of p0] assms(4,6) by (simp add: entries_match_def)
  have kept: "entries_match server_of entries p'" if "request_connection h parse ops cn pl net r p = (c, p')" for c p'
    using request_pool_match [OF assms(1-3) ok that] .
  note peer = connection_asked_for [OF assms(1-3) ok]
  show ?thesis
  proof (intro conjI allI impI; (elim conjE)?)
    fix response p' assume "empty_into_future h parse ops cn pl net open_bi transfer r p = (Inr response, p')"
    then obtain h3 message old where c: "request_connection h parse ops cn pl net r p = (Inr (h3, message), p')"
      and response: "response = with_peer (remote_authority h3) old"
      by (rule empty_into_future_Inr)
    show "entries_match server_of entries p'" by (rule kept [OF c])
    show "\<exists>a. response_peer response = Some a \<and> asked_for h parse server_of r a"
      using peer [OF c] by (auto simp: response with_peer_def)
  next
    fix message streams w remote p' reading w' response
    assume "window_into_future h parse ops cn pl net open_bi r p = (Inr (message, streams, w, remote), p')"
      and reading: "fst (await_response remote reading w') = Inr response"
    then obtain h3 where c: "request_connection h parse ops cn pl net r p = (Inr (h3, message), p')"
      and remote: "remote = remote_authority h3" by (auto elim: window_into_future_Inr)
    show "entries_match server_of entries p'" by (rule kept [OF c])
    show "\<exists>a. response_peer response = Some a \<and> asked_for h parse server_of r a"
      using peer [OF c] reading by (auto simp: remote await_response_def with_peer_def split: sum.splits)
  qed
qed

text \<open>Alice asks bob, whose connection to her is in the pool, and expects the owner his certificate carries.\<close>

definition known_bob :: "string authority" where
  "known_bob = \<lparr>authority_name = ''bob.dhttp.net'', authority_chain = [show_ski example_ski]\<rparr>"

definition no_connector :: "(map_endpoint, string) connector" where
  "no_connector = \<lparr>quic_connect = (\<lambda>_ _. Inl ''unreachable''), h3_new = (\<lambda>_. None)\<rparr>"

definition known_bob_connects :: "(map_endpoint, string, unit, string, map_registry) pool_event" where
  "known_bob_connects =
     Accept no_connector ''alice.dhttp.net'' (Some known_bob) \<lparr>authority_name = ''alice.dhttp.net'', authority_chain = []\<rparr> 1 ''h3''"

definition asking_bob :: "unit request" where
  "asking_bob = expect_remote_owner_hash (ski_owner_hash example_ski)
     (endpoint_get (Some (example_endpoint ''c1'' ''s1''))
        \<lparr>uri_scheme = Some ''https'', uri_authority = Some ''bob~'', uri_path = None\<rparr>)"

theorem responses_name_the_peer_witness:
  "\<exists>p'. empty_into_future plain_http (\<lambda>c. Some [\<lparr>ext_key_identifier = Some c, ext_is_ski = True\<rparr>]) map_quic no_connector
      map_pool (Some (fst example_listening)) (\<lambda>_. Inr ())
      (\<lambda>_ _. (Inr (), Inr \<lparr>response_message = ''ok'', response_peer = None\<rparr>)) asking_bob
      (fold (pool_step map_quic map_pool) [known_bob_connects] [])
     = (Inr \<lparr>response_message = ''ok'', response_peer = Some known_bob\<rparr>, p')
    \<and> entries_match (takeWhile (\<lambda>c. c \<noteq> CHR '':'')) set p'"
proof -
  let ?parse = "\<lambda>c. Some [\<lparr>ext_key_identifier = Some c, ext_is_ski = True\<rparr>]"
  let ?open = "\<lambda>_. Inr () :: h3_error + unit"
  let ?answer = "\<lambda>_ _. (Inr (), Inr \<lparr>response_message = ''ok'', response_peer = None\<rparr>)"
  let ?server = "takeWhile (\<lambda>c. c \<noteq> CHR '':'')"
  let ?net = "Some (fst example_listening)"
  let ?p = "fold (pool_step map_quic map_pool) [known_bob_connects] []"
  let ?alice = "\<lparr>authority_name = ''alice.dhttp.net'', authority_chain = []\<rparr> :: string authority"
  let ?h = "\<lparr>transport_id = 1, transport_alpn = ''h3'', local_authority = Some ?alice,
    remote_authority = Some known_bob, transport_role = ServerRole\<rparr>"
  let ?u = "\<lparr>uri_scheme = Some ''https'', uri_authority = Some ''bob.dhttp.net'', uri_path = None\<rparr>"
  have cn: "connector_contract map_view ?server no_connector"
    by (simp add: connector_contract_def no_connector_def)
  have evs: "list_all (pool_event_ok map_view ?server) [known_bob_connects]"
    by (simp add: known_bob_connects_def known_bob_def)
  have p: "?p = [((Some ''alice.dhttp.net'', Some ''bob.dhttp.net''), ?h)]"
    by (simp add: known_bob_connects_def known_bob_def accept_connection_def h3_setup_def quic_transport_def
        map_pool_def no_connector_def and_then_def)
  have uri: "resolve_request_uri plain_http (Some ''alice.dhttp.net'')
      \<lparr>uri_scheme = Some ''https'', uri_authority = Some ''bob~'', uri_path = None\<rparr> = Inr (?u, ''bob.dhttp.net'')"
    by code_simp
  have found: "get_connection map_quic no_connector map_pool ?net (Some (example_endpoint ''c1'' ''s1'')) ''bob.dhttp.net'' ?p
      = (Inr ?h, ?p)"
    unfolding p by (simp add: get_connection_def map_pool_def example_endpoint_def Let_def)
  have name: "map_option endpoint_name (Some (example_endpoint ''c1'' ''s1'')) = Some ''alice.dhttp.net''"
    by (simp add: example_endpoint_def)
  have "request_connection plain_http ?parse map_quic no_connector map_pool ?net asking_bob ?p
      = (Inr (?h, asking_bob\<lparr>request_uri := ?u\<rparr>), ?p)"
    using example_ski_read uri name found
    by (simp add: request_connection_def connect_request_def pooled_def pool_after_def asking_bob_def known_bob_def
        expect_remote_owner_hash_def endpoint_get_def empty_request_def check_peer_def extract_dhttp_ski_def extract_ski_def
        del: fold.simps)
  then have e: "empty_into_future plain_http ?parse map_quic no_connector map_pool ?net ?open ?answer asking_bob ?p
      = (Inr \<lparr>response_message = ''ok'', response_peer = Some known_bob\<rparr>, ?p)"
    by (simp add: empty_into_future_def send_empty_request_def declined_def with_peer_def del: fold.simps)
  from responses_name_the_peer [OF map_quic_contract map_pool_contract cn _ evs refl,
      where h = plain_http and parse = ?parse and net = ?net and open_bi = ?open and transfer = ?answer and r = asking_bob]
  have "entries_match ?server set ?p" using e by (auto simp del: fold.simps)
  with e show ?thesis by blast
qed

end
