(* ===== verification/NativeObjects.thy ===== *)
theory NativeObjects
  imports Natives
begin

text \<open>
  The objects of the two languages: the crate \<open>dhttp-api\<close>, files \<open>api/src/napi.rs\<close> and \<open>api/src/python.rs\<close>,
  \<open>NativeClient\<close>, \<open>NativeExchange\<close>, \<open>NativeResponse\<close>, \<open>NativeIncoming\<close>, \<open>NativeUpload\<close>,
  \<open>NativeListener\<close> and \<open>Authority\<close>.  The methods of an object are one function from a call and the state of
  the object to the answer and the new state; an asynchronous method answers \<open>None\<close> while it is pending, and
  a call that was begun is polled by a call of its own.
\<close>

section \<open>Values at the border\<close>

text \<open>Node gives and takes buffers and header objects; Python takes plain bytes and pairs and gives \<open>PyBytes\<close>.\<close>

datatype napi_buffer = Buffer (buffer_bytes: string)

datatype py_bytes = PyBytes (py_contents: string)

record napi_header =
  napi_header_name :: string
  napi_header_value :: napi_buffer

definition napi_fields :: "napi_header list \<Rightarrow> (string \<times> string) list" where
  "napi_fields hs = map (\<lambda>h. (napi_header_name h, buffer_bytes (napi_header_value h))) hs"

definition napi_headers :: "(string \<times> string) list \<Rightarrow> napi_header list" where
  "napi_headers fs = map (\<lambda>(name, v). \<lparr>napi_header_name = name, napi_header_value = Buffer v\<rparr>) fs"

definition python_fields :: "(string \<times> string) list \<Rightarrow> (string \<times> py_bytes) list" where
  "python_fields fs = map (\<lambda>(name, v). (name, PyBytes v)) fs"

record napi_authority =
  napi_name :: string
  napi_certificates :: "napi_buffer list"
  napi_public_key :: napi_buffer
  napi_owner_hash :: string
  napi_identifier :: napi_buffer

definition napi_authority_from :: "binding_authority \<Rightarrow> napi_authority" where
  "napi_authority_from a =
     \<lparr>napi_name = auth_name a, napi_certificates = map Buffer (auth_certificates a),
      napi_public_key = Buffer (auth_public_key a), napi_owner_hash = auth_owner_hash a,
      napi_identifier = Buffer (auth_identifier a)\<rparr>"

text \<open>The class \<open>Authority\<close> of Python wraps that of the bindings; its attributes are getters.\<close>

datatype py_authority = PyAuthority (py_inner: binding_authority)

definition python_name :: "py_authority \<Rightarrow> string" where
  "python_name a = auth_name (py_inner a)"

definition python_owner_hash :: "py_authority \<Rightarrow> string" where
  "python_owner_hash a = auth_owner_hash (py_inner a)"

definition python_certificates :: "py_authority \<Rightarrow> py_bytes list" where
  "python_certificates a = map PyBytes (auth_certificates (py_inner a))"

definition python_public_key :: "py_authority \<Rightarrow> py_bytes" where
  "python_public_key a = PyBytes (auth_public_key (py_inner a))"

definition python_identifier :: "py_authority \<Rightarrow> py_bytes" where
  "python_identifier a = PyBytes (auth_identifier (py_inner a))"

text \<open>The functions that take no object.\<close>

definition binding_addresses :: "('a \<Rightarrow> string) \<Rightarrow> ('a \<times> 'i) list \<Rightarrow> string list" where
  "binding_addresses show_address book = map (\<lambda>(address, _). show_address address) book"

definition napi_verify_signature where
  "napi_verify_signature json decode verify public_key data signature =
     map_err (napi_err json)
       (binding_verify decode verify (buffer_bytes public_key) (buffer_bytes data) (buffer_bytes signature))"

definition python_verify_signature where
  "python_verify_signature decode verify public_key data signature =
     map_err python_err (binding_verify decode verify public_key data signature)"

definition python_authority_verify where
  "python_authority_verify decode verify a data signature =
     map_err python_err (binding_verify decode verify (auth_public_key (py_inner a)) data signature)"

text \<open>What a method gives; \<open>'b\<close>, \<open>'f\<close> and \<open>'a\<close> are the bytes, the fields and the authorities of the language.\<close>

datatype ('b, 'f, 'a) native_value = VDone | VNull | VBytes 'b | VText string | VNumber nat | VFields 'f
  | VAuthority 'a | VUpload

type_synonym napi_value = "(napi_buffer, napi_header list, napi_authority) native_value"

type_synonym py_value = "(py_bytes, (string \<times> py_bytes) list, py_authority) native_value"

text \<open>\<open>map_err(err)\<close> of a result, and an optional value.\<close>

definition given :: "(sdk_error \<Rightarrow> 'x) \<Rightarrow> ('y \<Rightarrow> 'v) \<Rightarrow> sdk_error + 'y \<Rightarrow> 'x + 'v" where
  "given err f r = map_err err (and_then r (\<lambda>x. Inr (f x)))"

definition optional :: "('y \<Rightarrow> ('b, 'f, 'a) native_value) \<Rightarrow> 'y option \<Rightarrow> ('b, 'f, 'a) native_value" where
  "optional f x = (case x of None \<Rightarrow> VNull | Some y \<Rightarrow> f y)"

section \<open>Authorities\<close>

text \<open>What TLS and the parser of certificates give of an authority, and how it signs.\<close>

record tls_ops =
  key_of :: "string authority \<Rightarrow> string"
  sign_with :: "string authority \<Rightarrow> offered_scheme \<Rightarrow> string \<Rightarrow> sign_error + string"
  read_certificate :: "string \<Rightarrow> extension list option"
  dhttp_ski_text :: "extract_dhttp_ski_error \<Rightarrow> string"
  ski_text :: "extract_ski_error \<Rightarrow> string"

definition binding_authority_of :: "tls_ops \<Rightarrow> string authority \<Rightarrow> sdk_error + binding_authority" where
  "binding_authority_of tls a =
     authority_new (dhttp_ski_text tls) (ski_text tls) (read_certificate tls) (authority_name a) (authority_chain a)
       (key_of tls a)"

section \<open>Clients\<close>

datatype factory_call = Anonymous | LoadName string | LoadPath path

fun napi_factory where
  "napi_factory json texts display absolute w Anonymous = Some (Inr client_anonymous)"
| "napi_factory json texts display absolute w (LoadName name) =
     map_option (map_err (napi_err json)) (client_load texts display w name)"
| "napi_factory json texts display absolute w (LoadPath dir) =
     map_option (map_err (napi_err json)) (client_load_from texts display absolute w dir)"

fun python_factory where
  "python_factory texts display absolute w Anonymous = Some (Inr client_anonymous)"
| "python_factory texts display absolute w (LoadName name) =
     map_option (map_err python_err) (client_load texts display w name)"
| "python_factory texts display absolute w (LoadPath dir) =
     map_option (map_err python_err) (client_load_from texts display absolute w dir)"

datatype 'b client_call = ClientName | ClientSign 'b | ClientReload | ClientClose | ClientAuthority

text \<open>\<open>build\<close> makes the local authority of an endpoint; the state is the handle and the network.  Closing again
  polls the wait for the tasks.\<close>

definition signer where
  "signer tls build e = and_then (build e) (\<lambda>a. Inr (sign_with tls a))"

fun napi_client where
  "napi_client json tls display build texts w ops valid ClientName (c, net) =
     (Some (Inr (optional VText (client_name c))), (c, net))"
| "napi_client json tls display build texts w ops valid (ClientSign data) (c, net) =
     (Some (given (napi_err json) (\<lambda>s. VBytes (Buffer s))
        (client_sign display (signer tls build) c (buffer_bytes data))), (c, net))"
| "napi_client json tls display build texts w ops valid ClientReload (c, net) =
     (case client_reload display texts w ops valid c net of
        None \<Rightarrow> (None, (c, net))
      | Some (r, c, net) \<Rightarrow> (Some (given (napi_err json) (\<lambda>_. VDone) r), (c, net)))"
| "napi_client json tls display build texts w ops valid ClientClose (c, net) =
     (let c = client_close c in (if wait_ready (client_scope c) then Some (Inr VDone) else None, (c, net)))"
| "napi_client json tls display build texts w ops valid ClientAuthority (c, net) =
     (Some (and_then (native_local_authority (napi_err json) display build (binding_authority_of tls) c)
        (\<lambda>a. Inr (optional (\<lambda>b. VAuthority (napi_authority_from b)) a))), (c, net))"

fun python_client where
  "python_client tls display build texts w ops valid ClientName (c, net) =
     (Some (Inr (optional VText (client_name c))), (c, net))"
| "python_client tls display build texts w ops valid ClientClose (c, net) =
     (let c = client_close c in (if wait_ready (client_scope c) then Some (Inr VDone) else None, (c, net)))"
| "python_client tls display build texts w ops valid (ClientSign data) (c, net) =
     (Some (given python_err (\<lambda>s. VBytes (PyBytes s)) (client_sign display (signer tls build) c data)), (c, net))"
| "python_client tls display build texts w ops valid ClientReload (c, net) =
     (case client_reload display texts w ops valid c net of
        None \<Rightarrow> (None, (c, net))
      | Some (r, c, net) \<Rightarrow> (Some (given python_err (\<lambda>_. VDone) r), (c, net)))"
| "python_client tls display build texts w ops valid ClientAuthority (c, net) =
     (Some (and_then (native_local_authority python_err display build (binding_authority_of tls) c)
        (\<lambda>a. Inr (optional (\<lambda>b. VAuthority (PyAuthority b)) a))), (c, net))"

definition napi_start where
  "napi_start json parse pem set_roots init fp build http_method u hs has_body timeout owner_text trailers c w =
     native_start (napi_err json) parse pem set_roots init fp build http_method u (napi_fields hs) has_body timeout
       owner_text (napi_fields trailers) c w"

definition python_start where
  "python_start parse pem set_roots init fp build http_method u fs has_body timeout owner_text trailers c w =
     native_start python_err parse pem set_roots init fp build http_method u fs has_body timeout owner_text trailers c w"

definition napi_listen where
  "napi_listen json parse pem set_roots init display core_init ops sc names service c n w =
     native_listen (napi_err json) parse pem set_roots init display core_init ops sc names service c n w"

definition python_listen where
  "python_listen parse pem set_roots init display core_init ops sc names service c n w =
     native_listen python_err parse pem set_roots init display core_init ops sc names service c n w"

section \<open>Uploads\<close>

text \<open>The wait for the end of an upload says whether its first poll has cloned the sender.\<close>

datatype ('b, 'f) upload_call = Write 'b | FinishWith 'f | FailWith string | AwaitClosed bool | PollCall | PollCancelled

text \<open>What the language sees of an event: a call that ended is answered, any other waits.\<close>

fun event_answer :: "'x + upload_event \<Rightarrow> ('x + ('b, 'f, 'a) native_value) option" where
  "event_answer (Inl e) = Some (Inl e)"
| "event_answer (Inr (Accepted bytes)) = Some (Inr VDone)"
| "event_answer (Inr (Finished trailers)) = Some (Inr VDone)"
| "event_answer (Inr _) = None"

definition settled ::
    "(('x + upload_event) \<times> 'u) option \<Rightarrow> 'u \<Rightarrow> ('x + ('b, 'f, 'a) native_value) option \<times> 'u" where
  "settled r u = (case r of None \<Rightarrow> (None, u) | Some (ev, v) \<Rightarrow> (event_answer ev, v))"

text \<open>The poll of a call under way goes on with it or finds the upload cancelled.\<close>

definition upload_poll :: "(sdk_error \<Rightarrow> 'x) \<Rightarrow> (upload_event \<times> upload) option \<Rightarrow> (('x + upload_event) \<times> upload) option" where
  "upload_poll err r = map_option (\<lambda>(ev, u). (native_event err ev, u)) r"

fun napi_upload ::
    "(native_error \<Rightarrow> string) \<Rightarrow> field_parsers \<Rightarrow> (napi_buffer, napi_header list) upload_call \<Rightarrow> upload
      \<Rightarrow> (string + napi_value) option \<times> upload" where
  "napi_upload json fp (Write bytes) u = settled (upload_write (napi_err json) (buffer_bytes bytes) u) u"
| "napi_upload json fp (FinishWith trailers) u = settled (upload_finish (napi_err json) fp (napi_fields trailers) u) u"
| "napi_upload json fp (FailWith message) u = (Some (Inr VDone), fail_upload (sdk_new CodeProducer message) u)"
| "napi_upload json fp (AwaitClosed cloned) u = (if upload_closed cloned u then Some (Inr VDone) else None, u)"
| "napi_upload json fp PollCall u = settled (upload_poll (napi_err json) (resume_call u)) u"
| "napi_upload json fp PollCancelled u = settled (upload_poll (napi_err json) (cancel_call u)) u"

fun python_upload ::
    "field_parsers \<Rightarrow> (string, (string \<times> string) list) upload_call \<Rightarrow> upload
      \<Rightarrow> (native_error + py_value) option \<times> upload" where
  "python_upload fp (Write bytes) u = settled (upload_write python_err bytes u) u"
| "python_upload fp (FinishWith trailers) u = settled (upload_finish python_err fp trailers u) u"
| "python_upload fp (FailWith message) u = (Some (Inr VDone), fail_upload (sdk_new CodeProducer message) u)"
| "python_upload fp (AwaitClosed cloned) u = (if upload_closed cloned u then Some (Inr VDone) else None, u)"
| "python_upload fp PollCall u = settled (upload_poll python_err (resume_call u)) u"
| "python_upload fp PollCancelled u = settled (upload_poll python_err (cancel_call u)) u"

section \<open>Exchanges\<close>

text \<open>The task with its future and its cancellation, whether a call of \<open>response\<close> has taken the future, and
  the upload.\<close>

record 'r exchange_object =
  object_task :: "'r request_task"
  future_taken :: bool
  object_upload :: "upload option"

definition exchange_of :: "'r exchange_object \<Rightarrow> 'r exchange" where
  "exchange_of x =
     \<lparr>exch_response = if future_taken x then None else Some (object_task x), exch_upload = object_upload x\<rparr>"

datatype ('b, 'f) exchange_call = AwaitResponse | PollResponse | WriteUpload 'b | FinishExchange 'f | FailExchange string
  | CancelExchange | AwaitUploadClosed bool

text \<open>A poll of the future that \<open>response\<close> awaits.\<close>

definition poll_future :: "(sdk_error \<Rightarrow> 'x) \<Rightarrow> 'r exchange_object \<Rightarrow> ('x + 'r) option \<times> 'r exchange_object" where
  "poll_future err x =
     (case future_poll (object_task x) of (r, t) \<Rightarrow> (map_option (map_err err) r, x\<lparr>object_task := t\<rparr>))"

definition native_response :: "(sdk_error \<Rightarrow> 'x) \<Rightarrow> 'r exchange_object \<Rightarrow> ('x + 'r) option \<times> 'r exchange_object" where
  "native_response err x =
     (case exchange_response (exchange_of x) of
        (Inl e, _) \<Rightarrow> (Some (Inl (err e)), x)
      | (Inr t, _) \<Rightarrow> poll_future err (x\<lparr>object_task := t, future_taken := True\<rparr>))"

definition object_settled ::
    "(('x + upload_event) \<times> 'r exchange) option \<Rightarrow> 'r exchange_object
      \<Rightarrow> ('x + ('b, 'f, 'a) native_value) option \<times> 'r exchange_object" where
  "object_settled r x =
     (case r of None \<Rightarrow> (None, x) | Some (ev, e) \<Rightarrow> (event_answer ev, x\<lparr>object_upload := exch_upload e\<rparr>))"

text \<open>The answer of \<open>response\<close> is the response, that of the others a value.\<close>

datatype ('x, 'r, 'v) exchange_answer = ResponseAnswer "('x + 'r) option" | ValueAnswer "('x + 'v) option"

definition value_answer where
  "value_answer ax = (ValueAnswer (fst ax), snd ax)"

definition response_answer where
  "response_answer ax = (ResponseAnswer (fst ax), snd ax)"

fun napi_exchange ::
    "(native_error \<Rightarrow> string) \<Rightarrow> field_parsers \<Rightarrow> (napi_buffer, napi_header list) exchange_call \<Rightarrow> 'r exchange_object
      \<Rightarrow> (string, 'r, napi_value) exchange_answer \<times> 'r exchange_object" where
  "napi_exchange json fp AwaitResponse x = response_answer (native_response (napi_err json) x)"
| "napi_exchange json fp PollResponse x =
     (if future_taken x \<and> \<not> transferred (object_task x) then response_answer (poll_future (napi_err json) x)
      else (ResponseAnswer None, x))"
| "napi_exchange json fp (WriteUpload bytes) x =
     value_answer (object_settled (native_write (napi_err json) (buffer_bytes bytes) (exchange_of x)) x)"
| "napi_exchange json fp (FinishExchange trailers) x =
     value_answer (object_settled (native_finish (napi_err json) fp (napi_fields trailers) (exchange_of x)) x)"
| "napi_exchange json fp (FailExchange message) x =
     (ValueAnswer (Some (Inr VDone)), x\<lparr>object_upload := exch_upload (native_fail message (exchange_of x))\<rparr>)"
| "napi_exchange json fp CancelExchange x =
     (ValueAnswer (Some (Inr VDone)), x\<lparr>object_task := cancel_request (object_task x)\<rparr>)"
| "napi_exchange json fp (AwaitUploadClosed cloned) x =
     (ValueAnswer (if native_closed cloned (exchange_of x) then Some (Inr VDone) else None), x)"

fun python_exchange ::
    "field_parsers \<Rightarrow> (string, (string \<times> string) list) exchange_call \<Rightarrow> 'r exchange_object
      \<Rightarrow> (native_error, 'r, py_value) exchange_answer \<times> 'r exchange_object" where
  "python_exchange fp AwaitResponse x = response_answer (native_response python_err x)"
| "python_exchange fp PollResponse x =
     (if future_taken x \<and> \<not> transferred (object_task x) then response_answer (poll_future python_err x)
      else (ResponseAnswer None, x))"
| "python_exchange fp (WriteUpload bytes) x =
     value_answer (object_settled (native_write python_err bytes (exchange_of x)) x)"
| "python_exchange fp (FinishExchange trailers) x =
     value_answer (object_settled (native_finish python_err fp trailers (exchange_of x)) x)"
| "python_exchange fp (FailExchange message) x =
     (ValueAnswer (Some (Inr VDone)), x\<lparr>object_upload := exch_upload (native_fail message (exchange_of x))\<rparr>)"
| "python_exchange fp CancelExchange x =
     (ValueAnswer (Some (Inr VDone)), x\<lparr>object_task := cancel_request (object_task x)\<rparr>)"
| "python_exchange fp (AwaitUploadClosed cloned) x =
     (ValueAnswer (if native_closed cloned (exchange_of x) then Some (Inr VDone) else None), x)"

section \<open>Reading\<close>

datatype reader_call = ReadNext | PollNext | AwaitTrailers | CancelBody | AwaitCancelled

fun napi_read_answer :: "string + receive_event \<Rightarrow> (string + napi_value) option" where
  "napi_read_answer (Inl e) = Some (Inl e)"
| "napi_read_answer (Inr (Delivered bytes)) = Some (Inr (VBytes (Buffer bytes)))"
| "napi_read_answer (Inr EndOfBody) = Some (Inr VNull)"
| "napi_read_answer (Inr _) = None"

fun python_read_answer :: "native_error + receive_event \<Rightarrow> (native_error + py_value) option" where
  "python_read_answer (Inl e) = Some (Inl e)"
| "python_read_answer (Inr (Delivered bytes)) = Some (Inr (VBytes (PyBytes bytes)))"
| "python_read_answer (Inr EndOfBody) = Some (Inr VNull)"
| "python_read_answer (Inr _) = None"

definition read_poll :: "(sdk_error \<Rightarrow> 'x) \<Rightarrow> receive \<Rightarrow> (('x + receive_event) \<times> receive) option" where
  "read_poll err r =
     map_option (\<lambda>(ev, r). ((case ev of NextFailed e \<Rightarrow> Inl (err e) | _ \<Rightarrow> Inr ev), r)) (next_resume r)"

text \<open>The calls on a body, the same methods in \<open>NativeResponse\<close> and \<open>NativeIncoming\<close>; only the latter has
  \<open>closed\<close>, which waits for the cancellation.\<close>

fun napi_reader ::
    "(native_error \<Rightarrow> string) \<Rightarrow> (string list \<Rightarrow> string list) \<Rightarrow> reader_call \<Rightarrow> receive
      \<Rightarrow> (string + napi_value) option \<times> receive" where
  "napi_reader json order ReadNext r = (case native_read (napi_err json) r of (a, r) \<Rightarrow> (napi_read_answer a, r))"
| "napi_reader json order PollNext r =
     (case read_poll (napi_err json) r of None \<Rightarrow> (None, r) | Some (a, r) \<Rightarrow> (napi_read_answer a, r))"
| "napi_reader json order AwaitTrailers r =
     (map_option (\<lambda>t. and_then t (\<lambda>fs. Inr (VFields (napi_headers fs)))) (native_trailers (napi_err json) order r), r)"
| "napi_reader json order CancelBody r = (Some (Inr VDone), cancel_reader r)"
| "napi_reader json order AwaitCancelled r = (if receive_cancelled r then Some (Inr VDone) else None, r)"

fun python_reader ::
    "(string list \<Rightarrow> string list) \<Rightarrow> reader_call \<Rightarrow> receive \<Rightarrow> (native_error + py_value) option \<times> receive" where
  "python_reader order ReadNext r = (case native_read python_err r of (a, r) \<Rightarrow> (python_read_answer a, r))"
| "python_reader order PollNext r =
     (case read_poll python_err r of None \<Rightarrow> (None, r) | Some (a, r) \<Rightarrow> (python_read_answer a, r))"
| "python_reader order AwaitTrailers r =
     (map_option (\<lambda>t. and_then t (\<lambda>fs. Inr (VFields (python_fields fs)))) (native_trailers python_err order r), r)"
| "python_reader order CancelBody r = (Some (Inr VDone), cancel_reader r)"
| "python_reader order AwaitCancelled r = (if receive_cancelled r then Some (Inr VDone) else None, r)"

section \<open>Responses\<close>

record response_object =
  answer_status :: nat
  answer_headers :: header_map
  answer_authority :: "string authority option"
  answer_body :: receive

datatype response_call = GetStatus | GetResponseHeaders | GetPeer | OnBody reader_call

fun napi_response ::
    "tls_ops \<Rightarrow> (native_error \<Rightarrow> string) \<Rightarrow> (string list \<Rightarrow> string list) \<Rightarrow> response_call \<Rightarrow> response_object
      \<Rightarrow> (string + napi_value) option \<times> response_object" where
  "napi_response tls json order GetStatus s = (Some (Inr (VNumber (answer_status s))), s)"
| "napi_response tls json order GetResponseHeaders s =
     (Some (Inr (VFields (napi_headers (header_fields order (answer_headers s))))), s)"
| "napi_response tls json order GetPeer s =
     (Some (and_then (native_authority (napi_err json) (binding_authority_of tls) (answer_authority s))
        (\<lambda>a. Inr (optional (\<lambda>b. VAuthority (napi_authority_from b)) a))), s)"
| "napi_response tls json order (OnBody call) s =
     (case napi_reader json order call (answer_body s) of (a, r) \<Rightarrow> (a, s\<lparr>answer_body := r\<rparr>))"

fun python_response ::
    "tls_ops \<Rightarrow> (string list \<Rightarrow> string list) \<Rightarrow> response_call \<Rightarrow> response_object
      \<Rightarrow> (native_error + py_value) option \<times> response_object" where
  "python_response tls order GetStatus s = (Some (Inr (VNumber (answer_status s))), s)"
| "python_response tls order GetResponseHeaders s =
     (Some (Inr (VFields (python_fields (header_fields order (answer_headers s))))), s)"
| "python_response tls order GetPeer s =
     (Some (and_then (native_authority python_err (binding_authority_of tls) (answer_authority s))
        (\<lambda>a. Inr (optional (\<lambda>b. VAuthority (PyAuthority b)) a))), s)"
| "python_response tls order (OnBody call) s =
     (case python_reader order call (answer_body s) of (a, r) \<Rightarrow> (a, s\<lparr>answer_body := r\<rparr>))"

section \<open>Incoming requests\<close>

record handshake_summary =
  summary_local :: "string authority option"
  summary_remote :: "string authority option"

record incoming_object =
  asked_method :: string
  asked_url :: string
  asked_headers :: header_map
  asked_summary :: "handshake_summary option"
  asked_body :: receive
  answer_channel :: incoming
  answer_upload :: "upload option"

datatype ('b, 'f) incoming_call = GetMethod | GetUrl | GetHeaders | LocalAuthority | RemoteAuthority | SignData 'b
  | OnRequestBody reader_call | Respond nat 'f

definition local_of :: "incoming_object \<Rightarrow> sdk_error + string authority" where
  "local_of s = incoming_authority (map_option summary_local (asked_summary s))"

definition remote_of :: "incoming_object \<Rightarrow> string authority option" where
  "remote_of s = Option.bind (asked_summary s) summary_remote"

text \<open>The upload that \<open>respond\<close> gives is kept with the request it answers.\<close>

definition responded ::
    "('x + upload) \<times> incoming \<Rightarrow> incoming_object \<Rightarrow> ('x + ('b, 'f, 'a) native_value) option \<times> incoming_object" where
  "responded r s =
     (case r of
        (Inl e, i) \<Rightarrow> (Some (Inl e), s\<lparr>answer_channel := i\<rparr>)
      | (Inr u, i) \<Rightarrow> (Some (Inr VUpload), s\<lparr>answer_channel := i, answer_upload := Some u\<rparr>))"

fun napi_incoming ::
    "tls_ops \<Rightarrow> (native_error \<Rightarrow> string) \<Rightarrow> (string list \<Rightarrow> string list) \<Rightarrow> field_parsers
      \<Rightarrow> (napi_buffer, napi_header list) incoming_call \<Rightarrow> incoming_object
      \<Rightarrow> (string + napi_value) option \<times> incoming_object" where
  "napi_incoming tls json order fp GetMethod s = (Some (Inr (VText (asked_method s))), s)"
| "napi_incoming tls json order fp GetUrl s = (Some (Inr (VText (asked_url s))), s)"
| "napi_incoming tls json order fp GetHeaders s =
     (Some (Inr (VFields (napi_headers (header_fields order (asked_headers s))))), s)"
| "napi_incoming tls json order fp LocalAuthority s =
     (Some (and_then (map_err (napi_err json) (local_of s)) (\<lambda>a.
        given (napi_err json) (\<lambda>b. VAuthority (napi_authority_from b)) (binding_authority_of tls a))), s)"
| "napi_incoming tls json order fp RemoteAuthority s =
     (Some (and_then (native_authority (napi_err json) (binding_authority_of tls) (remote_of s))
        (\<lambda>a. Inr (optional (\<lambda>b. VAuthority (napi_authority_from b)) a))), s)"
| "napi_incoming tls json order fp (SignData data) s =
     (Some (and_then (map_err (napi_err json) (local_of s)) (\<lambda>a.
        given (napi_err json) (\<lambda>b. VBytes (Buffer b)) (sign_authority (sign_with tls a) (buffer_bytes data)))), s)"
| "napi_incoming tls json order fp (OnRequestBody call) s =
     (case napi_reader json order call (asked_body s) of (a, r) \<Rightarrow> (a, s\<lparr>asked_body := r\<rparr>))"
| "napi_incoming tls json order fp (Respond status hs) s =
     responded (native_respond (napi_err json) fp status (napi_fields hs) (answer_channel s)) s"

fun python_incoming ::
    "tls_ops \<Rightarrow> (string list \<Rightarrow> string list) \<Rightarrow> field_parsers
      \<Rightarrow> (string, (string \<times> string) list) incoming_call \<Rightarrow> incoming_object
      \<Rightarrow> (native_error + py_value) option \<times> incoming_object" where
  "python_incoming tls order fp LocalAuthority s =
     (Some (and_then (map_err python_err (local_of s)) (\<lambda>a.
        given python_err (\<lambda>b. VAuthority (PyAuthority b)) (binding_authority_of tls a))), s)"
| "python_incoming tls order fp (SignData data) s =
     (Some (and_then (map_err python_err (local_of s)) (\<lambda>a.
        given python_err (\<lambda>b. VBytes (PyBytes b)) (sign_authority (sign_with tls a) data))), s)"
| "python_incoming tls order fp GetMethod s = (Some (Inr (VText (asked_method s))), s)"
| "python_incoming tls order fp GetUrl s = (Some (Inr (VText (asked_url s))), s)"
| "python_incoming tls order fp GetHeaders s =
     (Some (Inr (VFields (python_fields (header_fields order (asked_headers s))))), s)"
| "python_incoming tls order fp RemoteAuthority s =
     (Some (and_then (native_authority python_err (binding_authority_of tls) (remote_of s))
        (\<lambda>a. Inr (optional (\<lambda>b. VAuthority (PyAuthority b)) a))), s)"
| "python_incoming tls order fp (OnRequestBody call) s =
     (case python_reader order call (asked_body s) of (a, r) \<Rightarrow> (a, s\<lparr>asked_body := r\<rparr>))"
| "python_incoming tls order fp (Respond status fs) s =
     responded (native_respond python_err fp status fs (answer_channel s)) s"

section \<open>Listeners\<close>

text \<open>\<open>Listener::close\<close>: the failure, then the wait for the task; closing again polls it.\<close>

definition napi_listener_close where
  "napi_listener_close l =
     (let l = fail_listener listener_closed l
      in (if phase l = Ended then Some (Inr VDone) else None, l))"

definition python_listener_close where
  "python_listener_close l =
     (let l = fail_listener listener_closed l
      in (if phase l = Ended then Some (Inr VDone) else None, l))"

section \<open>Agreement\<close>

text \<open>The value of Node for a value of Python.\<close>

definition napi_of :: "py_value \<Rightarrow> napi_value" where
  "napi_of = map_native_value (\<lambda>b. Buffer (py_contents b)) (\<lambda>fs. napi_headers (map (\<lambda>(n, b). (n, py_contents b)) fs))
     (\<lambda>a. napi_authority_from (py_inner a))"

definition napi_answer_of :: "(native_error \<Rightarrow> string) \<Rightarrow> (native_error + py_value) option \<Rightarrow> (string + napi_value) option" where
  "napi_answer_of json = map_option (map_sum json napi_of)"

fun run_calls :: "('c \<Rightarrow> 's \<Rightarrow> 'a \<times> 's) \<Rightarrow> 'c list \<Rightarrow> 's \<Rightarrow> 'a list \<times> 's" where
  "run_calls act [] s = ([], s)"
| "run_calls act (c # cs) s =
     (case act c s of (a, s) \<Rightarrow> (case run_calls act cs s of (as, s) \<Rightarrow> (a # as, s)))"

lemma run_calls_translated:
  assumes "\<And>c s. act (f c) s = map_prod g id (act' c s)"
  shows "run_calls act (map f cs) s = map_prod (map g) id (run_calls act' cs s)"
  by (induction cs arbitrary: s) (auto simp: assms split: prod.splits)

lemma napi_err_python: "napi_err json e = json (python_err e)"
  by (simp add: napi_err_def python_err_def)

lemma buffer_values [simp]:
  "napi_fields (napi_headers fs) = fs" "map (\<lambda>(n, b). (n, py_contents b)) (python_fields fs) = fs"
  by (induction fs) (auto simp: napi_fields_def napi_headers_def python_fields_def)

lemma napi_of_simps [simp]:
  "napi_of VDone = VDone" "napi_of VNull = VNull" "napi_of (VBytes (PyBytes b)) = VBytes (Buffer b)"
  "napi_of (VText t) = VText t" "napi_of (VNumber n) = VNumber n" "napi_of VUpload = VUpload"
  "napi_of (VFields (python_fields fs)) = VFields (napi_headers fs)"
  "napi_of (VAuthority (PyAuthority a)) = VAuthority (napi_authority_from a)"
  by (simp_all add: napi_of_def)

text \<open>An error is translated last: what is done with the error of Python and then printed for Node is what is done
  with the error of Node.\<close>

lemma napi_err_fun: "napi_err json = (\<lambda>e. json (python_err e))"
  by (rule ext) (rule napi_err_python)

lemma border_map_err:
  "map_err (\<lambda>e. f (g e)) r = map_sum f id (map_err g r)"
  "and_then (map_sum f id r') (\<lambda>x. Inr (h x)) = map_sum f id (and_then r' (\<lambda>x. Inr (h x)))"
  by (cases r; simp add: map_err_def) (cases r'; simp add: and_then_def)

lemma border_event:
  "native_event (\<lambda>e. f (g e)) ev = map_sum f id (native_event g ev)"
  by (cases ev) (simp_all add: native_event_def)

lemma event_answer_translated:
  "event_answer (map_sum json id ev) = napi_answer_of json (event_answer ev)"
  by (cases ev rule: event_answer.cases) (simp_all add: napi_answer_of_def)

lemma settled_translated:
  "settled (map_option (map_prod (map_sum json id) id) r) u = map_prod (napi_answer_of json) id (settled r u)"
  by (auto simp: settled_def event_answer_translated napi_answer_of_def split: option.splits)

lemma upload_calls_translated:
  "upload_write (\<lambda>e. f (g e)) bytes u = map_option (map_prod (map_sum f id) id) (upload_write g bytes u)"
  "upload_finish (\<lambda>e. f (g e)) fp ts u = map_option (map_prod (map_sum f id) id) (upload_finish g fp ts u)"
  "upload_poll (\<lambda>e. f (g e)) r = map_option (map_prod (map_sum f id) id) (upload_poll g r)"
  by (auto simp: upload_write_def upload_finish_def upload_poll_def border_event option.map_comp comp_def
      intro!: option.map_cong split: sum.splits)

lemma uploads_agree:
  "napi_upload json fp (map_upload_call Buffer napi_headers call) u
     = map_prod (napi_answer_of json) id (python_upload fp call u)"
  by (cases call)
    (simp_all add: napi_err_fun upload_calls_translated settled_translated, simp_all add: napi_answer_of_def)

lemma read_answer_translated:
  "napi_read_answer (map_sum json id ev) = napi_answer_of json (python_read_answer ev)"
  by (cases ev rule: python_read_answer.cases) (simp_all add: napi_answer_of_def)

lemma reads_translated:
  "native_read (\<lambda>e. f (g e)) r = map_prod (map_sum f id) id (native_read g r)"
  "read_poll (\<lambda>e. f (g e)) r = map_option (map_prod (map_sum f id) id) (read_poll g r)"
  "native_trailers (\<lambda>e. f (g e)) order r = map_option (map_sum f id) (native_trailers g order r)"
  by (auto simp: native_read_def read_poll_def native_trailers_def option.map_comp comp_def
      intro!: option.map_cong split: prod.splits receive_event.splits option.splits)

lemma readers_agree:
  "napi_reader json order call r = map_prod (napi_answer_of json) id (python_reader order call r)"
proof (cases call)
  case ReadNext
  then show ?thesis
    by (simp add: napi_err_fun reads_translated read_answer_translated split: prod.splits)
next
  case PollNext
  then show ?thesis
    by (auto simp: napi_err_fun reads_translated read_answer_translated napi_answer_of_def split: prod.splits option.splits)
next
  case AwaitTrailers
  have "and_then (map_sum json id t) (\<lambda>fs. Inr (VFields (napi_headers fs)))
      = map_sum json napi_of (and_then t (\<lambda>fs. Inr (VFields (python_fields fs))))" for t
    by (cases t) (simp_all add: and_then_def)
  then show ?thesis using AwaitTrailers
    by (simp add: napi_err_fun reads_translated napi_answer_of_def option.map_comp comp_def)
qed (simp_all add: napi_answer_of_def)

lemma authorities_translated:
  "and_then (native_authority (\<lambda>e. json (python_err e)) (binding_authority_of tls) a)
      (\<lambda>a. Inr (optional (\<lambda>b. VAuthority (napi_authority_from b)) a))
   = map_sum json napi_of (and_then (native_authority python_err (binding_authority_of tls) a)
      (\<lambda>a. Inr (optional (\<lambda>b. VAuthority (PyAuthority b)) a)))"
  by (cases a; cases "binding_authority_of tls (the a)")
    (simp_all add: native_authority_def optional_def and_then_def map_err_def)

lemma given_translated:
  "(\<And>y. napi_of (h y) = h' y) \<Longrightarrow> given (\<lambda>e. json (g e)) h' r = map_sum json napi_of (given g h r)"
  by (cases r) (simp_all add: given_def and_then_def map_err_def)

lemma and_then_translated:
  "(\<And>a. f' a = map_sum json h (f a)) \<Longrightarrow>
     and_then (map_err (\<lambda>e. json (g e)) r) f' = map_sum json h (and_then (map_err g r) f)"
  by (cases r) (simp_all add: and_then_def map_err_def)

lemma responses_agree:
  "napi_response tls json order call s = map_prod (napi_answer_of json) id (python_response tls order call s)"
  by (cases call)
    (auto simp: napi_answer_of_def napi_err_fun authorities_translated readers_agree split: prod.splits)

lemma responded_translated:
  "responded (native_respond (\<lambda>e. json (python_err e)) fp status fs i) s
     = map_prod (napi_answer_of json) id (responded (native_respond python_err fp status fs i) s)"
  by (auto simp: responded_def native_respond_def map_err_def napi_answer_of_def split: prod.splits sum.splits)

lemma incoming_agree:
  "napi_incoming tls json order fp (map_incoming_call Buffer napi_headers call) s
     = map_prod (napi_answer_of json) id (python_incoming tls order fp call s)"
proof (cases call)
  case LocalAuthority
  then show ?thesis
    by (simp add: napi_err_fun napi_answer_of_def and_then_translated given_translated)
next
  case (SignData data)
  then show ?thesis
    by (simp add: napi_err_fun napi_answer_of_def and_then_translated given_translated)
next
  case (OnRequestBody c)
  then show ?thesis by (simp add: readers_agree split: prod.splits)
qed (simp_all add: napi_answer_of_def napi_err_fun authorities_translated responded_translated)

fun napi_exchange_answer ::
    "(native_error \<Rightarrow> string) \<Rightarrow> (native_error, 'r, py_value) exchange_answer \<Rightarrow> (string, 'r, napi_value) exchange_answer" where
  "napi_exchange_answer json (ResponseAnswer r) = ResponseAnswer (map_option (map_sum json id) r)"
| "napi_exchange_answer json (ValueAnswer r) = ValueAnswer (napi_answer_of json r)"

lemma futures_translated:
  "poll_future (\<lambda>e. json (g e)) x = map_prod (map_option (map_sum json id)) id (poll_future g x)"
  by (auto simp: poll_future_def border_map_err option.map_comp comp_def split: prod.splits intro!: option.map_cong)

lemma native_response_translated:
  "native_response (\<lambda>e. json (g e)) x = map_prod (map_option (map_sum json id)) id (native_response g x)"
  by (simp add: native_response_def futures_translated split: prod.splits sum.splits)

lemma object_settled_translated:
  "object_settled (map_option (map_prod (map_sum json id) id) r) x = map_prod (napi_answer_of json) id (object_settled r x)"
  by (auto simp: object_settled_def event_answer_translated napi_answer_of_def split: option.splits)

lemma exchange_calls_translated:
  "native_write (\<lambda>e. f (g e)) bytes x = map_option (map_prod (map_sum f id) id) (native_write g bytes x)"
  "native_finish (\<lambda>e. f (g e)) fp ts x = map_option (map_prod (map_sum f id) id) (native_finish g fp ts x)"
  by (auto simp: native_write_def native_finish_def border_event option.map_comp comp_def
      intro!: option.map_cong split: sum.splits)

lemma exchange_answers_translated:
  "value_answer (map_prod (napi_answer_of json) id ax) = map_prod (napi_exchange_answer json) id (value_answer ax)"
  "response_answer (map_prod (map_option (map_sum json id)) id rx)
     = map_prod (napi_exchange_answer json) id (response_answer rx)"
  by (simp_all add: value_answer_def response_answer_def)

lemma exchanges_agree:
  "napi_exchange json fp (map_exchange_call Buffer napi_headers call) x
     = map_prod (napi_exchange_answer json) id (python_exchange fp call x)"
  by (cases call)
    (simp_all add: napi_err_fun native_response_translated futures_translated exchange_calls_translated
      object_settled_translated exchange_answers_translated, simp_all add: napi_answer_of_def)

lemma clients_agree:
  "napi_client json tls display build texts w ops valid (map_client_call Buffer call) cn
     = map_prod (napi_answer_of json) id (python_client tls display build texts w ops valid call cn)"
proof -
  obtain c net where cn: "cn = (c, net)" by force
  show ?thesis
  proof (cases call)
    case ClientAuthority
    have "native_local_authority (napi_err json) display build (binding_authority_of tls) c
        = map_sum json id (native_local_authority python_err display build (binding_authority_of tls) c)"
      by (cases "client_local_authority display build c")
        (auto simp: native_local_authority_def native_authority_def napi_err_fun and_then_def map_err_def
          split: option.splits sum.splits)
    moreover have "and_then (map_sum json id r) (\<lambda>a. Inr (optional (\<lambda>b. VAuthority (napi_authority_from b)) a))
        = map_sum json napi_of (and_then r (\<lambda>a. Inr (optional (\<lambda>b. VAuthority (PyAuthority b)) a)))" for r
      by (cases r) (simp_all add: and_then_def optional_def split: option.splits)
    ultimately show ?thesis using ClientAuthority cn by (simp add: napi_answer_of_def)
  next
    case ClientName
    then show ?thesis using cn by (simp add: napi_answer_of_def optional_def split: option.splits)
  next
    case ClientReload
    then show ?thesis using cn
      by (auto simp: napi_answer_of_def napi_err_fun given_translated split: option.splits)
  qed (simp_all add: cn napi_answer_of_def napi_err_fun given_translated Let_def)
qed

section \<open>Properties\<close>


end
