(* ===== verification/HandlerSessions.thy ===== *)
theory HandlerSessions
  imports NativeObjects
begin

text \<open>
  A request in the hands of a handler written in one of the languages: the composition of the reader of its
  body, the channel of its response and the upload of the response's body.  A session records what each of
  them showed; the calls of either language are steps of it, and their answers are what the step showed.
\<close>

section \<open>Sessions\<close>

datatype handler_event = Took receive_event | Put upload_event | Answered nat "(string \<times> string) list"
  | Unanswered sdk_error | HandlerGone

definition took :: "handler_event list \<Rightarrow> receive_event list" where
  "took es = concat (map (\<lambda>e. case e of Took x \<Rightarrow> [x] | _ \<Rightarrow> []) es)"

definition put :: "handler_event list \<Rightarrow> upload_event list" where
  "put es = concat (map (\<lambda>e. case e of Put x \<Rightarrow> [x] | _ \<Rightarrow> []) es)"

lemma took_put_simps [simp]:
  "took [] = []" "took (es @ [e]) = took es @ (case e of Took x \<Rightarrow> [x] | _ \<Rightarrow> [])"
  "put [] = []" "put (es @ [e]) = put es @ (case e of Put x \<Rightarrow> [x] | _ \<Rightarrow> [])"
  by (simp_all add: took_def put_def)

text \<open>The body is read, the handler answers, the service stops waiting for it, the upload moves; each at any time.\<close>

inductive handler_session ::
    "(path \<Rightarrow> string) \<Rightarrow> field_parsers \<Rightarrow> native_frame list \<Rightarrow> operation_state \<Rightarrow> header_map
      \<Rightarrow> handler_event list \<Rightarrow> incoming_object \<Rightarrow> bool"
  for display fp frames p hs where
  session_start: "asked_headers s = hs \<Longrightarrow> asked_body s = bridge frames p \<Longrightarrow> answer_channel s = incoming_new
    \<Longrightarrow> answer_upload s = None \<Longrightarrow> handler_session display fp frames p hs [] s"
| session_body: "handler_session display fp frames p hs es s \<Longrightarrow> receive_act display a (asked_body s) = Some (e, r)
    \<Longrightarrow> handler_session display fp frames p hs (es @ [Took e]) (s\<lparr>asked_body := r\<rparr>)"
| session_answer: "handler_session display fp frames p hs es s
    \<Longrightarrow> respond fp status fs (answer_channel s) = (Inr u, i)
    \<Longrightarrow> handler_session display fp frames p hs (es @ [Answered status fs])
          (s\<lparr>answer_channel := i, answer_upload := Some u\<rparr>)"
| session_unanswered: "handler_session display fp frames p hs es s
    \<Longrightarrow> respond fp status fs (answer_channel s) = (Inl e, i)
    \<Longrightarrow> handler_session display fp frames p hs (es @ [Unanswered e]) (s\<lparr>answer_channel := i\<rparr>)"
| session_gone: "handler_session display fp frames p hs es s
    \<Longrightarrow> handler_session display fp frames p hs (es @ [HandlerGone])
          (s\<lparr>answer_channel := (answer_channel s)\<lparr>handler_waits := False\<rparr>\<rparr>)"
| session_upload: "handler_session display fp frames p hs es s \<Longrightarrow> answer_upload s = Some u
    \<Longrightarrow> upload_act a u = Some (e, v)
    \<Longrightarrow> handler_session display fp frames p hs (es @ [Put e]) (s\<lparr>answer_upload := Some v\<rparr>)"

section \<open>The calls of a language\<close>

text \<open>What Python is told of an event of its body and of its upload.\<close>

fun told :: "(string list \<Rightarrow> string list) \<Rightarrow> receive_event \<Rightarrow> (native_error + py_value) option" where
  "told order (Delivered bytes) = Some (Inr (VBytes (PyBytes bytes)))"
| "told order EndOfBody = Some (Inr VNull)"
| "told order (NextFailed e) = Some (Inl (python_err e))"
| "told order (TrailersGiven hs) = Some (Inr (VFields (python_fields (header_fields order hs))))"
| "told order (TrailersFailed e) = Some (Inl (python_err e))"
| "told order _ = None"

fun told_upload :: "upload_event \<Rightarrow> (native_error + py_value) option" where
  "told_upload (Accepted bytes) = Some (Inr VDone)"
| "told_upload (Finished trailers) = Some (Inr VDone)"
| "told_upload (upload_event.Rejected e) = Some (Inl (python_err e))"
| "told_upload _ = None"

text \<open>What each call on a body can show.\<close>

lemma send_command_events: "send_command r = (e, r') \<Longrightarrow> e = Silent \<or> (\<exists>x. e = NextFailed x)"
  by (auto simp: send_command_def split: if_splits)

lemma next_call_events:
  "next_call r = (e, r') \<Longrightarrow> e \<in> {Silent, EndOfBody} \<or> (\<exists>x. e = NextFailed x)"
  by (auto simp: next_call_def dest: send_command_events split: if_splits option.splits sum.splits)

lemma next_resume_events:
  "next_resume r = Some (e, r') \<Longrightarrow> e \<in> {Silent, EndOfBody} \<or> (\<exists>x. e = NextFailed x) \<or> (\<exists>b. e = Delivered b)"
  by (auto simp: next_resume_def take_reply_def Let_def dest: send_command_events
      split: if_splits option.splits sum.splits reading.splits)

lemma poll_trailers_events:
  "poll_trailers r = Some (e, r') \<Longrightarrow> r' = r \<and> ((\<exists>hs. e = TrailersGiven hs) \<or> (\<exists>x. e = TrailersFailed x))"
  by (auto simp: poll_trailers_def split: if_splits option.splits sum.splits)

lemma read_calls_step:
  assumes "handler_session display fp frames p hs es s" "reader_alive (asked_body s)"
    and call: "python_incoming tls order fp (OnRequestBody call) s = (a, s')"
  shows "s' = s \<and> (a = None \<or> call = AwaitCancelled)
    \<or> (\<exists>e. handler_session display fp frames p hs (es @ [Took e]) s'
         \<and> a = (if call = CancelBody then Some (Inr VDone) else told order e))"
proof -
  obtain r where r: "python_reader order call (asked_body s) = (a, r)" and s': "s' = s\<lparr>asked_body := r\<rparr>"
    using call by (auto split: prod.splits)
  note step = session_body [OF assms(1)]
  show ?thesis
  proof (cases call)
    case ReadNext
    obtain e r' where e: "next_call (asked_body s) = (e, r')" by force
    then have ra: "r' = r" "a = told order e" using r ReadNext next_call_events [OF e]
      by (auto simp: native_read_def)
    have act: "receive_act display NextCall (asked_body s) = Some (e, r')" using e assms(2) by simp
    show ?thesis using step [OF act] ra s' ReadNext by auto
  next
    case PollNext
    show ?thesis
    proof (cases "next_resume (asked_body s)")
      case None
      then show ?thesis using r PollNext s' by (simp add: read_poll_def)
    next
      case (Some er)
      obtain e r' where e: "next_resume (asked_body s) = Some (e, r')" using Some by (cases er) auto
      then have ra: "r' = r" "a = told order e" using r PollNext next_resume_events [OF e]
        by (auto simp: read_poll_def)
      have act: "receive_act display NextResume (asked_body s) = Some (e, r')" using e by simp
      show ?thesis using step [OF act] ra s' PollNext by auto
    qed
  next
    case AwaitTrailers
    show ?thesis
    proof (cases "poll_trailers (asked_body s)")
      case None
      then show ?thesis using r AwaitTrailers s' by (simp add: native_trailers_def)
    next
      case (Some er)
      obtain e r' where e: "poll_trailers (asked_body s) = Some (e, r')" using Some by (cases er) auto
      then have ra: "r' = r" "a = told order e" using r AwaitTrailers poll_trailers_events [OF e]
        by (auto simp: native_trailers_def and_then_def)
      have act: "receive_act display PollTrailers (asked_body s) = Some (e, r')" using e assms(2) by simp
      show ?thesis using step [OF act] ra s' AwaitTrailers by auto
    qed
  next
    case CancelBody
    then have act: "receive_act display CancelReader (asked_body s) = Some (Silent, r)" and a: "a = Some (Inr VDone)"
      using r by auto
    show ?thesis using step [OF act] s' CancelBody a by auto
  next
    case AwaitCancelled
    then show ?thesis using r s' by auto
  qed
qed

lemma told_upload_event: "event_answer (native_event python_err ev) = told_upload ev"
  by (cases ev) (simp_all add: native_event_def)

lemma upload_calls_step:
  assumes "handler_session display fp frames p hs es s" "answer_upload s = Some u"
    and call: "python_upload fp' call u = (a, v)"
  shows "v = u \<and> (a = None \<or> (\<exists>cloned. call = AwaitClosed cloned) \<or> (\<exists>ts e. call = FinishWith ts \<and> headers fp' ts = Inl e \<and> a = Some (Inl (python_err e))))
    \<or> (\<exists>e. handler_session display fp frames p hs (es @ [Put e]) (s\<lparr>answer_upload := Some v\<rparr>)
         \<and> a = (case call of FailWith _ \<Rightarrow> Some (Inr VDone) | _ \<Rightarrow> told_upload e))"
proof -
  note step = session_upload [OF assms(1,2)]
  have moved: "v = u \<and> a = None \<or> (\<exists>e. handler_session display fp frames p hs (es @ [Put e]) (s\<lparr>answer_upload := Some v\<rparr>) \<and> a = told_upload e)"
    if "settled (map_option (\<lambda>(ev, u). (native_event python_err ev, u)) (upload_act act u)) u = (a, v)" for act
  proof (cases "upload_act act u")
    case (Some ev)
    obtain e v' where e: "upload_act act u = Some (e, v')" using Some by (cases ev) auto
    then have "v' = v" "a = told_upload e" using that by (simp_all add: settled_def told_upload_event)
    with step [OF e] show ?thesis by blast
  qed (use that in \<open>simp add: settled_def\<close>)
  show ?thesis
  proof (cases call)
    case (Write bytes)
    then show ?thesis using call moved [of "Send bytes"] by (auto simp: upload_write_def)
  next
    case (FinishWith ts)
    then show ?thesis using call moved [of "FinishUpload (projr (headers fp' ts))"]
      by (cases "headers fp' ts") (auto simp: upload_finish_def settled_def)
  next
    case (FailWith message)
    then show ?thesis using call step [of "Fail (sdk_new CodeProducer message)"] by auto
  next
    case PollCall
    then show ?thesis using call moved [of Resume] by (auto simp: upload_poll_def)
  next
    case PollCancelled
    then show ?thesis using call moved [of CancelCall] by (auto simp: upload_poll_def)
  qed (use call in auto)
qed

lemma respond_Inr:
  "respond fp status fs i = (Inr u, i') \<Longrightarrow> response_sender i \<and> u = upload_channel
     \<and> (\<exists>hs. headers fp fs = Inr hs \<and> i' = i\<lparr>response_sender := False, response_sent := Some (status, hs)\<rparr>)"
  by (auto simp: respond_def status_from_def and_then_eq_Inr split: sum.splits if_splits)

lemma respond_Inl:
  "respond fp status fs i = (Inl e, i') \<Longrightarrow>
     response_sent i' = response_sent i \<and> (response_sender i' \<longrightarrow> response_sender i)"
  by (auto simp: respond_def split: sum.splits if_splits)

text \<open>A call of \<open>respond\<close> is a step as well.\<close>

lemma respond_calls_step:
  assumes "handler_session display fp frames p hs es s"
    and call: "python_incoming tls order fp (Respond status fs) s = (a, s')"
  shows "\<exists>e. handler_session display fp frames p hs (es @ [e]) s'
    \<and> (e = Answered status fs \<and> a = Some (Inr VUpload) \<or> (\<exists>x. e = Unanswered x \<and> a = Some (Inl (python_err x))))"
proof -
  obtain r i where r: "respond fp status fs (answer_channel s) = (r, i)" by force
  show ?thesis
  proof (cases r)
    case (Inl x)
    with r call have "s' = s\<lparr>answer_channel := i\<rparr>" "a = Some (Inl (python_err x))"
      by (simp_all add: responded_def native_respond_def map_err_def)
    with session_unanswered [OF assms(1)] r Inl show ?thesis by blast
  next
    case (Inr u)
    with r call have "s' = s\<lparr>answer_channel := i, answer_upload := Some u\<rparr>" "a = Some (Inr VUpload)"
      by (simp_all add: responded_def native_respond_def map_err_def)
    with session_answer [OF assms(1)] r Inr show ?thesis by blast
  qed
qed

section \<open>The parts of a session\<close>

definition answered_ok :: "field_parsers \<Rightarrow> handler_event list \<Rightarrow> incoming_object \<Rightarrow> bool" where
  "answered_ok fp es s \<longleftrightarrow>
     (case answer_upload s of
        None \<Rightarrow> put es = [] \<and> (\<forall>status fs. Answered status fs \<notin> set es)
      | Some u \<Rightarrow> upload_run (put es) u \<and> \<not> response_sender (answer_channel s)
          \<and> (\<forall>status fs. Answered status fs \<in> set es \<longrightarrow>
               (\<exists>hs. headers fp fs = Inr hs \<and> response_sent (answer_channel s) = Some (status, hs))))"

lemma session_parts:
  "handler_session display fp frames p hs es s \<Longrightarrow>
     receive_run display frames p (took es) (asked_body s) \<and> asked_headers s = hs \<and> answered_ok fp es s"
proof (induction rule: handler_session.induct)
  case (session_start s)
  then show ?case by (simp add: answered_ok_def receive_start)
next
  case (session_body es s a e r)
  then show ?case using receive_more by (auto simp: answered_ok_def split: option.splits)
next
  case (session_answer es s status fs u i)
  then have "response_sender (answer_channel s)" "u = upload_channel"
    "\<exists>hs. headers fp fs = Inr hs \<and> i = (answer_channel s)\<lparr>response_sender := False, response_sent := Some (status, hs)\<rparr>"
    using respond_Inr by blast+
  with session_answer.IH show ?case by (auto simp: answered_ok_def run_start split: option.splits)
next
  case (session_unanswered es s status fs e i)
  then show ?case using respond_Inl [OF session_unanswered.hyps(2)] by (auto simp: answered_ok_def split: option.splits)
next
  case (session_gone es s)
  then show ?case by (auto simp: answered_ok_def split: option.splits)
next
  case (session_upload es s u a e v)
  then show ?case using run_act [of "put es" u a e v] by (auto simp: answered_ok_def)
qed

text \<open>The ends of the two bodies.\<close>

lemma body_ended_whole:
  assumes "upload_run es u" "upload_event.Ended t \<in> set es" "Abandoned \<notin> set es"
  shows "finished es = [t] \<and> yielded es = accepted es"
  using upload_run_ok [OF assms(1)] assms(2,3) by (auto simp: channel_ok_def flow_ok_def end_ok_def)

lemma body_given_whole:
  assumes "receive_run display frames p es r" "TrailersGiven ts \<in> set es"
  shows "delivered es = data_of frames \<and> ts = fields_of frames"
  using receive_run_ok [OF assms(1)] assms(2) by (auto simp: whole_ok_def whole_def)

section \<open>Properties\<close>

text \<open>
  C21: What a handler echoes arrives.  A handler, in either language, answers with the header fields it was
  given, writes the bytes it read and no others, finishes with the trailers it was given, and drops no
  unfinished write; calls, polls, the transport and the service interleave in any way.  If the body of its
  response ends without an error, then the response has the values of the request under every name and in
  their order, its body is the body of the request, and its trailers are the request's.
\<close>

theorem echoed_request_returns:
  assumes session: "handler_session display fp frames p hs es s"
    and parsers: "\<forall>(n, v) \<in> set hs \<union> set (fields_of frames). parse_name fp n = Inr n \<and> parse_value fp v = Inr v"
    and order: "\<forall>names. distinct names \<longrightarrow> distinct (order names) \<and> set (order names) = set names"
    and answered: "Answered status (napi_fields (napi_headers (header_fields order (asked_headers s)))) \<in> set es"
    and wrote: "accepted (put es) = concat (delivered (took es))" "Abandoned \<notin> set (put es)"
    and finish: "\<forall>t \<in> set (finished (put es)). \<exists>ts. TrailersGiven ts \<in> set (took es)
         \<and> headers fp (napi_fields (napi_headers (header_fields order ts))) = Inr t"
    and ended: "upload_event.Ended t \<in> set (put es)"
  shows "(\<exists>hs'. response_sent (answer_channel s) = Some (status, hs') \<and> (\<forall>n. values_of hs' n = values_of hs n))
    \<and> yielded (put es) = concat (data_of frames)
    \<and> (\<forall>n. values_of t n = values_of (fields_of frames) n)"
proof -
  from session_parts [OF session] have run: "receive_run display frames p (took es) (asked_body s)"
    and hs: "asked_headers s = hs" and ok: "answered_ok fp es s" by auto
  from ok ended obtain u where up: "upload_run (put es) u"
    and sent: "\<exists>hs'. headers fp (header_fields order hs) = Inr hs' \<and> response_sent (answer_channel s) = Some (status, hs')"
    using answered hs by (auto simp: answered_ok_def split: option.splits)
  have order_ok: "set (order (remdups (map fst m))) = fst ` set m" "distinct (order (remdups (map fst m)))" for m
    using order by auto
  have trip: "\<exists>m'. headers fp (header_fields order m) = Inr m' \<and> (\<forall>n. values_of m' n = values_of m n)"
    if "set m \<subseteq> set hs \<union> set (fields_of frames)" for m
  proof (rule fields_round_trip [where hs = m and fp = fp and order = order, OF _ order_ok])
    show "\<forall>(n, v) \<in> set m. parse_name fp n = Inr n \<and> parse_value fp v = Inr v" using parsers that by auto
  qed
  note whole = body_ended_whole [OF up ended wrote(2)]
  from finish whole obtain ts where ts: "TrailersGiven ts \<in> set (took es)" "headers fp (header_fields order ts) = Inr t"
    by auto
  from body_given_whole [OF run ts(1)] have body: "delivered (took es) = data_of frames" "ts = fields_of frames" by auto
  have "\<exists>hs'. response_sent (answer_channel s) = Some (status, hs') \<and> (\<forall>n. values_of hs' n = values_of hs n)"
    using sent trip [of hs] by auto
  moreover have "values_of t n = values_of (fields_of frames) n" for n
    using ts(2) trip [of "fields_of frames"] body(2) by auto
  ultimately show ?thesis using whole wrote(1) body(1) by simp
qed

lemma session_receive_acts:
  "receive_acts display as r = Some (es', r') \<Longrightarrow> handler_session display fp frames p hs es s \<Longrightarrow> asked_body s = r
     \<Longrightarrow> handler_session display fp frames p hs (es @ map Took es') (s\<lparr>asked_body := r'\<rparr>)"
proof (induction as arbitrary: es s r es')
  case (Cons a as)
  then obtain e r1 es1 where e: "receive_act display a r = Some (e, r1)"
    "receive_acts display as r1 = Some (es1, r')" "es' = e # es1" by (auto split: option.splits)
  with session_body [OF Cons.prems(2)] Cons.prems(3)
  have "handler_session display fp frames p hs (es @ [Took e]) (s\<lparr>asked_body := r1\<rparr>)" by simp
  from Cons.IH [OF e(2) this] e(3) show ?case by simp
next
  case Nil
  then show ?case by (cases s) simp
qed

lemma session_run_acts:
  "run_acts as u = Some (es', v) \<Longrightarrow> handler_session display fp frames p hs es s \<Longrightarrow> answer_upload s = Some u
     \<Longrightarrow> handler_session display fp frames p hs (es @ map Put es') (s\<lparr>answer_upload := Some v\<rparr>)"
proof (induction as arbitrary: es s u es')
  case (Cons a as)
  then obtain e u1 es1 where e: "upload_act a u = Some (e, u1)"
    "run_acts as u1 = Some (es1, v)" "es' = e # es1" by (auto split: option.splits)
  from session_upload [OF Cons.prems(2,3) e(1)]
  have "handler_session display fp frames p hs (es @ [Put e]) (s\<lparr>answer_upload := Some u1\<rparr>)" .
  from Cons.IH [OF e(2) this] e(3) show ?case by simp
next
  case Nil
  then show ?case by (cases s) simp
qed

definition plain_fields :: field_parsers where
  "plain_fields = \<lparr>parse_name = Inr, parse_value = Inr\<rparr>"

definition echoing_start :: incoming_object where
  "echoing_start = \<lparr>asked_method = ''POST'', asked_url = ''https://alice.dhttp.net/'', asked_headers = [(''h'', ''1'')],
     asked_summary = None, asked_body = bridge example_frames owned_by, answer_channel = incoming_new,
     answer_upload = None\<rparr>"

lemma upload_echo_example:
  "\<exists>v. run_acts [Send ''ab'', Resume, Resume, PollBody, FinishUpload [(''x'', ''1''), (''y'', ''2'')], Resume, PollBody]
     upload_channel
   = Some ([Quiet, Quiet, Accepted ''ab'', Yielded ''ab'', Quiet, Finished [(''x'', ''1''), (''y'', ''2'')],
            upload_event.Ended [(''x'', ''1''), (''y'', ''2'')]], v)"
  by (simp add: upload_defs upload_channel_def example_chunks QUEUED_CHUNKS_def operation_simps)

theorem echoed_request_returns_witness:
  "\<exists>es s. handler_session (\<lambda>p. []) plain_fields example_frames owned_by [(''h'', ''1'')] es s
     \<and> response_sent (answer_channel s) \<noteq> None \<and> yielded (put es) = ''ab''
     \<and> upload_event.Ended [(''x'', ''1''), (''y'', ''2'')] \<in> set (put es)"
proof -
  let ?ts = "[(''x'', ''1''), (''y'', ''2'')]"
  let ?session = "handler_session (\<lambda>p. []) plain_fields example_frames owned_by [(''h'', ''1'')]"
  obtain r where read: "receive_acts (\<lambda>p. []) [NextCall, WorkerStep, WorkerStep, WorkerStep, NextResume, NextCall, WorkerStep,
      WorkerStep, WorkerStep, WorkerStep, NextResume, NextCall, WorkerStep, WorkerStep, WorkerStep, WorkerStep,
      NextResume, PollTrailers] (bridge example_frames owned_by)
   = Some ([Silent, Silent, Pulled (DataFrame ''a''), Silent, Delivered ''a'', Silent, Silent,
      Pulled (TrailerFrame [(''x'', ''1'')]), Pulled (DataFrame ''b''), Silent, Delivered ''b'', Silent, Silent,
      Pulled (TrailerFrame [(''y'', ''2'')]), Silent, WorkerDone, EndOfBody, TrailersGiven ?ts], r)"
    (is "_ = Some (?res, r)") using receive_example by blast
  obtain v where up: "run_acts [Send ''ab'', Resume, Resume, PollBody, FinishUpload ?ts, Resume, PollBody] upload_channel
   = Some ([Quiet, Quiet, Accepted ''ab'', Yielded ''ab'', Quiet, Finished ?ts, upload_event.Ended ?ts], v)"
    (is "_ = Some (?ues, v)") using upload_echo_example by blast
  let ?s1 = "echoing_start\<lparr>asked_body := r\<rparr>"
  let ?i = "incoming_new\<lparr>response_sender := False, response_sent := Some (200, [(''h'', ''1'')])\<rparr>"
  let ?s2 = "?s1\<lparr>answer_channel := ?i, answer_upload := Some upload_channel\<rparr>"
  have "?session [] echoing_start" by (rule session_start) (simp_all add: echoing_start_def)
  from session_receive_acts [OF read this] have s1: "?session (map Took ?res) ?s1" by (simp add: echoing_start_def)
  have "respond plain_fields 200 [(''h'', ''1'')] (answer_channel ?s1) = (Inr upload_channel, ?i)"
    by (simp add: respond_def status_from_def headers_def plain_fields_def echoing_start_def incoming_new_def
        and_then_def map_err_def fields_append_def)
  from session_answer [OF s1 this] have s2: "?session (map Took ?res @ [Answered 200 [(''h'', ''1'')]]) ?s2" .
  have "answer_upload ?s2 = Some upload_channel" by simp
  note sent = session_run_acts [OF up s2 this]
  let ?es = "map Took ?res @ [Answered 200 [(''h'', ''1'')]] @ map Put ?ues"
  let ?s3 = "?s2\<lparr>answer_upload := Some v\<rparr>"
  have s3: "?session ?es ?s3" using sent by simp
  have t: "took ?es = ?res" "put ?es = ?ues" by (simp_all add: took_def put_def)
  have "yielded (put ?es) = concat (data_of example_frames)
      \<and> (\<exists>hs'. response_sent (answer_channel ?s3) = Some (200, hs') \<and> (\<forall>n. values_of hs' n = values_of [(''h'', ''1'')] n))"
    using echoed_request_returns [OF s3, of "\<lambda>names. names" 200 ?ts] t
    by (simp add: plain_fields_def echoing_start_def header_fields_def values_of_def accepted_def finished_def
        delivered_def headers_def map_err_def and_then_def fields_append_def)
  then show ?thesis using s3 t by (intro exI [of _ ?es] exI [of _ ?s3]) (auto simp: example_frames_def data_of_def)
qed

end
