(* ===== verification/StoredRows.thy ===== *)
theory StoredRows
  imports RuleStore
begin

text \<open>
  How rows are stored: the crate \<open>dhttp-access\<close>, the macro \<open>orm_new_type\<close> of \<open>access/src/dhttp_access.rs\<close>, the
  serialisation of patterns and rules (\<open>access/src/pattern.rs\<close>, \<open>access/src/expr/exprs.rs\<close>), the numbers of
  actions (\<open>access/src/action.rs\<close>) and the entities of \<open>access/src/db/entities\<close>.  A pattern and a rule are
  columns of JSON; what reads them is parsed again, so a database that was changed by others gives an error or
  a rule that the parser could have given.
\<close>

section \<open>JSON\<close>

datatype json = JNull | JBool bool | JNumber int | JString string | JArray "json list" | JObject "(string \<times> json) list"

datatype 'e json_error = InvalidType | MissingField string | InvalidLength nat | Custom 'e

fun json_string :: "json \<Rightarrow> 'e json_error + string" where
  "json_string (JString s) = Inr s"
| "json_string _ = Inl InvalidType"

definition pattern_to_json :: "('k, 'r) pattern \<Rightarrow> json" where
  "pattern_to_json p = JString (p_text p)"

definition pattern_from_json :: "(string \<Rightarrow> 'e + ('k, 'r) pattern) \<Rightarrow> json \<Rightarrow> 'e json_error + ('k, 'r) pattern" where
  "pattern_from_json parse v = and_then (json_string v) (\<lambda>s. map_err Custom (parse s))"

definition exprs_to_json :: "'r exprs \<Rightarrow> json" where
  "exprs_to_json parts = JString (serialize_exprs parts)"

text \<open>Any other value than a string is an error of the expression's own.\<close>

datatype exprs_json_error = NotString | ExprsError deserialize_exprs_error

definition exprs_from_json ::
    "('r, 'q :: finite) engine \<Rightarrow> json \<Rightarrow> exprs_json_error json_error + 'r exprs" where
  "exprs_from_json E v =
     (case v of
        JString s \<Rightarrow> map_err (\<lambda>e. Custom (ExprsError e)) (deserialize_exprs E s)
      | _ \<Rightarrow> Inl (Custom NotString))"

text \<open>The derived implementations of a rule: an object of its two fields, read from an object or an array.\<close>

definition rule_to_json :: "'r location_rule_exprs \<Rightarrow> json" where
  "rule_to_json e = JObject [(''infix'', JString (infix_text e)), (''polish'', exprs_to_json (polish_parts e))]"

definition json_field :: "(json \<Rightarrow> 'e json_error + 'a) \<Rightarrow> (string \<times> json) list \<Rightarrow> string \<Rightarrow> 'e json_error + 'a option" where
  "json_field read kvs name =
     (case map_of kvs name of None \<Rightarrow> Inr None | Some v \<Rightarrow> and_then (read v) (\<lambda>x. Inr (Some x)))"

definition rule_from_json ::
    "('r, 'q :: finite) engine \<Rightarrow> json \<Rightarrow> exprs_json_error json_error + 'r location_rule_exprs" where
  "rule_from_json E v =
     (case v of
        JObject kvs \<Rightarrow>
          and_then (json_field json_string kvs ''infix'') (\<lambda>infix_field.
          and_then (json_field (exprs_from_json E) kvs ''polish'') (\<lambda>polish_field.
          and_then (ok_or (MissingField ''infix'') infix_field) (\<lambda>i.
          and_then (ok_or (MissingField ''polish'') polish_field) (\<lambda>parts.
            Inr \<lparr>infix_text = i, polish_parts = parts\<rparr>))))
      | JArray [] \<Rightarrow> Inl (InvalidLength 0)
      | JArray [i] \<Rightarrow> and_then (json_string i) (\<lambda>_. Inl (InvalidLength 1))
      | JArray (i # parts # rest) \<Rightarrow>
          and_then (json_string i) (\<lambda>i.
          and_then (exprs_from_json E parts) (\<lambda>parts.
            if rest = [] then Inr \<lparr>infix_text = i, polish_parts = parts\<rparr>
            else Inl (InvalidLength (2 + length rest))))
      | _ \<Rightarrow> Inl InvalidType)"

section \<open>Columns\<close>

text \<open>The values of \<open>sea_orm\<close> that the tables use; a null is \<open>None\<close>.\<close>

datatype sql_value = SqlInt "int option" | SqlTime "int option" | SqlJson "json option"

datatype column_type = JsonColumn

definition value_column_type :: column_type where
  "value_column_type = JsonColumn"

definition value_from :: "('a \<Rightarrow> json) \<Rightarrow> 'a \<Rightarrow> sql_value" where
  "value_from to_json x = SqlJson (Some (to_json x))"

text \<open>\<open>ValueTypeErr\<close> says nothing.\<close>

definition value_try_from :: "(json \<Rightarrow> 'e + 'a) \<Rightarrow> sql_value \<Rightarrow> unit + 'a" where
  "value_try_from from_json v =
     (case v of SqlJson (Some j) \<Rightarrow> map_err (\<lambda>_. ()) (from_json j) | _ \<Rightarrow> Inl ())"

text \<open>\<open>get\<close> is \<open>QueryResult::try_get_by\<close> at the type of JSON values; the error of the conversion is of type
  \<open>DbErr::Type\<close>.\<close>

datatype 'e column_error = ColumnError string | TypeError 'e

definition column_try_get :: "(json \<Rightarrow> 'e + 'a) \<Rightarrow> string + json \<Rightarrow> 'e column_error + 'a" where
  "column_try_get from_json get = and_then (map_err ColumnError get) (\<lambda>j. map_err TypeError (from_json j))"

text \<open>The numbers of the two actions.\<close>

definition action_to_value :: "request_action \<Rightarrow> int" where
  "action_to_value a = (case a of Allow \<Rightarrow> 0 | Deny \<Rightarrow> 1)"

definition action_try_from :: "int \<Rightarrow> string + request_action" where
  "action_try_from n =
     (if n = 0 then Inr Allow else if n = 1 then Inr Deny else Inl ''unexpected value for RequestAction enum'')"

section \<open>Rows\<close>

type_synonym columns = "string \<Rightarrow> sql_value option"

text \<open>What the driver gives for a column, by the type it is asked for.\<close>

definition get_json :: "columns \<Rightarrow> string \<Rightarrow> string + json" where
  "get_json cols name =
     (case cols name of Some (SqlJson (Some j)) \<Rightarrow> Inr j | _ \<Rightarrow> Inl (''no JSON value in column '' @ name))"

definition get_int :: "columns \<Rightarrow> string \<Rightarrow> 'e column_error + int" where
  "get_int cols name =
     (case cols name of Some (SqlInt (Some n)) \<Rightarrow> Inr n | _ \<Rightarrow> Inl (ColumnError (''no integer in column '' @ name)))"

definition get_time :: "columns \<Rightarrow> string \<Rightarrow> 'e column_error + int" where
  "get_time cols name =
     (case cols name of Some (SqlTime (Some t)) \<Rightarrow> Inr t | _ \<Rightarrow> Inl (ColumnError (''no time in column '' @ name)))"

definition location_columns :: "'r location_row \<Rightarrow> columns" where
  "location_columns l = map_of
     [(''id'', SqlInt (Some (loc_id l))), (''pattern'', value_from pattern_to_json (loc_pattern l)),
      (''created_at'', SqlTime (Some (loc_created l))), (''updated_at'', SqlTime (Some (loc_updated l)))]"

definition location_from_columns where
  "location_from_columns E cols =
     and_then (get_int cols ''id'') (\<lambda>i.
     and_then (column_try_get (pattern_from_json (location_pattern_from_str E)) (get_json cols ''pattern'')) (\<lambda>p.
     and_then (get_time cols ''created_at'') (\<lambda>created.
     and_then (get_time cols ''updated_at'') (\<lambda>updated.
       Inr \<lparr>loc_id = i, loc_pattern = p, loc_created = created, loc_updated = updated\<rparr>))))"

definition rule_columns :: "'r rule_row \<Rightarrow> columns" where
  "rule_columns r = map_of
     [(''id'', SqlInt (Some (rule_id r))), (''location_id'', SqlInt (Some (rule_location r))),
      (''action'', SqlInt (Some (action_to_value (rule_action r)))),
      (''exprs'', value_from rule_to_json (rule_exprs r)),
      (''created_at'', SqlTime (Some (rule_created r))), (''updated_at'', SqlTime (Some (rule_updated r)))]"

definition rule_from_columns where
  "rule_from_columns E cols =
     and_then (get_int cols ''id'') (\<lambda>i.
     and_then (get_int cols ''location_id'') (\<lambda>lid.
     and_then (get_int cols ''action'') (\<lambda>n.
     and_then (map_err ColumnError (action_try_from n)) (\<lambda>action.
     and_then (column_try_get (rule_from_json E) (get_json cols ''exprs'')) (\<lambda>e.
     and_then (get_time cols ''created_at'') (\<lambda>created.
     and_then (get_time cols ''updated_at'') (\<lambda>updated.
       Inr \<lparr>rule_id = i, rule_location = lid, rule_action = action, rule_exprs = e,
            rule_created = created, rule_updated = updated\<rparr>)))))))"

section \<open>Facts\<close>

lemma action_read_back: "action_try_from (action_to_value a) = Inr a"
  by (cases a) (simp_all add: action_try_from_def action_to_value_def)

lemma action_text_same: "action_try_from m = Inr a \<Longrightarrow> action_to_value a = m"
  by (auto simp: action_try_from_def action_to_value_def split: if_splits)

lemmas column_defs = column_try_get_def get_json_def get_int_def get_time_def value_from_def

lemma pattern_json_trip:
  "parse (p_text p) = Inr p \<Longrightarrow> pattern_from_json parse (pattern_to_json p) = Inr p"
  by (simp add: pattern_from_json_def pattern_to_json_def and_then_def map_err_def)

lemma rule_json_trip:
  "deserialize_exprs E (serialize_exprs (polish_parts e)) = Inr (polish_parts e) \<Longrightarrow>
     rule_from_json E (rule_to_json e) = Inr e"
  by (simp add: rule_from_json_def rule_to_json_def json_field_def exprs_to_json_def exprs_from_json_def
      and_then_def map_err_def ok_or_def)

lemma deserialized_arity: "deserialize_exprs E s = Inr parts \<Longrightarrow> validate_arity parts = Inr ()"
  by (auto simp: deserialize_exprs_def and_then_eq_Inr split: option.splits)

lemma exprs_json_arity: "exprs_from_json E v = Inr parts \<Longrightarrow> validate_arity parts = Inr ()"
  by (auto simp: exprs_from_json_def dest: deserialized_arity split: json.splits)

lemma rule_json_arity: "rule_from_json E v = Inr e \<Longrightarrow> validate_arity (polish_parts e) = Inr ()"
  by (auto simp: rule_from_json_def json_field_def and_then_eq_Inr dest: exprs_json_arity
      split: json.splits list.splits option.splits if_splits)

text \<open>A parsed expression is read back from its stored text.\<close>

lemma good_stored: "good E parts \<Longrightarrow> deserialize_exprs E (serialize_exprs parts) = Inr parts"
  unfolding good_def
  by (elim exE conjE) (simp add: deserialize_serialize polish_parts_ok validate_arity_polish)

lemma location_text_parsed:
  "location_pattern_from_str E s = Inr p \<Longrightarrow> location_pattern_from_str E (p_text p) = Inr p"
  using location_from_str_text by metis

lemma location_read_back:
  "location_pattern_from_str E (p_text (loc_pattern l)) = Inr (loc_pattern l) \<Longrightarrow>
     location_from_columns E (location_columns l) = Inr l"
  by (simp add: location_from_columns_def location_columns_def column_defs pattern_json_trip and_then_def map_err_def)

lemma rule_read_back:
  "deserialize_exprs E (serialize_exprs (polish_parts (rule_exprs r))) = Inr (polish_parts (rule_exprs r)) \<Longrightarrow>
     rule_from_columns E (rule_columns r) = Inr r"
  by (simp add: rule_from_columns_def rule_columns_def column_defs rule_json_trip action_read_back
      and_then_def map_err_def)

lemma pattern_json_text:
  "pattern_from_json (location_pattern_from_str E) v = Inr p \<Longrightarrow> location_pattern_from_str E (p_text p) = Inr p"
  by (auto simp: pattern_from_json_def and_then_eq_Inr map_err_eq_Inr dest: location_text_parsed)

lemma location_columns_typed:
  "location_from_columns E cols = Inr l \<Longrightarrow> location_pattern_from_str E (p_text (loc_pattern l)) = Inr (loc_pattern l)"
  by (auto simp: location_from_columns_def column_try_get_def and_then_eq_Inr map_err_eq_Inr dest: pattern_json_text)

lemma rule_columns_typed:
  "rule_from_columns E cols = Inr r \<Longrightarrow> validate_arity (polish_parts (rule_exprs r)) = Inr ()
     \<and> cols ''action'' = Some (SqlInt (Some (action_to_value (rule_action r))))"
  by (auto simp: rule_from_columns_def column_try_get_def get_int_def and_then_eq_Inr map_err_eq_Inr
      dest: rule_json_arity action_text_same split: option.splits sql_value.splits)

section \<open>Properties\<close>

text \<open>
  C25: Rows hold what was parsed, and nothing else is read.  A stored rule whose expression was parsed from its
  text, and a stored rule set whose pattern was, are read back from their columns as they were written.  And
  whatever the columns hold, written by this program or changed by others: a rule that is read passes the arity
  check and has the action of the number in its column, and a rule set that is read has a pattern that parsing
  its text gives, so that writing it again changes nothing.
\<close>

theorem stored_rows_read_back:
  fixes E :: "('r, 'q :: finite) engine"
  shows "(\<forall>s r. exprs_from_str E s = Inr (rule_exprs r) \<longrightarrow> rule_from_columns E (rule_columns r) = Inr r)
    \<and> (\<forall>s l. location_pattern_from_str E s = Inr (loc_pattern l) \<longrightarrow> location_from_columns E (location_columns l) = Inr l)
    \<and> (\<forall>cols r. rule_from_columns E cols = Inr r \<longrightarrow>
         validate_arity (polish_parts (rule_exprs r)) = Inr ()
         \<and> cols ''action'' = Some (SqlInt (Some (action_to_value (rule_action r)))))
    \<and> (\<forall>cols l. location_from_columns E cols = Inr l \<longrightarrow> location_from_columns E (location_columns l) = Inr l)"
proof (intro conjI allI impI)
  fix s and r :: "'r rule_row" assume "exprs_from_str E s = Inr (rule_exprs r)"
  then have "good E (polish_parts (rule_exprs r))" using from_str_good by blast
  then show "rule_from_columns E (rule_columns r) = Inr r" by (intro rule_read_back good_stored)
next
  fix s and l :: "'r location_row" assume "location_pattern_from_str E s = Inr (loc_pattern l)"
  then show "location_from_columns E (location_columns l) = Inr l"
    by (intro location_read_back location_text_parsed)
next
  fix cols and r :: "'r rule_row" assume "rule_from_columns E cols = Inr r"
  from rule_columns_typed [OF this] show "validate_arity (polish_parts (rule_exprs r)) = Inr ()"
    "cols ''action'' = Some (SqlInt (Some (action_to_value (rule_action r))))" by auto
next
  fix cols and l :: "'r location_row" assume "location_from_columns E cols = Inr l"
  then show "location_from_columns E (location_columns l) = Inr l"
    by (intro location_read_back location_columns_typed)
qed

theorem stored_rows_read_back_witness:
  "let e = \<lparr>infix_text = ''*? '', polish_parts = [Expr Any]\<rparr>;
       r = \<lparr>rule_id = 7, rule_location = 1, rule_action = Deny, rule_exprs = e, rule_created = 5, rule_updated = 5\<rparr>
   in rule_from_columns toy_engine (rule_columns r) = Inr r \<and> validate_arity (polish_parts (rule_exprs r)) = Inr ()
     \<and> (let l = \<lparr>loc_id = 1, loc_pattern = toy_exact, loc_created = 3, loc_updated = 4\<rparr>
        in location_from_columns toy_engine (location_columns l) = Inr l)"
proof -
  let ?l = "\<lparr>loc_id = 1, loc_pattern = toy_exact, loc_created = 3, loc_updated = 4\<rparr>"
  let ?e = "\<lparr>infix_text = ''*? '', polish_parts = [Expr Any]\<rparr> :: string location_rule_exprs"
  let ?r = "\<lparr>rule_id = 7, rule_location = 1, rule_action = Deny, rule_exprs = ?e, rule_created = 5, rule_updated = 5\<rparr>"
  have "lexer_tokens ''*? '' = Some [Unquoted ''*?'']" by (simp add: lexer_words)
  moreover have "infix_location_rule_exprs toy_engine [Unquoted ''*?''] = Matched (Inr [Expr Any]) []"
    by (simp add: infix_location_rule_exprs_def ok_map_def with_rule_def location_profile_def any_rule_def)
  ultimately have parsed: "exprs_from_str toy_engine ''*? '' = Inr (rule_exprs ?r)"
    by (simp add: exprs_from_str_def whole_input_def)
  note trip = stored_rows_read_back [of toy_engine]
  from trip [THEN conjunct1] parsed have "rule_from_columns toy_engine (rule_columns ?r) = Inr ?r" by blast
  moreover from this trip have "validate_arity (polish_parts (rule_exprs ?r)) = Inr ()" by blast
  moreover have "location_pattern_from_str toy_engine ''= /a'' = Inr (loc_pattern ?l)" by (simp add: toy_exact_parsed)
  with trip have "location_from_columns toy_engine (location_columns ?l) = Inr ?l" by blast
  ultimately show ?thesis by (simp only: Let_def)
qed

end
