(* ===== verification/Spec2Isabelle.thy ===== *)
theory Spec2Isabelle
  imports Names RuleStore Certificates Profiles IdentityStore AccessLog CertLog Errors RequestUri Receives Requests NatMappings Interfaces Network Natives Settings Database Transport Trust Policy Responses NativeObjects HandlerSessions StoredRows
begin

text \<open>
  A verification library for the workspace \<open>dhttp\<close>: identities with certificates, the rules that
  decide who may access what, the log records, and the HTTP/3 endpoints and SDK above them.  The
  definitions are translated from the Rust sources; a theory names the files it models, and the
  definitions keep the names of the code where HOL leaves them free.

  The program and its parts.  A home directory holds one profile directory per identity
  (\<open>home/\<close>): its certificate chain, key and staple, an access database, logs, and the settings that
  name the default identity.  The crate \<open>access/\<close> parses access rules, stores them and decides a request
  by them.  The crate \<open>log/\<close> writes one line per request or certificate event.  The crate \<open>dhttp/\<close> loads
  an identity into an endpoint, binds the interfaces, listens, connects and routes requests by name.
  The crate \<open>api/\<close> is the SDK above it: handles with a lifetime, the bridges that carry bodies between
  tasks, and the bindings for Node and Python.

  Theories, from the bottom.
  \<^item> \<open>Prelude\<close>: strings as UTF-8 bytes, \<open>Option\<close> and \<open>Result\<close>, decimal numbers, and what the
    standard library does with them.
  \<^item> \<open>Names\<close> (\<open>home/src/dhttp_home.rs\<close>): canonical names and where the home is.  \<open>Profiles\<close> and
    \<open>IdentityStore\<close> (\<open>home/src/identity.rs\<close>, \<open>identity/ssl.rs\<close>, \<open>identity/management.rs\<close>): discovery and
    resolution of profiles, the transaction that installs the material of an identity, and its loading.
    \<open>Settings\<close> (\<open>identity/settings.rs\<close>): the settings file and the default identity.  \<open>Certificates\<close>
    (\<open>home/src/certificate.rs\<close>, \<open>certificate/rules.rs\<close>, \<open>ocsp.rs\<close>): key identifiers, the signature
    scheme of a key, and the refresh of a staple.
  \<^item> \<open>Languages\<close>, \<open>Patterns\<close> (\<open>access/src/pattern.rs\<close> and below): the automata of the inputs, the search
    for a reachable match, the four kinds of patterns.  \<open>PolishVM\<close>, \<open>Atomics\<close>, \<open>RuleParser\<close>
    (\<open>access/src/expr\<close>): the evaluation of rule expressions, their atoms, and the two grammars.  \<open>Matcher\<close>,
    \<open>RuleStore\<close>, \<open>Database\<close> (\<open>access/src/matcher.rs\<close>, \<open>access/src/db\<close>, \<open>access/src/db.rs\<close>): the choice of
    a rule in memory and in the database, the operations on stored rules, the migration to unique
    rules, and the opening of the database.  \<open>RuleListing\<close> (the listings of \<open>db/service/location_service.rs\<close>):
    rule sets as numbered text.  \<open>StoredRows\<close> (\<open>access/src/dhttp_access.rs\<close>, \<open>db/entities\<close>): the columns of a
    row and their JSON.  \<open>Policy\<close> (\<open>access/src/policy.rs\<close>): what any evaluator of requests promises,
    for the matcher and for the database.
  \<^item> \<open>Records\<close>, \<open>AccessLog\<close>, \<open>CertLog\<close> (\<open>log/src\<close>): the bounded record builder and the two formats.
  \<^item> \<open>Errors\<close> (\<open>dhttp/src/error.rs\<close>, \<open>api/src/error.rs\<close>), \<open>RequestUri\<close> (\<open>dhttp/src/uri.rs\<close>),
    \<open>Endpoints\<close> and \<open>Requests\<close> (\<open>dhttp/src/endpoint.rs\<close>, \<open>endpoint/request.rs\<close>), \<open>Network\<close>
    (\<open>dhttp/src/network.rs\<close>, \<open>network/connection.rs\<close>), \<open>Interfaces\<close> and \<open>NatMappings\<close>
    (\<open>network/interfaces.rs\<close>, \<open>interfaces/nat.rs\<close>), \<open>Transport\<close> (\<open>dhttp/src/transport.rs\<close>), \<open>Trust\<close>
    (\<open>dhttp/bootstrap_config.rs\<close>, \<open>dhttp/build.rs\<close>, \<open>dhttp/src/trust.rs\<close>), \<open>Responses\<close> (\<open>endpoint/request.rs\<close>
    again): error categories and their recovery, routing, loading and admission, the pool and the
    registry, bound sockets and their NAT state, the stream adapter, the embedded root certificate, and a
    request from its URI to the peer named in its response.
  \<^item> \<open>Lifecycle\<close>, \<open>Uploads\<close>, \<open>Receives\<close>, \<open>Clients\<close>, \<open>Services\<close> (\<open>api/src/lifecycle.rs\<close>, \<open>stream.rs\<close>,
    \<open>client.rs\<close>, \<open>server.rs\<close>), \<open>Bindings\<close>, \<open>Natives\<close>, \<open>NativeObjects\<close>, \<open>HandlerSessions\<close>
    (\<open>binding.rs\<close>, \<open>napi.rs\<close>, \<open>python.rs\<close>): the scope of a handle, the two body bridges, requests and
    listeners, what the languages see, the methods of the objects of each language, and a request in the
    hands of a handler.

  How the code is rendered.  A \<open>Result\<close> is a sum with the error on the left and \<open>?\<close> is \<open>and_then\<close>; a
  \<open>panic\<close> or a call that does not return is \<open>None\<close>, as the text before a definition says.  Integers whose
  overflow matters are words.  State is passed and returned.  Concurrent code is a step relation or a
  list of actions: one poll of a future is one step, since a poll runs on one thread without being
  interrupted at the shared cells it locks; a future that touches several cells between polls
  (\<open>close\<close>, the drop of an unfinished call) is several steps.  Code of other crates is a parameter, a
  record of functions or an argument, and what the program relies on is a named contract such as
  \<open>quic_contract\<close>, \<open>signer_contract\<close> or \<open>toml_contract\<close>, each shown to be satisfiable by a concrete
  instance in a witness.  Locales state the interfaces the model's own definitions provide: the input
  automata (\<open>input_language\<close>, eight interpretations), the operator sets of the stack machine
  (\<open>operators\<close>, three), comparisons for sorted maps (\<open>comparison\<close>, two), evaluators of requests
  (\<open>rule_evaluator\<close>, two) and the elements of log records (\<open>format_element\<close>, \<open>text_element\<close>).

  Bounds and fuel.  The infix grammar is mutually recursive through ordered choice: \<open>composite\<close> runs it
  with fuel \<open>3 * length + 2\<close> of its tokens, and the lemmas on \<open>OutOfFuel\<close> show that no run uses it up; the
  repetition of the Polish grammar has the number of tokens as fuel, each part taking one.  The
  breadth-first search ends because it never queues a product state twice.  The loop over the blocks
  of a PEM file may not end for an arbitrary reader, so it is a \<open>partial_function\<close>, and a theorem gives
  its termination.  Log records are bounded by 64 KiB and the upload queue by four chunks of 16 KiB.

  What the lemmas show.  For the rules: what a rule expression evaluates to, that parsing and
  storing lose nothing, that no stored row gives an ill-formed rule, which rule decides, that only a true allow rule allows, and that the database
  and the matcher in memory agree, also across the migration.  For identities: that saving is
  atomic under every failing call, that names never leave the home, that discovered profiles resolve,
  and that a saved default is the one resolved.  For logs: that a record is one line from which
  every field is read back.  For the network: that requests reach the endpoint they name, that a pooled
  connection carries the names of its key, that a response names the peer that was asked for, with
  the owner that was expected, and that listeners, registrations, sockets and NAT publications stay in step.  For the SDK: that bodies are
  carried unchanged and an end is only reported when it was reached, that a closed handle has no live
  operation, that every request future is answered, which response a language handler gives, that Node
  and Python have the same objects, and that what a handler echoes arrives.

  Not modelled: the generated constants (\<open>bootstrap.rs\<close>) and the build script of \<open>home/\<close>; the futures of
  asyncio, the threadsafe function behind a handler of Node and the registration of the Python module,
  which are those of the libraries; the queries that sea-orm derives
  for its entities, the list of migrations and the dropping of their tables; source
  positions in parser errors; module declarations; the JavaScript and Python packages above the native
  modules; tests and examples.
\<close>

end
